(* ===== verification/Prelude.thy ===== *)
theory Prelude
  imports Main "HOL-Library.Word" "HOL-Library.Monad_Syntax" "HOL-Library.Code_Target_Nat"
begin

text \<open>
  The vocabulary every component of the development shares.

  \<^item> Machine integers are words of their width; \<open>usize\<close> values that are lengths or
    indices of slices are \<^typ>\<open>nat\<close> (a Rust slice is at most \<open>isize::MAX\<close> bytes
    long, so adding the small constants the code adds to a length cannot overflow).
  \<^item> A panic (an index or a range out of bounds, an \<open>expect\<close> or \<open>unwrap\<close> on the wrong
    variant, a checked arithmetic operation that overflows) is \<^const>\<open>None\<close> of
    \<^typ>\<open>'a option\<close>; a computation that may panic is a value of that type, and its
    sequencing is \<^const>\<open>Option.bind\<close>, written with \<open>do\<close>.
  \<^item> A \<open>Result<T, E>\<close> is \<^typ>\<open>'e + 'a\<close>, with \<^const>\<open>Inl\<close> for \<open>Err\<close>, so a function that
    returns a \<open>Result\<close> and may also panic has the type \<open>('e + 'a) option\<close>.
\<close>

unbundle bit_operations_syntax

section \<open>Types\<close>

type_synonym u8 = "8 word"
type_synonym u16 = "16 word"
type_synonym u32 = "32 word"
type_synonym u64 = "64 word"
type_synonym bytes = "u8 list"

named_theorems panic_simps
  \<open>elimination of the operations that may panic where their guard holds\<close>

named_theorems wire_simps
  \<open>lengths and contents of encoded fields\<close>

named_theorems eval_simps
  \<open>definitions to unfold when a closed term is evaluated by the simplifier\<close>

section \<open>Slices and arrays\<close>

text \<open>
  \<open>&xs[a..b]\<close>, \<open>&xs[a..]\<close> and \<open>xs[i]\<close>, each with the bounds check that panics, and
  the two ways the code writes into a buffer: \<open>xs[i] = v\<close> and
  \<open>xs[a..b].copy_from_slice(src)\<close>, which also panics when the lengths differ.
\<close>

definition slice_range :: "nat \<Rightarrow> nat \<Rightarrow> 'a list \<Rightarrow> 'a list option" where
  "slice_range a b xs =
     (if a \<le> b \<and> b \<le> length xs then Some (take (b - a) (drop a xs)) else None)"

definition slice_from :: "nat \<Rightarrow> 'a list \<Rightarrow> 'a list option" where
  "slice_from a xs = (if a \<le> length xs then Some (drop a xs) else None)"

definition slice_get :: "nat \<Rightarrow> 'a list \<Rightarrow> 'a option" where
  "slice_get i xs = (if i < length xs then Some (xs ! i) else None)"

definition slice_set :: "nat \<Rightarrow> 'a \<Rightarrow> 'a list \<Rightarrow> 'a list option" where
  "slice_set i v xs = (if i < length xs then Some (xs[i := v]) else None)"

definition copy_range :: "nat \<Rightarrow> nat \<Rightarrow> 'a list \<Rightarrow> 'a list \<Rightarrow> 'a list option" where
  "copy_range a b src xs =
     (if a \<le> b \<and> b \<le> length xs \<and> length src = b - a
      then Some (take a xs @ src @ drop b xs) else None)"

lemma slice_range_Some [panic_simps]:
  "a \<le> b \<Longrightarrow> b \<le> length xs \<Longrightarrow> slice_range a b xs = Some (take (b - a) (drop a xs))"
  by (simp add: slice_range_def)

lemma slice_from_Some [panic_simps]: "a \<le> length xs \<Longrightarrow> slice_from a xs = Some (drop a xs)"
  by (simp add: slice_from_def)

lemma slice_get_Some [panic_simps]: "i < length xs \<Longrightarrow> slice_get i xs = Some (xs ! i)"
  by (simp add: slice_get_def)

lemma slice_set_Some [panic_simps]: "i < length xs \<Longrightarrow> slice_set i v xs = Some (xs[i := v])"
  by (simp add: slice_set_def)

lemma copy_range_Some [panic_simps]:
  "a \<le> b \<Longrightarrow> b \<le> length xs \<Longrightarrow> length src = b - a \<Longrightarrow>
     copy_range a b src xs = Some (take a xs @ src @ drop b xs)"
  by (simp add: copy_range_def)

lemma slice_range_length: "slice_range a b xs = Some ys \<Longrightarrow> length ys = b - a"
  by (auto simp: slice_range_def split: if_splits)

lemma slice_range_mid:
  "length pre = a \<Longrightarrow> length mid = b - a \<Longrightarrow> a \<le> b \<Longrightarrow>
     slice_range a b (pre @ mid @ post) = Some mid"
  by (simp add: slice_range_def)

lemma slice_range_None_iff: "slice_range a b xs = None \<longleftrightarrow> b < a \<or> length xs < b"
  by (auto simp: slice_range_def)

lemma copy_range_length: "copy_range a b src xs = Some ys \<Longrightarrow> length ys = length xs"
  by (auto simp: copy_range_def split: if_splits)

text \<open>Reading back the range that was just written, and a range it does not touch.\<close>

lemma slice_range_copy_same:
  "copy_range a b src xs = Some ys \<Longrightarrow> slice_range a b ys = Some src"
  by (auto simp: copy_range_def slice_range_def split: if_splits)

lemma take_eq_nth_imp: "take n xs = ys \<Longrightarrow> n \<le> length xs \<Longrightarrow> i < n \<Longrightarrow> xs ! i = ys ! i"
  by (metis nth_take)

text \<open>
  Writing a buffer from left to right: a prefix is already there and zeros follow. A write may
  leave a gap, which stays zero.
\<close>

lemma copy_range_gap:
  assumes "length pre \<le> a" and "length src = b - a" and "a \<le> b" and "b - length pre \<le> n"
  shows "copy_range a b src (pre @ replicate n 0)
    = Some ((pre @ replicate (a - length pre) 0 @ src) @ replicate (n - (b - length pre)) 0)"
  using assms by (simp add: copy_range_def min_absorb1)

lemma copy_range_prefix:
  assumes "length pre = a" and "length src = b - a" and "a \<le> b" and "b \<le> n"
  shows "copy_range a b src (pre @ replicate (n - a) 0)
    = Some ((pre @ src) @ replicate (n - b) 0)"
  using assms by (simp add: copy_range_def)

lemma slice_set_prefix:
  assumes "length pre = i" and "0 < n"
  shows "slice_set i v (pre @ replicate n 0) = Some ((pre @ [v]) @ replicate (n - 1) 0)"
  using assms by (cases n) (simp_all add: slice_set_def list_update_append)

lemma replicate_numeral: "replicate (numeral v) x = x # replicate (pred_numeral v) x"
  by (simp add: numeral_eq_Suc)

text \<open>Lists of a known small length, taken apart.\<close>

lemma length_1E: "length xs = 1 \<Longrightarrow> (\<And>a. xs = [a] \<Longrightarrow> P) \<Longrightarrow> P"
  by (auto simp: length_Suc_conv)

lemma length_2E: "length xs = 2 \<Longrightarrow> (\<And>a b. xs = [a, b] \<Longrightarrow> P) \<Longrightarrow> P"
  by (auto simp: numeral_eq_Suc length_Suc_conv)

lemma length_4E: "length xs = 4 \<Longrightarrow> (\<And>a b c d. xs = [a, b, c, d] \<Longrightarrow> P) \<Longrightarrow> P"
  by (auto simp: numeral_eq_Suc length_Suc_conv)

lemma length_6E:
  "length xs = 6 \<Longrightarrow> (\<And>a b c d e f. xs = [a, b, c, d, e, f] \<Longrightarrow> P) \<Longrightarrow> P"
  by (auto simp: numeral_eq_Suc length_Suc_conv)

section \<open>Checked arithmetic\<close>

text \<open>
  Rust's \<open>+\<close> and \<open>*\<close> on a \<open>uN\<close> panic when the result does not fit (the kernel runs with
  overflow checks); \<open>uN::try_from(usize)\<close> is an error value instead.
\<close>

definition add_chk :: "'a::len word \<Rightarrow> 'a word \<Rightarrow> 'a word option" where
  "add_chk x y = (if unat x + unat y < 2 ^ LENGTH('a) then Some (x + y) else None)"

definition mul_chk :: "'a::len word \<Rightarrow> 'a word \<Rightarrow> 'a word option" where
  "mul_chk x y = (if unat x * unat y < 2 ^ LENGTH('a) then Some (x * y) else None)"

definition sub_chk :: "'a::len word \<Rightarrow> 'a word \<Rightarrow> 'a word option" where
  "sub_chk x y = (if unat y \<le> unat x then Some (x - y) else None)"

definition try_from_usize :: "nat \<Rightarrow> 'a::len word option" where
  "try_from_usize n = (if n < 2 ^ LENGTH('a) then Some (of_nat n) else None)"

lemma add_chk_Some [panic_simps]:
  fixes x y :: "'a::len word"
  shows "unat x + unat y < 2 ^ LENGTH('a) \<Longrightarrow> add_chk x y = Some (x + y)"
  by (simp add: add_chk_def)

lemma mul_chk_Some [panic_simps]:
  fixes x y :: "'a::len word"
  shows "unat x * unat y < 2 ^ LENGTH('a) \<Longrightarrow> mul_chk x y = Some (x * y)"
  by (simp add: mul_chk_def)

lemma add_chk_unat:
  fixes x y :: "'a::len word"
  shows "add_chk x y = Some z \<Longrightarrow> unat z = unat x + unat y"
  by (auto simp: add_chk_def unat_word_ariths split: if_splits)

lemma try_from_usize_unat:
  "try_from_usize n = Some (w :: 'a::len word) \<Longrightarrow> unat w = n"
  by (auto simp: try_from_usize_def unat_of_nat take_bit_eq_mod split: if_splits)

lemma try_from_usize_None_iff:
  "try_from_usize n = (None :: 'a::len word option) \<longleftrightarrow> 2 ^ LENGTH('a) \<le> n"
  by (auto simp: try_from_usize_def)

lemma try_from_usize_unat_self [simp]: "try_from_usize (unat w) = Some (w :: 'a::len word)"
  using unsigned_less[of w, where 'a = nat] by (simp add: try_from_usize_def)

lemma unat_eqI: "unat v = unat w \<Longrightarrow> v = w"
  by (simp add: word_unat_eq_iff)

lemma unat_of_nat_small: "n < 2 ^ LENGTH('a) \<Longrightarrow> unat (of_nat n :: 'a::len word) = n"
  by (simp add: unat_of_nat take_bit_eq_mod)

lemma of_nat_unat_self: "of_nat (unat w) = w"
  by simp

section \<open>Results\<close>

text \<open>The \<open>?\<close> operator under the panic monad: an error returns at once.\<close>

definition try_result :: "('e + 'a) \<Rightarrow> ('a \<Rightarrow> ('e + 'b) option) \<Rightarrow> ('e + 'b) option" where
  "try_result r k = (case r of Inl e \<Rightarrow> Some (Inl e) | Inr x \<Rightarrow> k x)"

lemma try_result_simps [simp]:
  "try_result (Inl e) k = Some (Inl e)"
  "try_result (Inr x) k = k x"
  by (simp_all add: try_result_def)

definition map_err :: "('e \<Rightarrow> 'f) \<Rightarrow> 'e + 'a \<Rightarrow> 'f + 'a" where
  "map_err f r = (case r of Inl e \<Rightarrow> Inl (f e) | Inr x \<Rightarrow> Inr x)"

lemma map_err_simps [simp]:
  "map_err f (Inl e) = Inl (f e)"
  "map_err f (Inr x) = Inr x"
  by (simp_all add: map_err_def)

definition ok_or :: "'e \<Rightarrow> 'a option \<Rightarrow> 'e + 'a" where
  "ok_or e x = (case x of None \<Rightarrow> Inl e | Some v \<Rightarrow> Inr v)"

lemma ok_or_simps [simp]:
  "ok_or e None = Inl e"
  "ok_or e (Some v) = Inr v"
  by (simp_all add: ok_or_def)

lemmas [eval_simps] =
  slice_range_def slice_from_def slice_get_def slice_set_def copy_range_def add_chk_def mul_chk_def
  sub_chk_def try_from_usize_def

end
