(* ===== verification/Bytes.thy ===== *)
theory Bytes
  imports Prelude
begin

text \<open>
  Byte order (\<open>net/src/utils.rs\<close>): the \<open>FromSlice\<close> trait that every parser of the
  network stack reads its fields with, and the standard library's \<open>to_be_bytes\<close> /
  \<open>to_le_bytes\<close> that every serializer writes them with. The locale \<open>byte_codec\<close> is the
  contract between the two: what a field of fixed width promises its readers.
\<close>

section \<open>Definitions\<close>

definition be_value :: "bytes \<Rightarrow> nat" where
  "be_value bs = foldl (\<lambda>acc b. acc * 256 + unat b) 0 bs"

definition from_be_bytes :: "bytes \<Rightarrow> 'a::len word" where
  "from_be_bytes bs = foldl (\<lambda>acc b. acc * 256 + ucast b) 0 bs"

definition from_le_bytes :: "bytes \<Rightarrow> 'a::len word" where
  "from_le_bytes bs = from_be_bytes (rev bs)"

definition to_le_bytes :: "'a::len word \<Rightarrow> bytes" where
  "to_le_bytes w = map (\<lambda>i. ucast (drop_bit (8 * i) w)) [0..<LENGTH('a) div 8]"

definition to_be_bytes :: "'a::len word \<Rightarrow> bytes" where
  "to_be_bytes w = rev (to_le_bytes w)"

text \<open>
  \<open>slice.try_into().expect("Incorrect length")\<close> panics unless the slice has exactly the
  width of the integer. The target is x86-64, so native order is little endian.
\<close>

definition from_be_slice :: "bytes \<Rightarrow> 'a::len word option" where
  "from_be_slice s = (if 8 * length s = LENGTH('a) then Some (from_be_bytes s) else None)"

definition from_le_slice :: "bytes \<Rightarrow> 'a::len word option" where
  "from_le_slice s = (if 8 * length s = LENGTH('a) then Some (from_le_bytes s) else None)"

definition from_ne_slice :: "bytes \<Rightarrow> 'a::len word option" where
  "from_ne_slice s = from_le_slice s"

section \<open>Values of byte strings\<close>

lemma be_value_Nil [simp]: "be_value [] = 0"
  by (simp add: be_value_def)

lemma be_value_snoc [simp]: "be_value (bs @ [b]) = be_value bs * 256 + unat b"
  by (simp add: be_value_def)

lemma be_value_Cons: "be_value (b # bs) = unat b * 256 ^ length bs + be_value bs"
proof (induction bs rule: rev_induct)
  case Nil
  show ?case using be_value_snoc[of "[]" b] by simp
next
  case (snoc x xs)
  have "be_value (b # xs @ [x]) = be_value (b # xs) * 256 + unat x"
    using be_value_snoc[of "b # xs" x] by simp
  then show ?case by (simp add: snoc.IH algebra_simps)
qed

lemma unat_byte_bound: "unat (b :: u8) < 256"
  using unsigned_less[of b, where 'a = nat] by simp

lemma be_value_bound: "be_value bs < 256 ^ length bs"
proof (induction bs)
  case (Cons b bs)
  have "unat b * 256 ^ length bs + be_value bs < (unat b + 1) * 256 ^ length bs"
    using Cons.IH by simp
  also have "\<dots> \<le> 256 * 256 ^ length bs"
    using unat_byte_bound[of b] by (intro mult_right_mono) auto
  finally show ?case by (simp add: be_value_Cons)
qed simp

lemma be_value_inj:
  "length xs = length ys \<Longrightarrow> be_value xs = be_value ys \<Longrightarrow> xs = ys"
proof (induction xs ys rule: list_induct2)
  case (Cons x xs y ys)
  let ?m = "256 ^ length xs :: nat"
  have bounds: "be_value xs < ?m" "be_value ys < ?m"
    using be_value_bound[of xs] be_value_bound[of ys] Cons.hyps by simp_all
  have eq: "unat x * ?m + be_value xs = unat y * ?m + be_value ys"
    using Cons.prems Cons.hyps by (simp add: be_value_Cons)
  have "(unat x * ?m + be_value xs) div ?m = unat x"
    "(unat y * ?m + be_value ys) div ?m = unat y"
    using bounds by simp_all
  with eq have "unat x = unat y" by simp
  with eq Cons.IH show ?case by (simp add: word_unat_eq_iff)
qed simp

lemma from_be_bytes_of_nat: "(from_be_bytes bs :: 'a::len word) = of_nat (be_value bs)"
  by (induction bs rule: rev_induct) (simp_all add: from_be_bytes_def be_value_def)

lemma unat_from_be_bytes:
  "8 * length bs \<le> LENGTH('a::len) \<Longrightarrow> unat (from_be_bytes bs :: 'a word) = be_value bs"
proof -
  assume "8 * length bs \<le> LENGTH('a)"
  then have "(256::nat) ^ length bs \<le> 2 ^ LENGTH('a)"
    using power_increasing[of "8 * length bs" "LENGTH('a)" "2::nat"] by (simp add: power_mult)
  with be_value_bound[of bs] have "be_value bs < 2 ^ LENGTH('a)" by simp
  then show ?thesis
    by (simp add: from_be_bytes_of_nat unat_of_nat take_bit_eq_mod)
qed

section \<open>Widths and round trips\<close>

lemma length_to_le_bytes [simp, wire_simps]:
  "length (to_le_bytes (w :: 'a::len word)) = LENGTH('a) div 8"
  by (simp add: to_le_bytes_def)

lemma length_to_be_bytes [simp, wire_simps]:
  "length (to_be_bytes (w :: 'a::len word)) = LENGTH('a) div 8"
  by (simp add: to_be_bytes_def)

lemma be_value_le_prefix:
  fixes w :: "'a::len word"
  shows "be_value (rev (map (\<lambda>i. ucast (drop_bit (8 * i) w)) [0..<n])) = unat w mod 256 ^ n"
proof (induction n)
  case (Suc n)
  have byte: "unat (ucast (drop_bit (8 * n) w) :: u8) = unat w div 256 ^ n mod 256"
    by (simp add: unsigned_ucast_eq unat_drop_bit_eq take_bit_eq_mod power_mult
        drop_bit_eq_div[where 'a = nat])
  have "unat w mod 256 ^ Suc n = unat w div 256 ^ n mod 256 * 256 ^ n + unat w mod 256 ^ n"
    using mod_mult2_eq[of "unat w" "256 ^ n" 256] by (simp add: mult.commute)
  with byte Suc.IH show ?case by (simp add: be_value_Cons)
qed simp

lemma be_value_to_be_bytes:
  fixes w :: "'a::len word"
  assumes "8 dvd LENGTH('a)"
  shows "be_value (to_be_bytes w) = unat w"
proof -
  have "(256::nat) ^ (LENGTH('a) div 8) = 2 ^ (8 * (LENGTH('a) div 8))"
    by (simp add: power_mult)
  also have "\<dots> = 2 ^ LENGTH('a)" using assms by simp
  finally have "unat w mod 256 ^ (LENGTH('a) div 8) = unat w"
    using unsigned_less[of w, where 'a = nat] by simp
  then show ?thesis by (simp add: to_be_bytes_def to_le_bytes_def be_value_le_prefix)
qed

lemma from_be_to_be:
  "8 dvd LENGTH('a::len) \<Longrightarrow> from_be_bytes (to_be_bytes w) = (w :: 'a word)"
  by (simp add: from_be_bytes_of_nat be_value_to_be_bytes)

lemma to_be_from_be:
  assumes "8 * length bs = LENGTH('a::len)"
  shows "to_be_bytes (from_be_bytes bs :: 'a word) = bs"
proof (rule be_value_inj)
  show "length (to_be_bytes (from_be_bytes bs :: 'a word)) = length bs"
    using assms by simp
  have "8 dvd LENGTH('a)" using assms by (metis dvd_triv_left)
  then show "be_value (to_be_bytes (from_be_bytes bs :: 'a word)) = be_value bs"
    using assms by (simp add: be_value_to_be_bytes unat_from_be_bytes)
qed

lemma to_be_bytes_u8: "to_be_bytes (w :: u8) = [w]"
  by (simp add: to_be_bytes_def to_le_bytes_def)

lemma to_be_bytes_u16: "to_be_bytes (w :: u16) = [ucast (drop_bit 8 w), ucast w]"
  by (simp add: to_be_bytes_def to_le_bytes_def upt_conv_Cons)

lemma from_be_bytes_u16_pair:
  "from_be_bytes [ucast (drop_bit 8 w), ucast w] = (w :: u16)"
  using from_be_to_be[of w] by (simp add: to_be_bytes_u16)

lemma from_be_bytes_u8_single [simp]: "from_be_bytes [w] = (w :: u8)"
  by (simp add: from_be_bytes_def)

section \<open>The contract of a fixed-width field\<close>

locale byte_codec =
  fixes enc :: "'a \<Rightarrow> bytes"
    and dec :: "bytes \<Rightarrow> 'a option"
    and width :: nat
  assumes enc_width: "length (enc x) = width"
    and dec_enc: "dec (enc x) = Some x"
    and dec_sound: "dec bs = Some x \<Longrightarrow> enc x = bs"
    and dec_total: "length bs = width \<Longrightarrow> dec bs \<noteq> None"
begin

lemma enc_inj: "enc x = enc y \<longleftrightarrow> x = y"
  by (metis dec_enc option.inject)

lemma dec_Some_iff: "dec bs = Some x \<longleftrightarrow> enc x = bs"
  using dec_enc dec_sound by blast

lemma dec_None_iff: "dec bs = None \<longleftrightarrow> length bs \<noteq> width"
  by (metis dec_sound dec_total enc_width not_Some_eq)

text \<open>A field written between a prefix and a suffix is read back at its offset.\<close>

lemma read_field:
  assumes "length pre = a" and "b = a + width"
  shows "slice_range a b (pre @ enc x @ post) \<bind> dec = Some x"
proof -
  have "slice_range a b (pre @ enc x @ post) = Some (enc x)"
    using assms by (intro slice_range_mid) (simp_all add: enc_width)
  then show ?thesis by (simp add: dec_enc)
qed

text \<open>Every slice of the right width is the encoding of one value.\<close>

lemma read_exists:
  assumes "b = a + width" and "b \<le> length bs"
  obtains x where "slice_range a b bs \<bind> dec = Some x"
    and "take width (drop a bs) = enc x"
proof -
  have len: "length (take width (drop a bs)) = width" using assms by simp
  then obtain x where x: "dec (take width (drop a bs)) = Some x"
    using dec_total by blast
  moreover have "slice_range a b bs = Some (take width (drop a bs))"
    using assms by (simp add: slice_range_def)
  ultimately show thesis using that dec_sound by fastforce
qed

lemma peel:
  assumes "width \<le> length bs"
  obtains x rest where "bs = enc x @ rest"
proof -
  obtain x where "dec (take width bs) = Some x" using assms dec_total[of "take width bs"] by auto
  then have "bs = enc x @ drop width bs" using dec_sound by fastforce
  then show thesis by (rule that)
qed

end

lemma be_codec:
  assumes "8 * n = LENGTH('a::len)"
  shows "byte_codec (to_be_bytes :: 'a word \<Rightarrow> bytes) from_be_slice n"
proof
  have dvd: "8 dvd LENGTH('a)" using assms by (metis dvd_triv_left)
  fix w :: "'a word" and bs :: bytes
  show "length (to_be_bytes w) = n" using assms by simp
  show "from_be_slice (to_be_bytes w) = Some w"
    using dvd by (simp add: from_be_slice_def from_be_to_be)
  show "from_be_slice bs = Some w \<Longrightarrow> to_be_bytes w = bs"
    by (auto simp: from_be_slice_def to_be_from_be split: if_splits)
  show "length bs = n \<Longrightarrow> from_be_slice bs \<noteq> (None :: 'a word option)"
    using assms by (simp add: from_be_slice_def)
qed

interpretation u8_be: byte_codec "to_be_bytes :: u8 \<Rightarrow> bytes" from_be_slice 1
  by (rule be_codec) simp

interpretation u16_be: byte_codec "to_be_bytes :: u16 \<Rightarrow> bytes" from_be_slice 2
  by (rule be_codec) simp

interpretation u32_be: byte_codec "to_be_bytes :: u32 \<Rightarrow> bytes" from_be_slice 4
  by (rule be_codec) simp

interpretation u64_be: byte_codec "to_be_bytes :: u64 \<Rightarrow> bytes" from_be_slice 8
  by (rule be_codec) simp

lemma to_be_bytes_u32:
  "to_be_bytes (w :: u32) = [ucast (drop_bit 24 w), ucast (drop_bit 16 w), ucast (drop_bit 8 w), ucast w]"
  by (simp add: to_be_bytes_def to_le_bytes_def upt_conv_Cons)

lemmas [eval_simps] =
  from_be_bytes_def from_be_slice_def to_be_bytes_u8 to_be_bytes_u16 to_be_bytes_u32

end
