(* ===== verification/Checksum.thy ===== *)
theory Checksum
  imports Bytes
begin

text \<open>
  The Internet checksum (\<open>internet_checksum\<close> of \<open>net/src/ipv4.rs\<close>), which guards the
  IPv4 header, the UDP datagram and the ICMP message: its loops as the code has them, a
  reference definition over the naturals (one's complement addition is addition modulo
  65535 with the two representations of zero), and the contract its three clients use.
\<close>

section \<open>The code\<close>

fun chunks2 :: "bytes \<Rightarrow> bytes list" where
  "chunks2 [] = []"
| "chunks2 [a] = [[a]]"
| "chunks2 (a # b # rest) = [a, b] # chunks2 rest"

definition chunk_word :: "bytes \<Rightarrow> u16" where
  "chunk_word chunk =
     (if length chunk = 2 then from_be_bytes [chunk ! 0, chunk ! 1]
      else from_be_bytes [chunk ! 0, 0])"

fun sum_chunks :: "u32 \<Rightarrow> bytes list \<Rightarrow> u32 option" where
  "sum_chunks acc [] = Some acc"
| "sum_chunks acc (chunk # chunks) =
     do { acc' \<leftarrow> add_chk acc (ucast (chunk_word chunk)); sum_chunks acc' chunks }"

fun sum_parts :: "u32 \<Rightarrow> bytes list \<Rightarrow> u32 option" where
  "sum_parts acc [] = Some acc"
| "sum_parts acc (part # parts) =
     do { acc' \<leftarrow> sum_chunks acc (chunks2 part); sum_parts acc' parts }"

lemma fold_step_unat:
  "unat ((s :: u32) AND 0xFFFF) + unat (drop_bit 16 s) = unat s mod 65536 + unat s div 65536"
proof -
  have "s AND 0xFFFF = take_bit 16 s"
    by (simp add: take_bit_eq_mask mask_eq_exp_minus_1)
  then have "unat (s AND 0xFFFF) = unat s mod 65536"
    by (simp add: unat_mod take_bit_eq_mod)
  moreover have "unat (drop_bit 16 s) = unat s div 65536"
    by (simp add: unat_drop_bit_eq drop_bit_eq_div[where 'a = nat])
  ultimately show ?thesis by simp
qed

lemma fold_guard_iff: "0 < drop_bit 16 (s :: u32) \<longleftrightarrow> 65536 \<le> unat s"
proof -
  have "unat (drop_bit 16 s) = unat s div 65536"
    by (simp add: unat_drop_bit_eq drop_bit_eq_div[where 'a = nat])
  then show ?thesis by (simp add: word_less_nat_alt div_greater_zero_iff)
qed

lemma fold_step_smaller:
  assumes "0 < drop_bit 16 (s :: u32)" and "add_chk (s AND 0xFFFF) (drop_bit 16 s) = Some s'"
  shows "unat s' < unat s"
proof -
  have "unat s' = unat s mod 65536 + unat s div 65536"
    using add_chk_unat[OF assms(2)] fold_step_unat[of s] by simp
  moreover have "65536 \<le> unat s" using assms(1) by (simp add: fold_guard_iff)
  ultimately show ?thesis using div_mult_mod_eq[of "unat s" 65536] by linarith
qed

lemma fold_step_exists:
  "\<exists>t. add_chk ((s :: u32) AND 0xFFFF) (drop_bit 16 s) = Some t
     \<and> unat t = unat s mod 65536 + unat s div 65536"
proof -
  have "unat s < 65536 * 65536" using unsigned_less[of s, where 'a = nat] by simp
  then have "unat s div 65536 < 65536" by (rule less_mult_imp_div_less)
  moreover have "unat s mod 65536 < 65536" by simp
  ultimately have "unat s mod 65536 + unat s div 65536 < 4294967296" by linarith
  then have sum: "unat (s AND 0xFFFF) + unat (drop_bit 16 s) < 2 ^ LENGTH(32)"
    unfolding fold_step_unat by simp
  have ok: "add_chk (s AND 0xFFFF) (drop_bit 16 s) = Some ((s AND 0xFFFF) + drop_bit 16 s)"
    by (rule add_chk_Some[OF sum])
  then show ?thesis using add_chk_unat[OF ok] unfolding fold_step_unat by blast
qed

function fold_carries :: "u32 \<Rightarrow> u32 option" where
  "fold_carries acc =
     (if 0 < drop_bit 16 acc
      then (case add_chk (acc AND 0xFFFF) (drop_bit 16 acc) of
              None \<Rightarrow> None
            | Some acc' \<Rightarrow> fold_carries acc')
      else Some acc)"
  by pat_completeness auto
termination
  by (relation "measure unat") (auto dest: fold_step_smaller)

declare fold_carries.simps [simp del]

definition internet_checksum :: "bytes list \<Rightarrow> u16 option" where
  "internet_checksum packet_parts =
     do { acc \<leftarrow> sum_parts 0 packet_parts;
          acc' \<leftarrow> fold_carries acc;
          Some (NOT (ucast acc')) }"

section \<open>The reference: addition modulo 65535\<close>

fun word_sum :: "bytes \<Rightarrow> nat" where
  "word_sum [] = 0"
| "word_sum [a] = 256 * unat a"
| "word_sum (a # b # rest) = 256 * unat a + unat b + word_sum rest"

definition parts_sum :: "bytes list \<Rightarrow> nat" where
  "parts_sum parts = sum_list (map word_sum parts)"

definition ones_fold :: "nat \<Rightarrow> nat" where
  "ones_fold s = (if s = 0 then 0 else (s - 1) mod 65535 + 1)"

definition checksum_ref :: "bytes list \<Rightarrow> u16" where
  "checksum_ref parts = of_nat (65535 - ones_fold (parts_sum parts))"

section \<open>The reference's arithmetic\<close>

lemma parts_sum_simps [simp]:
  "parts_sum [] = 0"
  "parts_sum (p # ps) = word_sum p + parts_sum ps"
  by (simp_all add: parts_sum_def)

lemma word_sum_append:
  "even (length xs) \<Longrightarrow> word_sum (xs @ ys) = word_sum xs + word_sum ys"
  by (induction xs rule: word_sum.induct) simp_all

lemma word_sum_bound: "word_sum p \<le> 65535 * ((length p + 1) div 2)"
proof (induction p rule: word_sum.induct)
  case (2 a)
  then show ?case using unat_byte_bound[of a] by simp
next
  case (3 a b rest)
  have "256 * unat a + unat b \<le> 65535"
    using unat_byte_bound[of a] unat_byte_bound[of b] by linarith
  with "3" show ?case by simp
qed simp

lemma word_sum_replicate_zero [simp]: "word_sum (replicate n 0) = 0"
proof (induction n rule: less_induct)
  case (less n)
  consider "n = 0" | "n = 1" | m where "n = Suc (Suc m)"
    by (metis One_nat_def old.nat.exhaust)
  then show ?case using less by cases simp_all
qed

lemma word_sum_to_be_bytes_u16 [simp]: "word_sum (to_be_bytes (w :: u16)) = unat w"
proof -
  obtain a b where ab: "to_be_bytes w = [a, b]" by (rule length_2E[OF u16_be.enc_width])
  have "be_value (to_be_bytes w) = unat w" by (rule be_value_to_be_bytes) simp
  with ab show ?thesis by (simp add: be_value_def)
qed

lemma ones_fold_le: "ones_fold s \<le> 65535"
  using mod_less_divisor[of 65535 "s - 1"] by (simp add: ones_fold_def less_Suc_eq_le del: mod_less_divisor)

lemma ones_fold_mod: "ones_fold s mod 65535 = s mod 65535"
proof (cases s)
  case (Suc n)
  then show ?thesis by (simp add: ones_fold_def mod_Suc_eq)
qed (simp add: ones_fold_def)

lemma ones_fold_65535_iff: "ones_fold s = 65535 \<longleftrightarrow> 0 < s \<and> 65535 dvd s"
proof (cases "s = 0")
  case False
  then have "0 < ones_fold s" by (simp add: ones_fold_def)
  then have "ones_fold s = 65535 \<longleftrightarrow> ones_fold s mod 65535 = 0"
    using ones_fold_le[of s] mod_less[of "ones_fold s" 65535] by fastforce
  then show ?thesis using False by (simp add: ones_fold_mod dvd_eq_mod_eq_0)
qed (simp add: ones_fold_def)

lemma ones_fold_small: "s < 65536 \<Longrightarrow> ones_fold s = s"
  by (auto simp: ones_fold_def)

lemma ones_fold_carry: "65536 \<le> s \<Longrightarrow> ones_fold (s mod 65536 + s div 65536) = ones_fold s"
proof -
  assume big: "65536 \<le> s"
  let ?t = "s mod 65536 + s div 65536"
  have s: "s = ?t + 65535 * (s div 65536)"
    using div_mult_mod_eq[of s 65536] by linarith
  have "0 < s div 65536" using big by (simp add: div_greater_zero_iff)
  then have t: "0 < ?t" by linarith
  have "(s - 1) mod 65535 = (?t - 1 + 65535 * (s div 65536)) mod 65535"
    using s t by (metis Nat.add_diff_assoc2 Suc_leI One_nat_def)
  also have "\<dots> = (?t - 1) mod 65535" by simp
  finally show ?thesis using t big by (simp add: ones_fold_def)
qed

section \<open>The loops compute the reference\<close>

lemma unat_chunk_word2: "unat (chunk_word [a, b]) = 256 * unat a + unat b"
  by (simp add: chunk_word_def unat_from_be_bytes be_value_def)

lemma unat_chunk_word1: "unat (chunk_word [a]) = 256 * unat a"
  by (simp add: chunk_word_def unat_from_be_bytes be_value_def)

lemmas unat_chunk_word = unat_chunk_word1 unat_chunk_word2

lemma add_chunk:
  assumes "unat s + n < 2 ^ 32" and "unat (chunk_word c) = n"
  shows "\<exists>s'. add_chk s (ucast (chunk_word c)) = Some s' \<and> unat (s' :: u32) = unat s + n"
proof -
  have "unat (ucast (chunk_word c) :: u32) = n"
    using assms(2) unsigned_less[of "chunk_word c", where 'a = nat]
    by (simp add: unsigned_ucast_eq take_bit_eq_mod)
  with assms(1) have "add_chk s (ucast (chunk_word c)) = Some (s + ucast (chunk_word c))"
    by (intro add_chk_Some) simp
  with \<open>unat (ucast (chunk_word c) :: u32) = n\<close> show ?thesis
    using add_chk_unat by metis
qed

lemma sum_chunks_word_sum:
  "unat s + word_sum p < 2 ^ 32 \<Longrightarrow>
     \<exists>s'. sum_chunks s (chunks2 p) = Some s' \<and> unat s' = unat s + word_sum p"
proof (induction p arbitrary: s rule: word_sum.induct)
  case (2 a)
  then show ?case using add_chunk[of s "256 * unat a" "[a]"] by (auto simp: unat_chunk_word)
next
  case (3 a b rest)
  let ?n = "256 * unat a + unat b"
  obtain t where t: "add_chk s (ucast (chunk_word [a, b])) = Some t" "unat t = unat s + ?n"
    using add_chunk[of s ?n "[a, b]"] "3.prems" by (auto simp: unat_chunk_word)
  with "3.IH"[of t] "3.prems" show ?case by auto
qed simp

lemma sum_parts_parts_sum:
  "unat s + parts_sum ps < 2 ^ 32 \<Longrightarrow>
     \<exists>s'. sum_parts s ps = Some s' \<and> unat s' = unat s + parts_sum ps"
proof (induction ps arbitrary: s)
  case (Cons p ps)
  obtain t where "sum_chunks s (chunks2 p) = Some t" "unat t = unat s + word_sum p"
    using sum_chunks_word_sum[of s p] Cons.prems by auto
  with Cons.IH[of t] Cons.prems show ?case by auto
qed simp

lemma fold_carries_ones_fold: "\<exists>t. fold_carries s = Some t \<and> unat t = ones_fold (unat s)"
proof (induction "unat s" arbitrary: s rule: less_induct)
  case less
  show ?case
  proof (cases "0 < drop_bit 16 s")
    case True
    then have big: "65536 \<le> unat s" by (simp add: fold_guard_iff)
    obtain t where t: "add_chk (s AND 0xFFFF) (drop_bit 16 s) = Some t"
      and ut: "unat t = unat s mod 65536 + unat s div 65536"
      using fold_step_exists[of s] by blast
    obtain r where "fold_carries t = Some r" "unat r = ones_fold (unat t)"
      using less fold_step_smaller[OF True t] by blast
    with True t ut big show ?thesis
      by (simp add: fold_carries.simps[of s] ones_fold_carry)
  next
    case False
    then have "unat s < 65536" by (simp add: fold_guard_iff)
    with False show ?thesis by (simp add: fold_carries.simps[of s] ones_fold_small)
  qed
qed

theorem internet_checksum_ref:
  assumes "parts_sum parts < 2 ^ 32"
  shows "internet_checksum parts = Some (checksum_ref parts)"
proof -
  obtain s where s: "sum_parts 0 parts = Some s" "unat s = parts_sum parts"
    using sum_parts_parts_sum[of 0 parts] assms by auto
  obtain t where t: "fold_carries s = Some t" "unat t = ones_fold (parts_sum parts)"
    using fold_carries_ones_fold[of s] s(2) by auto
  have small: "unat t < 65536" using t(2) ones_fold_le[of "parts_sum parts"] by simp
  have ut: "unat (ucast t :: u16) = unat t"
    using small by (simp add: unsigned_ucast_eq take_bit_eq_mod)
  have "NOT (ucast t :: u16) = of_nat (65535 - unat t)"
  proof -
    have "NOT (ucast t :: u16) = - 1 - ucast t" by (simp add: not_eq_complement)
    also have "\<dots> = of_nat 65535 - of_nat (unat t)"
      by simp
    finally show ?thesis using small by (simp add: of_nat_diff)
  qed
  with s t show ?thesis by (simp add: internet_checksum_def checksum_ref_def)
qed

section \<open>The contract its clients rely on\<close>

definition checksum_small :: "bytes list \<Rightarrow> bool" where
  "checksum_small parts \<longleftrightarrow> sum_list (map length parts) + length parts \<le> 131072"

lemma parts_sum_bound: "2 * parts_sum ps \<le> 65535 * (sum_list (map length ps) + length ps)"
proof (induction ps)
  case (Cons p ps)
  have "2 * word_sum p \<le> 65535 * (length p + 1)"
    using word_sum_bound[of p] by (simp add: mult.commute mult_le_mono2 order.trans[OF mult_le_mono1])
  with Cons.IH show ?case by simp
qed simp

lemma checksum_small_sum: "checksum_small ps \<Longrightarrow> parts_sum ps < 2 ^ 32"
  using parts_sum_bound[of ps] by (simp add: checksum_small_def)

lemma dvd_add_unique:
  assumes "m dvd a + x" and "m dvd a + y" and "x < m" and "y < (m :: nat)"
  shows "x = y"
proof -
  have "m dvd (a + x) - (a + y)" "m dvd (a + y) - (a + x)"
    using assms(1,2) by (simp_all only: dvd_diff_nat)
  then have "m dvd x - y" "m dvd y - x" by simp_all
  then have "x - y = 0" "y - x = 0"
    using assms(3,4) by (metis dvd_imp_le leD less_imp_diff_less not_gr_zero)+
  then show ?thesis by simp
qed

text \<open>
  What the IPv4, UDP and ICMP code relies on: on parts small enough for the 32-bit
  accumulator the checksum is the complement of the folded sum. Everything the clients
  need follows from that law alone.
\<close>

locale checksum_contract =
  fixes cksum :: "bytes list \<Rightarrow> u16 option"
    and small :: "bytes list \<Rightarrow> bool"
    and total :: "bytes list \<Rightarrow> nat"
  assumes complement: "small ps \<Longrightarrow> cksum ps = Some (of_nat (65535 - ones_fold (total ps)))"
begin

lemma no_panic: "small ps \<Longrightarrow> cksum ps \<noteq> None"
  by (simp add: complement)

lemma value_unat: "small ps \<Longrightarrow> cksum ps = Some c \<Longrightarrow> unat c = 65535 - ones_fold (total ps)"
  using complement[of ps] by (auto simp: unat_of_nat take_bit_eq_mod)

lemma zero_iff:
  assumes "small ps"
  shows "cksum ps = Some 0 \<longleftrightarrow> 0 < total ps \<and> 65535 dvd total ps"
proof -
  obtain c where c: "cksum ps = Some c" using no_panic[OF assms] by blast
  have "c = 0 \<longleftrightarrow> unat c = 0" by (simp add: unat_eq_zero)
  also have "\<dots> \<longleftrightarrow> ones_fold (total ps) = 65535"
    using value_unat[OF assms c] ones_fold_le[of "total ps"] by auto
  finally show ?thesis using c by (simp add: ones_fold_65535_iff)
qed

text \<open>
  A datagram that carries the checksum of the rest of itself verifies; and it still does
  when a computed zero is sent as all ones.
\<close>

lemma sealed_dvd:
  assumes "small ps" and "cksum ps = Some c"
  shows "0 < total ps + unat c" and "65535 dvd total ps + unat c"
proof -
  have c: "unat c = 65535 - ones_fold (total ps)" by (rule value_unat[OF assms])
  show "0 < total ps + unat c"
    using c by (cases "total ps = 0") (simp_all add: ones_fold_def)
  have "(total ps + unat c) mod 65535 = (ones_fold (total ps) + unat c) mod 65535"
    using ones_fold_mod[of "total ps"] by (metis mod_add_left_eq)
  also have "\<dots> = 0" using c ones_fold_le[of "total ps"] by simp
  finally show "65535 dvd total ps + unat c" by (simp add: dvd_eq_mod_eq_0)
qed

lemma sealed_verifies:
  assumes "small ps" and "cksum ps = Some c" and "small qs" and "total qs = total ps + unat c"
  shows "cksum qs = Some 0"
  using assms sealed_dvd[OF assms(1,2)] by (simp add: zero_iff)

lemma sealed_nonzero_verifies:
  assumes "small ps" and "cksum ps = Some c" and "small qs"
    and "total qs = total ps + unat (if c = 0 then 0xFFFF else c)"
  shows "cksum qs = Some 0"
proof (cases "c = 0")
  case True
  with sealed_dvd[OF assms(1,2)] have "65535 dvd total ps" by simp
  with True assms(3,4) show ?thesis by (simp add: zero_iff)
next
  case False
  with assms sealed_verifies[OF assms(1,2,3)] show ?thesis by simp
qed

text \<open>Conversely a verifying field holds the computed checksum, up to the second zero.\<close>

lemma verified_unique:
  assumes "small ps" and "small qs" and "cksum qs = Some 0"
    and "total qs = total ps + unat f" and "f \<noteq> 0xFFFF" and "0 < total ps"
  shows "cksum ps = Some f"
proof -
  obtain c where c: "cksum ps = Some c" using no_panic[OF assms(1)] by blast
  have uc: "unat c = 65535 - ones_fold (total ps)" by (rule value_unat[OF assms(1) c])
  have "0 < ones_fold (total ps)" using assms(6) by (simp add: ones_fold_def)
  then have cb: "unat c < 65535" using uc by simp
  have "unat f \<noteq> 65535" using assms(5) by (metis of_nat_numeral of_nat_unat ucast_id)
  then have fb: "unat f < 65535" using unsigned_less[of f, where 'a = nat] by simp
  have "65535 dvd total ps + unat f" using assms(2-4) by (simp add: zero_iff)
  moreover have "65535 dvd total ps + unat c" by (rule sealed_dvd[OF assms(1) c])
  ultimately have "unat f = unat c" using fb cb by (rule dvd_add_unique)
  with c show ?thesis by (simp add: word_unat_eq_iff)
qed

end

interpretation inet: checksum_contract internet_checksum checksum_small parts_sum
  by unfold_locales (auto simp: checksum_ref_def dest!: checksum_small_sum internet_checksum_ref)

lemmas [eval_simps] = internet_checksum_def chunk_word_def fold_carries.simps

end
