(* ===== verification/Addresses.thy ===== *)
theory Addresses
  imports Bytes "HOL-Library.Char_ord"
begin

text \<open>
  The two kinds of address of the stack: \<open>core::net::Ipv4Addr\<close> of the standard library
  (four octets, ordered as the 32-bit number they spell) and \<open>MacAddress\<close> of
  \<open>net/src/ethernet.rs\<close>. Both are fixed-width fields on the wire, so each interprets
  \<open>byte_codec\<close>.
\<close>

section \<open>IPv4 addresses\<close>

datatype ipv4_addr = Ipv4Addr u8 u8 u8 u8

fun octets :: "ipv4_addr \<Rightarrow> bytes" where
  "octets (Ipv4Addr a b c d) = [a, b, c, d]"

fun addr_from_slice :: "bytes \<Rightarrow> ipv4_addr option" where
  "addr_from_slice [a, b, c, d] = Some (Ipv4Addr a b c d)"
| "addr_from_slice _ = None"

definition u32_of_addr :: "ipv4_addr \<Rightarrow> u32" where
  "u32_of_addr ip = from_be_bytes (octets ip)"

definition addr_of_u32 :: "u32 \<Rightarrow> ipv4_addr" where
  "addr_of_u32 w =
     Ipv4Addr (to_be_bytes w ! 0) (to_be_bytes w ! 1) (to_be_bytes w ! 2) (to_be_bytes w ! 3)"

definition addr_unspecified :: ipv4_addr where
  "addr_unspecified = Ipv4Addr 0 0 0 0"

definition addr_broadcast :: ipv4_addr where
  "addr_broadcast = Ipv4Addr 255 255 255 255"

definition is_unspecified :: "ipv4_addr \<Rightarrow> bool" where
  "is_unspecified ip \<longleftrightarrow> ip = addr_unspecified"

section \<open>Hardware addresses\<close>

datatype mac_address = MacAddress u8 u8 u8 u8 u8 u8

fun mac_addr :: "mac_address \<Rightarrow> bytes" where
  "mac_addr (MacAddress a b c d e f) = [a, b, c, d, e, f]"

text \<open>\<open>MacAddress::new(slice.try_into().expect("invalid length"))\<close>.\<close>

fun mac_from_slice :: "bytes \<Rightarrow> mac_address option" where
  "mac_from_slice [a, b, c, d, e, f] = Some (MacAddress a b c d e f)"
| "mac_from_slice _ = None"

definition mac_broadcast :: mac_address where
  "mac_broadcast = MacAddress 255 255 255 255 255 255"

text \<open>\<open>Display\<close>: the octets as two lower-case hexadecimal digits each, separated by colons.\<close>

definition hex_digit :: "nat \<Rightarrow> char" where
  "hex_digit n = char_of (if n < 10 then 48 + n else 87 + n)"

definition hex02 :: "u8 \<Rightarrow> string" where
  "hex02 b = [hex_digit (unat b div 16), hex_digit (unat b mod 16)]"

fun mac_display :: "mac_address \<Rightarrow> string" where
  "mac_display (MacAddress a b c d e f) =
     hex02 a @ '':'' @ hex02 b @ '':'' @ hex02 c @ '':'' @ hex02 d @ '':'' @ hex02 e @ '':''
       @ hex02 f"

section \<open>Reading a field of a buffer\<close>

text \<open>
  \<open>u8::from_be_slice(&buf[a..b])\<close> and its relatives, the way every parser of the stack
  reads a header: a bounds check, then the width check of the conversion.
\<close>

definition read_u8 :: "nat \<Rightarrow> nat \<Rightarrow> bytes \<Rightarrow> u8 option" where
  "read_u8 a b bs = slice_range a b bs \<bind> from_be_slice"

definition read_u16 :: "nat \<Rightarrow> nat \<Rightarrow> bytes \<Rightarrow> u16 option" where
  "read_u16 a b bs = slice_range a b bs \<bind> from_be_slice"

definition read_u32 :: "nat \<Rightarrow> nat \<Rightarrow> bytes \<Rightarrow> u32 option" where
  "read_u32 a b bs = slice_range a b bs \<bind> from_be_slice"

definition read_addr :: "nat \<Rightarrow> nat \<Rightarrow> bytes \<Rightarrow> ipv4_addr option" where
  "read_addr a b bs = slice_range a b bs \<bind> addr_from_slice"

definition read_mac :: "nat \<Rightarrow> nat \<Rightarrow> bytes \<Rightarrow> mac_address option" where
  "read_mac a b bs = slice_range a b bs \<bind> mac_from_slice"

lemmas read_defs = read_u8_def read_u16_def read_u32_def read_addr_def read_mac_def

text \<open>Reads in bounds, as the bytes they return.\<close>

lemma take_drop_1: "a < length bs \<Longrightarrow> take 1 (drop a bs) = [bs ! a]"
  by (simp add: take_Suc_conv_app_nth)

lemma take_drop_2: "a + 2 \<le> length bs \<Longrightarrow> take 2 (drop a bs) = [bs ! a, bs ! (a + 1)]"
  by (simp add: numeral_2_eq_2 take_Suc_conv_app_nth)

lemma take_drop_4:
  "a + 4 \<le> length bs \<Longrightarrow> take 4 (drop a bs) = [bs ! a, bs ! (a + 1), bs ! (a + 2), bs ! (a + 3)]"
  by (simp add: numeral_eq_Suc take_Suc_conv_app_nth)

lemma read_u8_nth: "a < length bs \<Longrightarrow> b = a + 1 \<Longrightarrow> read_u8 a b bs = Some (bs ! a)"
  using take_drop_1[of a bs] by (simp add: read_u8_def slice_range_def from_be_slice_def)

lemma read_u16_nth:
  "a + 2 \<le> length bs \<Longrightarrow> b = a + 2 \<Longrightarrow> read_u16 a b bs = Some (from_be_bytes [bs ! a, bs ! (a + 1)])"
  by (simp add: read_u16_def slice_range_def from_be_slice_def take_drop_2 del: drop_eq_Nil)

lemma read_addr_nth:
  "a + 4 \<le> length bs \<Longrightarrow> b = a + 4 \<Longrightarrow>
     read_addr a b bs = Some (Ipv4Addr (bs ! a) (bs ! (a + 1)) (bs ! (a + 2)) (bs ! (a + 3)))"
  by (simp add: read_addr_def slice_range_def take_drop_4 del: drop_eq_Nil)

section \<open>Widths and codecs\<close>

lemma length_octets [simp, wire_simps]: "length (octets ip) = 4"
  by (cases ip) simp

lemma length_mac_addr [simp, wire_simps]: "length (mac_addr m) = 6"
  by (cases m) simp

lemma addr_from_slice_iff: "addr_from_slice bs = Some ip \<longleftrightarrow> octets ip = bs"
  by (cases ip; cases bs rule: addr_from_slice.cases) auto

lemma mac_from_slice_iff: "mac_from_slice bs = Some m \<longleftrightarrow> mac_addr m = bs"
  by (cases m; cases bs rule: mac_from_slice.cases) auto

interpretation ip_codec: byte_codec octets addr_from_slice 4
proof
  fix bs :: bytes and ip
  assume "length bs = 4"
  then obtain a b c d where "bs = [a, b, c, d]" by (rule length_4E)
  then show "addr_from_slice bs \<noteq> None" by simp
qed (simp_all add: addr_from_slice_iff)

interpretation mac_codec: byte_codec mac_addr mac_from_slice 6
proof
  fix bs :: bytes
  assume "length bs = 6"
  then obtain a b c d e f where "bs = [a, b, c, d, e, f]" by (rule length_6E)
  then show "mac_from_slice bs \<noteq> None" by simp
qed (simp_all add: mac_from_slice_iff)

lemma octets_addr_of_u32: "octets (addr_of_u32 w) = to_be_bytes w"
proof -
  obtain a b c d where "to_be_bytes w = [a, b, c, d]"
    by (rule length_4E[OF u32_be.enc_width])
  then show ?thesis by (simp add: addr_of_u32_def)
qed

lemma u32_of_addr_of_u32 [simp]: "u32_of_addr (addr_of_u32 w) = w"
  by (simp add: u32_of_addr_def octets_addr_of_u32 from_be_to_be)

lemma addr_of_u32_of_addr [simp]: "addr_of_u32 (u32_of_addr ip) = ip"
proof -
  have "octets (addr_of_u32 (u32_of_addr ip)) = octets ip"
    by (simp add: octets_addr_of_u32 u32_of_addr_def to_be_from_be)
  then show ?thesis by (simp add: ip_codec.enc_inj)
qed

lemma u32_of_addr_inj: "u32_of_addr a = u32_of_addr b \<longleftrightarrow> a = b"
  by (metis addr_of_u32_of_addr)

text \<open>\<open>Ipv4Addr\<close> is \<open>Ord\<close> octet by octet, which is the order of the 32-bit numbers.\<close>

instantiation ipv4_addr :: linorder
begin

definition less_eq_ipv4_addr :: "ipv4_addr \<Rightarrow> ipv4_addr \<Rightarrow> bool" where
  "less_eq_ipv4_addr a b \<longleftrightarrow> u32_of_addr a \<le> u32_of_addr b"

definition less_ipv4_addr :: "ipv4_addr \<Rightarrow> ipv4_addr \<Rightarrow> bool" where
  "less_ipv4_addr a b \<longleftrightarrow> u32_of_addr a < u32_of_addr b"

instance
  by standard
    (auto simp: less_eq_ipv4_addr_def less_ipv4_addr_def u32_of_addr_inj not_le dest: order.antisym)

end

section \<open>Display\<close>

lemma of_char_hex_digit: "n < 16 \<Longrightarrow> of_char (hex_digit n) = (if n < 10 then 48 + n else 87 + n :: nat)"
  by (simp add: hex_digit_def of_char_of take_bit_eq_mod)

lemma hex_digit_inj:
  assumes "m < 16" and "n < 16"
  shows "hex_digit m = hex_digit n \<longleftrightarrow> m = n"
proof
  assume "hex_digit m = hex_digit n"
  then have "of_char (hex_digit m) = (of_char (hex_digit n) :: nat)" by simp
  then show "m = n" using assms by (simp add: of_char_hex_digit split: if_splits)
qed simp

lemma hex02_inj: "hex02 a = hex02 b \<longleftrightarrow> a = b"
proof -
  have "unat a div 16 < 16" "unat b div 16 < 16"
    using unat_byte_bound[of a] unat_byte_bound[of b] by auto
  then have "hex02 a = hex02 b \<longleftrightarrow> unat a div 16 = unat b div 16 \<and> unat a mod 16 = unat b mod 16"
    by (simp add: hex02_def hex_digit_inj)
  also have "\<dots> \<longleftrightarrow> unat a = unat b" by (metis div_mult_mod_eq)
  finally show ?thesis by (simp add: word_unat_eq_iff)
qed

lemma hex02_append_inj: "hex02 a @ xs = hex02 b @ ys \<longleftrightarrow> a = b \<and> xs = ys"
proof -
  have "length (hex02 a) = length (hex02 b)" by (simp add: hex02_def)
  then show ?thesis by (simp add: hex02_inj)
qed

lemma mac_display_inj: "mac_display m = mac_display n \<longleftrightarrow> m = n"
  by (cases m; cases n) (simp add: hex02_append_inj hex02_inj)

lemmas [eval_simps] = read_defs addr_unspecified_def addr_broadcast_def is_unspecified_def

end
