(* ===== verification/Ipv4.thy ===== *)
theory Ipv4
  imports Checksum Addresses
begin

text \<open>
  IPv4 packets (\<open>net/src/ipv4.rs\<close>): the protocol numbers, the parser
  \<open>Ipv4Packet::from_packet\<close> with its seven rejections in the order the code makes them,
  the constructor \<open>Ipv4Packet::new\<close> and \<open>Ipv4Packet::serialize\<close>.
\<close>

section \<open>The code\<close>

datatype ip_protocol = ICMP | TCP | UDP | UnknownProto u8

definition protocol_of_u8 :: "u8 \<Rightarrow> ip_protocol" where
  "protocol_of_u8 value =
     (if value = 1 then ICMP else if value = 6 then TCP else if value = 17 then UDP
      else UnknownProto value)"

fun u8_of_protocol :: "ip_protocol \<Rightarrow> u8" where
  "u8_of_protocol ICMP = 1"
| "u8_of_protocol TCP = 6"
| "u8_of_protocol UDP = 17"
| "u8_of_protocol (UnknownProto proto) = proto"

datatype ipv4_error =
    VersionMismatch
  | LengthOutOfRange
  | IHLMismatch
  | HeaderLengthMismatch
  | TotalLengthMismatch
  | EvilBitSet
  | IncorrectChecksum

record ipv4_packet =
  version_ihl :: u8
  dscp_ecn :: u8
  total_length :: u16
  ip_id :: u16
  frag_offset :: u16
  dont_fragment :: bool
  more_fragments :: bool
  ttl :: u8
  protocol :: ip_protocol
  ip_checksum :: u16
  ip_source :: ipv4_addr
  ip_dest :: ipv4_addr
  ip_options :: bytes
  ip_data :: bytes

definition ipv4_new ::
  "bytes \<Rightarrow> ipv4_addr \<Rightarrow> ipv4_addr \<Rightarrow> u16 \<Rightarrow> ip_protocol \<Rightarrow> ipv4_error + ipv4_packet" where
  "ipv4_new data source dest pid proto =
     (case try_from_usize (length data + 20) of
        None \<Rightarrow> Inl ipv4_error.LengthOutOfRange
      | Some total_len \<Rightarrow>
          Inr \<lparr> version_ihl = 0x45, dscp_ecn = 0, total_length = total_len, ip_id = pid,
                frag_offset = 0, dont_fragment = False, more_fragments = False, ttl = 64,
                protocol = proto, ip_checksum = 0, ip_source = source, ip_dest = dest,
                ip_options = [], ip_data = data \<rparr>)"

definition ipv4_from_packet :: "bytes \<Rightarrow> (ipv4_error + ipv4_packet) option" where
  "ipv4_from_packet packet0 =
     (if length packet0 < 20 then Some (Inl ipv4_error.LengthOutOfRange) else do {
        vihl \<leftarrow> read_u8 0 1 packet0;
        let version = drop_bit 4 vihl AND 0xf;
        if version \<noteq> 4 then Some (Inl VersionMismatch) else do {
        let ihl = vihl AND 0xf;
        if ihl < 5 then Some (Inl IHLMismatch) else do {
        ihl4 \<leftarrow> mul_chk ihl 4;
        let header_len = unat ihl4;
        if header_len > length packet0 then Some (Inl HeaderLengthMismatch) else do {
        dscp \<leftarrow> read_u8 1 2 packet0;
        total16 \<leftarrow> read_u16 2 4 packet0;
        let total = unat total16;
        if total > length packet0 \<or> total < header_len then Some (Inl TotalLengthMismatch)
        else do {
        packet \<leftarrow> slice_range 0 total packet0;
        pid \<leftarrow> read_u16 4 6 packet;
        flags_frag_offset \<leftarrow> read_u16 6 8 packet;
        let frag = flags_frag_offset AND 0x1fff;
        let flags = drop_bit 13 flags_frag_offset;
        let evil_bit = (flags AND 0b100 \<noteq> 0);
        let df = (flags AND 0b010 \<noteq> 0);
        let mf = (flags AND 0b001 \<noteq> 0);
        if evil_bit then Some (Inl EvilBitSet) else do {
        ttl8 \<leftarrow> read_u8 8 9 packet;
        proto8 \<leftarrow> read_u8 9 10 packet;
        let proto = protocol_of_u8 proto8;
        cksum \<leftarrow> read_u16 10 12 packet;
        header \<leftarrow> slice_range 0 header_len packet;
        computed \<leftarrow> internet_checksum [header];
        if computed \<noteq> 0 then Some (Inl ipv4_error.IncorrectChecksum) else do {
        src \<leftarrow> read_addr 12 16 packet;
        dst \<leftarrow> read_addr 16 20 packet;
        options \<leftarrow> slice_range 20 header_len packet;
        data \<leftarrow> slice_from header_len packet;
        Some (Inr \<lparr> version_ihl = vihl, dscp_ecn = dscp, total_length = of_nat total,
                    ip_id = pid, frag_offset = frag, dont_fragment = df, more_fragments = mf,
                    ttl = ttl8, protocol = proto, ip_checksum = cksum, ip_source = src,
                    ip_dest = dst, ip_options = options, ip_data = data \<rparr>)
        }}}}}}})"

definition ipv4_serialize :: "ipv4_packet \<Rightarrow> bytes option" where
  "ipv4_serialize p = do {
     flags \<leftarrow> add_chk (if dont_fragment p then 0b010 else 0)
                     (if more_fragments p then 0b001 else 0);
     flags_frag_offset \<leftarrow> add_chk (frag_offset p AND 0x1fff) (push_bit 13 flags);
     let result = [version_ihl p] @ [dscp_ecn p] @ to_be_bytes (total_length p)
       @ to_be_bytes (ip_id p) @ to_be_bytes flags_frag_offset @ to_be_bytes (ttl p)
       @ [u8_of_protocol (protocol p)] @ replicate 2 0 @ octets (ip_source p)
       @ octets (ip_dest p) @ ip_options p @ ip_data p;
     header \<leftarrow> slice_range 0 (20 + length (ip_options p)) result;
     checksum \<leftarrow> internet_checksum [header];
     copy_range 10 12 (to_be_bytes checksum) result }"

section \<open>Protocol numbers\<close>

lemma u8_of_protocol_of_u8 [simp]: "u8_of_protocol (protocol_of_u8 v) = v"
  by (simp add: protocol_of_u8_def)

definition protocol_canonical :: "ip_protocol \<Rightarrow> bool" where
  "protocol_canonical p \<longleftrightarrow> protocol_of_u8 (u8_of_protocol p) = p"

section \<open>Flags and fragment offset\<close>

text \<open>The flags word: bit 15 is zero, bit 14 don't fragment, bit 13 more fragments.\<close>

definition flags_word :: "bool \<Rightarrow> bool \<Rightarrow> u16 \<Rightarrow> u16" where
  "flags_word df mf off = of_bool df * 0x4000 + of_bool mf * 0x2000 + (off AND 0x1fff)"

lemma and_1fff: "(w :: u16) AND 0x1fff = take_bit 13 w"
  by (simp add: take_bit_eq_mask mask_eq_exp_minus_1)

lemma unat_and_1fff: "unat ((w :: u16) AND 0x1fff) = unat w mod 8192"
  by (simp add: and_1fff take_bit_eq_mod unat_mod)

lemma serialize_flags:
  "do { flags \<leftarrow> add_chk (if df then 0b010 else 0) (if mf then 0b001 else 0);
        add_chk (off AND 0x1fff) (push_bit 13 flags) } = Some (flags_word df mf off)"
proof -
  have b: "unat (off AND 0x1fff) < 8192" by (simp add: unat_and_1fff)
  show ?thesis
    using b by (cases df; cases mf) (simp_all add: add_chk_def flags_word_def push_bit_eq_mult)
qed

text \<open>Reading the flags back out of the word that was written, and the converse.\<close>

lemma unat_flags_word:
  "unat (flags_word df mf off) = (of_bool df * 2 + of_bool mf) * 8192 + unat off mod 8192"
proof -
  have b: "unat off mod 8192 < 8192" by simp
  show ?thesis
    using b by (cases df; cases mf)
      (simp_all add: flags_word_def unat_and_1fff unat_word_ariths del: mod_less_divisor)
qed

lemma flags_word_offset [simp]: "flags_word df mf off AND 0x1fff = off AND 0x1fff"
  by (rule unat_eqI)
    (simp only: unat_and_1fff unat_flags_word mod_mult_self3 mod_mod_trivial)

lemma flags_word_flags: "drop_bit 13 (flags_word df mf off) = of_bool df * 2 + of_bool mf"
proof (rule unat_eqI)
  have "unat (drop_bit 13 (flags_word df mf off)) = unat (flags_word df mf off) div 8192"
    by (simp add: unat_drop_bit_eq drop_bit_eq_div[where 'a = nat])
  also have "\<dots> = of_bool df * 2 + of_bool mf"
    by (cases df; cases mf) (simp_all add: unat_flags_word)
  finally show "unat (drop_bit 13 (flags_word df mf off))
    = unat (of_bool df * 2 + of_bool mf :: u16)"
    by (cases df; cases mf) simp_all
qed

lemma flags_word_read [simp]:
  "drop_bit 13 (flags_word df mf off) AND 4 = 0"
  "drop_bit 13 (flags_word df mf off) AND 2 = 0 \<longleftrightarrow> \<not> df"
  "drop_bit 13 (flags_word df mf off) AND 1 = 0 \<longleftrightarrow> \<not> mf"
  unfolding flags_word_flags by (cases df; cases mf; simp)+

lemma flags_word_rebuild:
  assumes "drop_bit 13 ff AND 4 = (0 :: u16)"
  shows "flags_word (drop_bit 13 ff AND 2 \<noteq> 0) (drop_bit 13 ff AND 1 \<noteq> 0) (ff AND 0x1fff) = ff"
proof -
  let ?f = "drop_bit 13 ff"
  have uf: "unat ?f = unat ff div 8192"
    by (simp add: unat_drop_bit_eq drop_bit_eq_div[where 'a = nat])
  have "unat ff < 8192 * 8" using unsigned_less[of ff, where 'a = nat] by simp
  then have "unat ?f < 8" unfolding uf by (simp add: less_mult_imp_div_less mult.commute)
  then obtain n where n: "?f = of_nat n" and "n < 8" by (metis of_nat_unat_self)
  from \<open>n < 8\<close> consider "n = 0" | "n = 1" | "n = 2" | "n = 3" | "n = 4" | "n = 5" | "n = 6"
    | "n = 7" by linarith
  then have "?f = 0 \<or> ?f = 1 \<or> ?f = 2 \<or> ?f = 3"
    using assms unfolding n by cases simp_all
  then have "of_bool (?f AND 2 \<noteq> 0) * 2 + of_bool (?f AND 1 \<noteq> 0) = unat ?f"
    by auto
  then have "unat (flags_word (?f AND 2 \<noteq> 0) (?f AND 1 \<noteq> 0) (ff AND 0x1fff))
      = unat ff div 8192 * 8192 + unat ff mod 8192"
    unfolding unat_flags_word uf unat_and_1fff by simp
  also have "\<dots> = unat ff" by (rule div_mult_mod_eq)
  finally show ?thesis by (rule unat_eqI)
qed

section \<open>The layout of a packet\<close>

text \<open>
  The bytes of a packet with a given checksum field, and what makes the fields of a packet
  agree with each other. \<open>ipv4_from_packet\<close> accepts exactly the byte strings that begin with
  the layout of a well-formed packet whose header verifies.
\<close>

definition ipv4_head :: "ipv4_packet \<Rightarrow> bytes" where
  "ipv4_head p =
     [version_ihl p, dscp_ecn p] @ to_be_bytes (total_length p) @ to_be_bytes (ip_id p)
       @ to_be_bytes (flags_word (dont_fragment p) (more_fragments p) (frag_offset p))
       @ [ttl p, u8_of_protocol (protocol p)]"

definition ipv4_tail :: "ipv4_packet \<Rightarrow> bytes" where
  "ipv4_tail p = octets (ip_source p) @ octets (ip_dest p) @ ip_options p"

definition ipv4_header :: "ipv4_packet \<Rightarrow> u16 \<Rightarrow> bytes" where
  "ipv4_header p c = ipv4_head p @ to_be_bytes c @ ipv4_tail p"

definition ipv4_wf :: "ipv4_packet \<Rightarrow> bool" where
  "ipv4_wf p \<longleftrightarrow>
     unat (version_ihl p) = 64 + (20 + length (ip_options p)) div 4
     \<and> 4 dvd length (ip_options p) \<and> length (ip_options p) \<le> 40
     \<and> unat (total_length p) = 20 + length (ip_options p) + length (ip_data p)
     \<and> unat (frag_offset p) < 8192 \<and> protocol_canonical (protocol p)"

lemma length_ipv4_parts [simp, wire_simps]:
  "length (ipv4_head p) = 10"
  "length (ipv4_tail p) = 8 + length (ip_options p)"
  "length (ipv4_header p c) = 20 + length (ip_options p)"
  by (simp_all add: ipv4_header_def ipv4_head_def ipv4_tail_def)

lemma word_sum_ipv4_header: "word_sum (ipv4_header p c) = word_sum (ipv4_header p 0) + unat c"
  by (simp add: ipv4_header_def word_sum_append)

lemma ipv4_header_pos: "0 < unat (version_ihl p) \<Longrightarrow> 0 < word_sum (ipv4_header p 0)"
  by (simp add: ipv4_header_def ipv4_head_def)

lemma ipv4_header_reads:
  "read_u8 0 1 (ipv4_header p c @ r) = Some (version_ihl p)"
  "read_u8 1 2 (ipv4_header p c @ r) = Some (dscp_ecn p)"
  "read_u16 2 4 (ipv4_header p c @ r) = Some (total_length p)"
  "read_u16 4 6 (ipv4_header p c @ r) = Some (ip_id p)"
  "read_u16 6 8 (ipv4_header p c @ r)
     = Some (flags_word (dont_fragment p) (more_fragments p) (frag_offset p))"
  "read_u8 8 9 (ipv4_header p c @ r) = Some (ttl p)"
  "read_u8 9 10 (ipv4_header p c @ r) = Some (u8_of_protocol (protocol p))"
  "read_u16 10 12 (ipv4_header p c @ r) = Some c"
  by (simp_all add: read_defs ipv4_header_def ipv4_head_def slice_range_def to_be_bytes_u16
      from_be_slice_def from_be_bytes_u16_pair)

lemma ipv4_header_addrs:
  "read_addr 12 16 (ipv4_header p c @ r) = Some (ip_source p)"
  "read_addr 16 20 (ipv4_header p c @ r) = Some (ip_dest p)"
proof -
  have l: "length (ipv4_head p @ to_be_bytes c) = 12"
    "length (ipv4_head p @ to_be_bytes c @ octets (ip_source p)) = 16"
    by simp_all
  show "read_addr 12 16 (ipv4_header p c @ r) = Some (ip_source p)"
    using ip_codec.read_field[OF l(1), of 16 "ip_source p" "octets (ip_dest p) @ ip_options p @ r"]
    unfolding read_addr_def ipv4_header_def ipv4_tail_def append_assoc by simp
  show "read_addr 16 20 (ipv4_header p c @ r) = Some (ip_dest p)"
    using ip_codec.read_field[OF l(2), of 20 "ip_dest p" "ip_options p @ r"]
    unfolding read_addr_def ipv4_header_def ipv4_tail_def append_assoc by simp
qed

lemma ipv4_header_options:
  "slice_range 20 (20 + length (ip_options p)) (ipv4_header p c @ r) = Some (ip_options p)"
proof -
  have l: "length (ipv4_head p @ to_be_bytes c @ octets (ip_source p) @ octets (ip_dest p)) = 20"
    by simp
  show ?thesis
    using slice_range_mid[OF l, of "ip_options p" "20 + length (ip_options p)" r]
    unfolding ipv4_header_def ipv4_tail_def append_assoc by simp
qed

lemma version_ihl_parts:
  "unat (drop_bit 4 (v :: u8) AND 0xf) = unat v div 16" "unat (v AND 0xf) = unat v mod 16"
proof -
  have m: "(w :: u8) AND 0xf = take_bit 4 w" for w
    by (simp add: take_bit_eq_mask mask_eq_exp_minus_1)
  have "unat (drop_bit 4 v) = unat v div 16"
    by (simp add: unat_drop_bit_eq drop_bit_eq_div[where 'a = nat])
  moreover have "unat v div 16 < 16" using unat_byte_bound[of v] by auto
  ultimately show "unat (drop_bit 4 v AND 0xf) = unat v div 16"
    unfolding m by (simp add: take_bit_eq_mod unat_mod)
  show "unat (v AND 0xf) = unat v mod 16"
    unfolding m by (simp add: take_bit_eq_mod unat_mod)
qed

section \<open>Serialization\<close>

lemma checksum_small_header: "length h \<le> 60 \<Longrightarrow> checksum_small [h]"
  by (simp add: checksum_small_def)

lemma ipv4_serialize_layout:
  assumes "internet_checksum [ipv4_header p 0] = Some c"
  shows "ipv4_serialize p = Some (ipv4_header p c @ ip_data p)"
proof -
  obtain fl where fl: "add_chk (if dont_fragment p then 0b010 else 0)
      (if more_fragments p then 0b001 else 0) = Some fl"
    and ff: "add_chk (frag_offset p AND 0x1fff) (push_bit 13 fl)
      = Some (flags_word (dont_fragment p) (more_fragments p) (frag_offset p))"
    using serialize_flags[of "dont_fragment p" "more_fragments p" "frag_offset p"]
    by (auto simp: bind_eq_Some_conv)
  have result: "[version_ihl p] @ [dscp_ecn p] @ to_be_bytes (total_length p)
       @ to_be_bytes (ip_id p)
       @ to_be_bytes (flags_word (dont_fragment p) (more_fragments p) (frag_offset p))
       @ to_be_bytes (ttl p) @ [u8_of_protocol (protocol p)] @ replicate 2 0
       @ octets (ip_source p) @ octets (ip_dest p) @ ip_options p @ ip_data p
     = ipv4_header p 0 @ ip_data p"
    by (simp add: ipv4_header_def ipv4_head_def ipv4_tail_def to_be_bytes_u8 to_be_bytes_u16
        numeral_2_eq_2)
  have header: "slice_range 0 (20 + length (ip_options p)) (ipv4_header p 0 @ ip_data p)
      = Some (ipv4_header p 0)"
    by (simp add: slice_range_def)
  have fill: "copy_range 10 12 (to_be_bytes c) (ipv4_header p 0 @ ip_data p)
      = Some (ipv4_header p c @ ip_data p)"
    by (simp add: copy_range_def ipv4_header_def)
  show ?thesis
    unfolding ipv4_serialize_def fl Option.bind_lunit ff Let_def result header assms fill ..
qed

section \<open>Parsing\<close>

lemma unat_be_pair: "unat (from_be_bytes [a, b] :: u16) = be_value [a, b]"
  by (simp add: unat_from_be_bytes)

text \<open>
  The packet the parser builds from a buffer whose header and total length are \<open>hl\<close> and
  \<open>tlen\<close>.
\<close>

definition ipv4_view :: "nat \<Rightarrow> nat \<Rightarrow> bytes \<Rightarrow> ipv4_packet" where
  "ipv4_view hl tlen bs =
     (let ff = from_be_bytes [bs ! 6, bs ! 7] :: u16 in
      \<lparr> version_ihl = bs ! 0, dscp_ecn = bs ! 1, total_length = from_be_bytes [bs ! 2, bs ! 3],
        ip_id = from_be_bytes [bs ! 4, bs ! 5], frag_offset = ff AND 0x1fff,
        dont_fragment = drop_bit 13 ff AND 2 \<noteq> 0, more_fragments = drop_bit 13 ff AND 1 \<noteq> 0,
        ttl = bs ! 8, protocol = protocol_of_u8 (bs ! 9),
        ip_checksum = from_be_bytes [bs ! 10, bs ! 11],
        ip_source = Ipv4Addr (bs ! 12) (bs ! 13) (bs ! 14) (bs ! 15),
        ip_dest = Ipv4Addr (bs ! 16) (bs ! 17) (bs ! 18) (bs ! 19),
        ip_options = take (hl - 20) (drop 20 bs), ip_data = take (tlen - hl) (drop hl bs) \<rparr>)"

definition ipv4_parse_ref :: "bytes \<Rightarrow> ipv4_error + ipv4_packet" where
  "ipv4_parse_ref bs =
     (let hl = 4 * (unat (bs ! 0) mod 16); tlen = be_value [bs ! 2, bs ! 3];
          ff = from_be_bytes [bs ! 6, bs ! 7] :: u16
      in if length bs < 20 then Inl ipv4_error.LengthOutOfRange
         else if unat (bs ! 0) div 16 \<noteq> 4 then Inl VersionMismatch
         else if unat (bs ! 0) mod 16 < 5 then Inl IHLMismatch
         else if length bs < hl then Inl HeaderLengthMismatch
         else if length bs < tlen \<or> tlen < hl then Inl TotalLengthMismatch
         else if drop_bit 13 ff AND 4 \<noteq> 0 then Inl EvilBitSet
         else if checksum_ref [take hl bs] \<noteq> 0 then Inl ipv4_error.IncorrectChecksum
         else Inr (ipv4_view hl tlen bs))"

text \<open>The tail of the parser, once the lengths are known to be consistent.\<close>

lemma ipv4_parse_tail:
  assumes "20 \<le> hl" and "hl \<le> 60" and "hl \<le> tlen" and "tlen \<le> length bs"
    and tlen: "tlen = be_value [bs ! 2, bs ! 3]"
  defines "packet \<equiv> take tlen bs" and "ff \<equiv> from_be_bytes [bs ! 6, bs ! 7] :: u16"
  shows "slice_range 0 tlen bs = Some packet"
    and "read_u16 4 6 packet = Some (from_be_bytes [bs ! 4, bs ! 5])"
    and "read_u16 6 8 packet = Some ff"
    and "read_u8 8 9 packet = Some (bs ! 8)"
    and "read_u8 9 10 packet = Some (bs ! 9)"
    and "read_u16 10 12 packet = Some (from_be_bytes [bs ! 10, bs ! 11])"
    and "slice_range 0 hl packet = Some (take hl bs)"
    and "internet_checksum [take hl bs] = Some (checksum_ref [take hl bs])"
    and "read_addr 12 16 packet = Some (Ipv4Addr (bs ! 12) (bs ! 13) (bs ! 14) (bs ! 15))"
    and "read_addr 16 20 packet = Some (Ipv4Addr (bs ! 16) (bs ! 17) (bs ! 18) (bs ! 19))"
    and "slice_range 20 hl packet = Some (take (hl - 20) (drop 20 bs))"
    and "slice_from hl packet = Some (take (tlen - hl) (drop hl bs))"
    and "(of_nat tlen :: u16) = from_be_bytes [bs ! 2, bs ! 3]"
proof -
  have len: "20 \<le> length packet" and nth: "i < 20 \<Longrightarrow> packet ! i = bs ! i" for i
    using assms by simp_all
  show "slice_range 0 tlen bs = Some packet"
    using assms by (simp add: slice_range_def)
  show "read_u16 4 6 packet = Some (from_be_bytes [bs ! 4, bs ! 5])"
    using len nth by (simp add: read_u16_nth)
  show "read_u16 6 8 packet = Some ff"
    using len nth by (simp add: read_u16_nth ff_def)
  show "read_u8 8 9 packet = Some (bs ! 8)" "read_u8 9 10 packet = Some (bs ! 9)"
    using len nth by (simp_all add: read_u8_nth)
  show "read_u16 10 12 packet = Some (from_be_bytes [bs ! 10, bs ! 11])"
    using len nth by (simp add: read_u16_nth)
  show "slice_range 0 hl packet = Some (take hl bs)"
    using assms by (simp add: slice_range_def min_def)
  have "checksum_small [take hl bs]" using assms by (intro checksum_small_header) simp
  then show "internet_checksum [take hl bs] = Some (checksum_ref [take hl bs])"
    by (intro internet_checksum_ref checksum_small_sum)
  show "read_addr 12 16 packet = Some (Ipv4Addr (bs ! 12) (bs ! 13) (bs ! 14) (bs ! 15))"
    "read_addr 16 20 packet = Some (Ipv4Addr (bs ! 16) (bs ! 17) (bs ! 18) (bs ! 19))"
    using len nth by (simp_all add: read_addr_nth)
  show "slice_range 20 hl packet = Some (take (hl - 20) (drop 20 bs))"
    "slice_from hl packet = Some (take (tlen - hl) (drop hl bs))"
    using assms by (simp_all add: slice_range_def slice_from_def drop_take min_def)
  show "(of_nat tlen :: u16) = from_be_bytes [bs ! 2, bs ! 3]"
    by (simp add: tlen from_be_bytes_of_nat)
qed

lemma ipv4_parse_head:
  assumes "20 \<le> length bs"
  shows "read_u8 0 1 bs = Some (bs ! 0)"
    and "read_u8 1 2 bs = Some (bs ! 1)"
    and "read_u16 2 4 bs = Some (from_be_bytes [bs ! 2, bs ! 3])"
    and "drop_bit 4 (bs ! 0) AND 0xf = 4 \<longleftrightarrow> unat (bs ! 0) div 16 = 4"
    and "(bs ! 0) AND 0xf < 5 \<longleftrightarrow> unat (bs ! 0) mod 16 < 5"
    and "\<exists>h. mul_chk ((bs ! 0) AND 0xf) 4 = Some h \<and> unat h = 4 * (unat (bs ! 0) mod 16)"
proof -
  have "0 < length bs" using assms by linarith
  from read_u8_nth[OF this, of 1] show "read_u8 0 1 bs = Some (bs ! 0)" by simp
  show "read_u8 1 2 bs = Some (bs ! 1)" "read_u16 2 4 bs = Some (from_be_bytes [bs ! 2, bs ! 3])"
    using assms by (simp_all add: read_u8_nth read_u16_nth)
  show "drop_bit 4 (bs ! 0) AND 0xf = 4 \<longleftrightarrow> unat (bs ! 0) div 16 = 4"
    using version_ihl_parts(1)[of "bs ! 0"] by (simp add: word_unat_eq_iff)
  show "(bs ! 0) AND 0xf < 5 \<longleftrightarrow> unat (bs ! 0) mod 16 < 5"
    using version_ihl_parts(2)[of "bs ! 0"] by (simp add: word_less_nat_alt)
  have "unat (bs ! 0) mod 16 < 16" by simp
  then have small: "unat ((bs ! 0) AND 0xf) * unat (4 :: u8) < 2 ^ LENGTH(8)"
    using version_ihl_parts(2)[of "bs ! 0"] by simp
  then have "unat (((bs ! 0) AND 0xf) * 4) = 4 * (unat (bs ! 0) mod 16)"
    using version_ihl_parts(2)[of "bs ! 0"] by (simp add: unat_word_ariths)
  then show "\<exists>h. mul_chk ((bs ! 0) AND 0xf) 4 = Some h \<and> unat h = 4 * (unat (bs ! 0) mod 16)"
    using mul_chk_Some[OF small] by blast
qed

lemma ipv4_from_packet_ref: "ipv4_from_packet bs = Some (ipv4_parse_ref bs)"
proof (cases "length bs < 20")
  case True
  then show ?thesis by (simp add: ipv4_from_packet_def ipv4_parse_ref_def)
next
  case False
  define ihl where "ihl = unat (bs ! 0) mod 16"
  define tlen where "tlen = be_value [bs ! 2, bs ! 3]"
  from False have "20 \<le> length bs" by simp
  note head = ipv4_parse_head[OF this, unfolded One_nat_def]
  obtain h where h: "mul_chk ((bs ! 0) AND 0xf) 4 = Some h" "unat h = 4 * ihl"
    using head(6) unfolding ihl_def by blast
  have ih: "ihl < 16" by (simp add: ihl_def)
  show ?thesis
  proof (cases "unat (bs ! 0) div 16 = 4 \<and> \<not> ihl < 5 \<and> 4 * ihl \<le> length bs
      \<and> tlen \<le> length bs \<and> 4 * ihl \<le> tlen")
    case True
    then have "20 \<le> 4 * ihl" "4 * ihl \<le> 60" "4 * ihl \<le> tlen" "tlen \<le> length bs"
      using ih by simp_all
    note tail = ipv4_parse_tail[OF this tlen_def]
    show ?thesis
      using True False ih
      unfolding ipv4_from_packet_def ipv4_parse_ref_def ipv4_view_def
      by (simp add: head h tail unat_be_pair Let_def flip: ihl_def tlen_def)
  next
    case bad: False
    show ?thesis
      using bad False
      unfolding ipv4_from_packet_def ipv4_parse_ref_def
      by (auto simp: head h unat_be_pair Let_def simp flip: ihl_def tlen_def)
  qed
qed

section \<open>What an accepted buffer is\<close>

lemma take_20:
  assumes "20 \<le> length bs"
  shows "take 20 bs = [bs ! 0, bs ! 1, bs ! 2, bs ! 3, bs ! 4, bs ! 5, bs ! 6, bs ! 7, bs ! 8,
    bs ! 9, bs ! 10, bs ! 11, bs ! 12, bs ! 13, bs ! 14, bs ! 15, bs ! 16, bs ! 17, bs ! 18,
    bs ! 19]"
proof -
  have "take (Suc 0) bs = [bs ! 0]" using assms by (subst take_Suc_conv_app_nth) auto
  then show ?thesis using assms by (simp add: numeral_eq_Suc take_Suc_conv_app_nth)
qed

lemma ipv4_header_view:
  assumes "20 \<le> length bs" and "20 \<le> hl" and "hl \<le> length bs"
    and "drop_bit 13 (from_be_bytes [bs ! 6, bs ! 7] :: u16) AND 4 = 0"
  shows "ipv4_header (ipv4_view hl tlen bs) (from_be_bytes [bs ! 10, bs ! 11]) = take hl bs"
proof -
  have pair: "to_be_bytes (from_be_bytes [x, y] :: u16) = [x, y]" for x y
    by (simp add: to_be_from_be)
  have "take hl bs = take 20 bs @ take (hl - 20) (drop 20 bs)"
    using assms(2) by (metis le_add_diff_inverse take_add)
  then show ?thesis
    using flags_word_rebuild[OF assms(4)]
    by (simp add: take_20[OF assms(1)] ipv4_header_def ipv4_head_def ipv4_tail_def ipv4_view_def
        Let_def pair)
qed

lemma ipv4_parse_sound:
  assumes "ipv4_parse_ref bs = Inr p"
  shows "ipv4_wf p"
    and "bs = ipv4_header p (ip_checksum p) @ ip_data p @ drop (unat (total_length p)) bs"
    and "internet_checksum [ipv4_header p (ip_checksum p)] = Some 0"
proof -
  define ihl where "ihl = unat (bs ! 0) mod 16"
  define tlen where "tlen = be_value [bs ! 2, bs ! 3]"
  have len: "20 \<le> length bs" "unat (bs ! 0) div 16 = 4" "5 \<le> ihl" "4 * ihl \<le> length bs"
      "4 * ihl \<le> tlen" "tlen \<le> length bs"
    and evil: "drop_bit 13 (from_be_bytes [bs ! 6, bs ! 7] :: u16) AND 4 = 0"
    and ck: "checksum_ref [take (4 * ihl) bs] = 0"
    and p: "p = ipv4_view (4 * ihl) tlen bs"
    using assms unfolding ipv4_parse_ref_def ihl_def tlen_def
    by (auto simp: Let_def split: if_splits)
  have hl: "20 \<le> 4 * ihl" "4 * ihl \<le> 60" using len by (simp_all add: ihl_def)
  have header: "ipv4_header p (ip_checksum p) = take (4 * ihl) bs"
    using ipv4_header_view[OF len(1) hl(1) len(4) evil] by (simp add: p ipv4_view_def Let_def)
  have fields: "unat (total_length p) = tlen" "ip_data p = take (tlen - 4 * ihl) (drop (4 * ihl) bs)"
    "length (ip_options p) = 4 * ihl - 20"
    using len by (simp_all add: p ipv4_view_def Let_def unat_be_pair tlen_def)
  have "unat (bs ! 0) = 64 + ihl"
    using len(2) div_mult_mod_eq[of "unat (bs ! 0)" 16] by (simp add: ihl_def)
  moreover have "protocol_canonical (protocol p)"
    by (simp add: p ipv4_view_def Let_def protocol_canonical_def)
  moreover have "unat (frag_offset p) < 8192"
    by (simp add: p ipv4_view_def Let_def unat_and_1fff)
  moreover have "4 dvd 4 * ihl - 20" using dvd_diff_nat[of 4 "4 * ihl" 20] by simp
  ultimately show "ipv4_wf p"
    using fields len hl by (simp add: ipv4_wf_def p ipv4_view_def Let_def)
  have "bs = take (4 * ihl) bs @ take (tlen - 4 * ihl) (drop (4 * ihl) bs) @ drop tlen bs"
    using len(5) by (metis append_assoc append_take_drop_id le_add_diff_inverse take_add)
  then show "bs = ipv4_header p (ip_checksum p) @ ip_data p @ drop (unat (total_length p)) bs"
    by (simp add: header fields)
  show "internet_checksum [ipv4_header p (ip_checksum p)] = Some 0"
    using ipv4_parse_tail(8)[OF hl len(5,6) tlen_def] ck by (simp add: header)
qed

lemma ipv4_view_header:
  assumes "unat (frag_offset p) < 8192" and "protocol_canonical (protocol p)"
  shows "ipv4_view (20 + length (ip_options p)) (20 + length (ip_options p) + length (ip_data p))
    (ipv4_header p c @ ip_data p @ pad) = p\<lparr>ip_checksum := c\<rparr>"
proof -
  have off: "frag_offset p AND 0x1fff = frag_offset p"
    using assms(1) by (intro unat_eqI) (simp add: unat_and_1fff)
  obtain s1 s2 s3 s4 where s: "ip_source p = Ipv4Addr s1 s2 s3 s4" by (cases "ip_source p")
  obtain d1 d2 d3 d4 where d: "ip_dest p = Ipv4Addr d1 d2 d3 d4" by (cases "ip_dest p")
  let ?bs = "ipv4_header p c @ ip_data p @ pad"
  let ?hl = "20 + length (ip_options p)"
  have data: "take (?hl + length (ip_data p) - ?hl) (drop ?hl ?bs) = ip_data p" by simp
  have opts: "take (?hl - 20) (drop 20 ?bs) = ip_options p"
    by (simp add: ipv4_header_def ipv4_tail_def)
  have hdr: "?bs ! 0 = version_ihl p" "?bs ! 1 = dscp_ecn p"
    "from_be_bytes [?bs ! 2, ?bs ! 3] = total_length p"
    "from_be_bytes [?bs ! 4, ?bs ! 5] = ip_id p"
    "from_be_bytes [?bs ! 6, ?bs ! 7]
      = flags_word (dont_fragment p) (more_fragments p) (frag_offset p)"
    "?bs ! 8 = ttl p" "?bs ! 9 = u8_of_protocol (protocol p)"
    "from_be_bytes [?bs ! 10, ?bs ! 11] = c"
    by (simp_all add: ipv4_header_def ipv4_head_def to_be_bytes_u16 from_be_bytes_u16_pair)
  have addrs: "Ipv4Addr (?bs ! 12) (?bs ! 13) (?bs ! 14) (?bs ! 15) = ip_source p"
    "Ipv4Addr (?bs ! 16) (?bs ! 17) (?bs ! 18) (?bs ! 19) = ip_dest p"
    by (simp_all add: ipv4_header_def ipv4_head_def ipv4_tail_def to_be_bytes_u16 s d)
  show ?thesis
    unfolding ipv4_view_def Let_def data opts hdr addrs
    using assms(2) by (simp add: off protocol_canonical_def)
qed

lemma ipv4_parse_complete:
  assumes wf: "ipv4_wf p" and ck: "internet_checksum [ipv4_header p c] = Some 0"
  shows "ipv4_parse_ref (ipv4_header p c @ ip_data p @ pad) = Inr (p\<lparr>ip_checksum := c\<rparr>)"
proof -
  let ?bs = "ipv4_header p c @ ip_data p @ pad"
  let ?hl = "20 + length (ip_options p)"
  have small: "checksum_small [ipv4_header p c]"
    using wf by (intro checksum_small_header) (simp add: ipv4_wf_def)
  have b0: "?bs ! 0 = version_ihl p" and b23: "[?bs ! 2, ?bs ! 3] = to_be_bytes (total_length p)"
    and b67: "[?bs ! 6, ?bs ! 7]
      = to_be_bytes (flags_word (dont_fragment p) (more_fragments p) (frag_offset p))"
    by (simp_all add: ipv4_header_def ipv4_head_def to_be_bytes_u16)
  have q: "(20 + length (ip_options p)) div 4 * 4 = ?hl"
    using wf by (simp add: ipv4_wf_def dvd_add)
  have "length (ip_options p) \<le> 40" using wf by (simp add: ipv4_wf_def)
  then have q16: "(20 + length (ip_options p)) div 4 < 16" by simp
  have "(64 + n) div 16 = 4 \<and> (64 + n) mod 16 = n" if "n < 16" for n :: nat
    using that by presburger
  from this[OF q16] have v: "unat (?bs ! 0) div 16 = 4"
    "unat (?bs ! 0) mod 16 = (20 + length (ip_options p)) div 4"
    using wf unfolding b0 ipv4_wf_def by simp_all
  have t: "be_value [?bs ! 2, ?bs ! 3] = ?hl + length (ip_data p)"
    unfolding b23 using wf by (simp add: be_value_to_be_bytes ipv4_wf_def)
  have f: "from_be_bytes [?bs ! 6, ?bs ! 7]
      = flags_word (dont_fragment p) (more_fragments p) (frag_offset p)"
    unfolding b67 by (simp add: from_be_to_be)
  have h: "4 * (unat (?bs ! 0) mod 16) = ?hl" unfolding v(2) using q by simp
  have c0: "checksum_ref [take ?hl ?bs] = 0"
    using ck internet_checksum_ref[OF checksum_small_sum[OF small]] by simp
  have view: "ipv4_view ?hl (?hl + length (ip_data p)) ?bs = p\<lparr>ip_checksum := c\<rparr>"
    using wf ipv4_view_header[of p c pad] by (simp add: ipv4_wf_def add.assoc)
  show ?thesis
    unfolding ipv4_parse_ref_def Let_def h t f view c0 v(1) unfolding v(2)
    by (simp add: div_less_iff_less_mult not_less)
qed

lemmas [eval_simps] =
  ipv4_from_packet_def ipv4_serialize_def ipv4_new_def protocol_of_u8_def Let_def

section \<open>Properties\<close>

text \<open>The packet the unit tests of the parser start from.\<close>

definition get_valid_packet :: bytes where
  "get_valid_packet =
     [0x45, 0x00, 0x00, 0x18,
      0x12, 0x34, 0x40, 0x00,
      0x40, 0x11, 0x5c, 0xf7,
      0xc0, 0xa8, 0x01, 0x01,
      0x0a, 0x00, 0x00, 0x01,
      0xde, 0xad, 0xbe, 0xef]"

definition valid_packet_parsed :: ipv4_packet where
  "valid_packet_parsed =
     \<lparr> version_ihl = 0x45, dscp_ecn = 0, total_length = 24, ip_id = 0x1234, frag_offset = 0,
       dont_fragment = True, more_fragments = False, ttl = 64, protocol = UDP,
       ip_checksum = 0x5cf7, ip_source = Ipv4Addr 192 168 1 1, ip_dest = Ipv4Addr 10 0 0 1,
       ip_options = [], ip_data = [0xde, 0xad, 0xbe, 0xef] \<rparr>"

lemma get_valid_packet_parses:
  "ipv4_from_packet get_valid_packet = Some (Inr valid_packet_parsed)"
  by (simp add: get_valid_packet_def valid_packet_parsed_def eval_simps)

text \<open>C14: the parser never panics, whatever the buffer, and it returns what the reference
  decision returns: the seven rejections in the order of the code, and otherwise the
  fields at their offsets.\<close>

theorem ipv4_from_packet_total: "ipv4_from_packet bs = Some (ipv4_parse_ref bs)"
  by (rule ipv4_from_packet_ref)

text \<open>C13: parsing accepts exactly the buffers that begin with the bytes of a well-formed
  packet whose header checksum verifies.\<close>

theorem ipv4_from_packet_accepts_iff:
  "(\<exists>p. ipv4_from_packet bs = Some (Inr p)) \<longleftrightarrow>
     (\<exists>p pad. ipv4_wf p \<and> internet_checksum [ipv4_header p (ip_checksum p)] = Some 0
        \<and> bs = ipv4_header p (ip_checksum p) @ ip_data p @ pad)"
proof
  assume "\<exists>p. ipv4_from_packet bs = Some (Inr p)"
  then obtain p where "ipv4_parse_ref bs = Inr p" by (auto simp: ipv4_from_packet_ref)
  then show "\<exists>p pad. ipv4_wf p \<and> internet_checksum [ipv4_header p (ip_checksum p)] = Some 0
        \<and> bs = ipv4_header p (ip_checksum p) @ ip_data p @ pad"
    using ipv4_parse_sound by metis
next
  assume "\<exists>p pad. ipv4_wf p \<and> internet_checksum [ipv4_header p (ip_checksum p)] = Some 0
        \<and> bs = ipv4_header p (ip_checksum p) @ ip_data p @ pad"
  then show "\<exists>p. ipv4_from_packet bs = Some (Inr p)"
    using ipv4_parse_complete by (auto simp: ipv4_from_packet_ref)
qed

text \<open>The facts about a serialized packet that the layers above rest on.\<close>

lemma ipv4_serialize_wf:
  assumes "ipv4_wf p"
  obtains c where "ipv4_serialize p = Some (ipv4_header p c @ ip_data p)"
    and "internet_checksum [ipv4_header p 0] = Some c"
    and "\<forall>pad. ipv4_from_packet (ipv4_header p c @ ip_data p @ pad)
      = Some (Inr (p\<lparr>ip_checksum := c\<rparr>))"
proof -
  have small: "checksum_small [ipv4_header p x]" for x
    using assms by (intro checksum_small_header) (simp add: ipv4_wf_def)
  obtain c where c: "internet_checksum [ipv4_header p 0] = Some c"
    using inet.no_panic[OF small] by blast
  have "internet_checksum [ipv4_header p c] = Some 0"
    using inet.sealed_verifies[OF small c small[of c]] by (simp add: word_sum_ipv4_header[of p c])
  then have "ipv4_from_packet (ipv4_header p c @ ip_data p @ pad)
      = Some (Inr (p\<lparr>ip_checksum := c\<rparr>))" for pad
    using ipv4_parse_complete[OF assms] by (simp add: ipv4_from_packet_ref)
  with c show thesis using that ipv4_serialize_layout by blast
qed

lemma ipv4_parse_serialize:
  assumes "ipv4_from_packet bs = Some (Inr p)" and "ip_checksum p \<noteq> 0xFFFF"
  shows "ipv4_serialize p = Some (take (unat (total_length p)) bs)"
proof -
  have "ipv4_parse_ref bs = Inr p" using assms(1) by (simp add: ipv4_from_packet_ref)
  note sound = ipv4_parse_sound[OF this]
  have small: "checksum_small [ipv4_header p x]" for x
    using sound(1) by (intro checksum_small_header) (simp add: ipv4_wf_def)
  have pos: "0 < parts_sum [ipv4_header p 0]"
    using sound(1) ipv4_header_pos[of p] by (simp add: ipv4_wf_def)
  have "internet_checksum [ipv4_header p 0] = Some (ip_checksum p)"
    using inet.verified_unique[OF small small sound(3) _ assms(2) pos]
    by (simp add: word_sum_ipv4_header[of p "ip_checksum p"])
  then have "ipv4_serialize p = Some (ipv4_header p (ip_checksum p) @ ip_data p)"
    by (rule ipv4_serialize_layout)
  moreover have "take (unat (total_length p)) bs = ipv4_header p (ip_checksum p) @ ip_data p"
    using sound(1) by (subst sound(2)) (simp add: ipv4_wf_def)
  ultimately show ?thesis by simp
qed

text \<open>C15: a well-formed packet survives the wire: serializing it never panics, and parsing
  the bytes, with any padding behind them, gives the packet back with its checksum filled
  in.\<close>

theorem ipv4_serialize_roundtrip:
  assumes "ipv4_wf p"
  shows "\<exists>bs c. ipv4_serialize p = Some bs
     \<and> ipv4_from_packet (bs @ pad) = Some (Inr (p\<lparr>ip_checksum := c\<rparr>))"
  by (rule ipv4_serialize_wf[OF assms]) auto

theorem ipv4_serialize_roundtrip_witness:
  "\<exists>bs c. ipv4_serialize valid_packet_parsed = Some bs
     \<and> ipv4_from_packet (bs @ [0, 0]) = Some (Inr (valid_packet_parsed\<lparr>ip_checksum := c\<rparr>))"
proof -
  have "ipv4_wf valid_packet_parsed"
    by (simp add: ipv4_wf_def valid_packet_parsed_def protocol_canonical_def protocol_of_u8_def)
  then show ?thesis by (rule ipv4_serialize_roundtrip)
qed

text \<open>What was parsed serializes to the very bytes it came from, the padding behind the
  total length dropped. The one exception is a checksum field of all ones, the second
  representation of zero, which the serializer never writes.\<close>

theorem ipv4_parse_serialize_roundtrip:
  assumes "ipv4_from_packet bs = Some (Inr p)" and "ip_checksum p \<noteq> 0xFFFF"
  shows "ipv4_serialize p = Some (take (unat (total_length p)) bs)"
  using assms by (rule ipv4_parse_serialize)

theorem ipv4_parse_serialize_roundtrip_witness:
  "ipv4_serialize valid_packet_parsed = Some (take 24 get_valid_packet)"
  using ipv4_parse_serialize_roundtrip[OF get_valid_packet_parses]
  by (simp add: valid_packet_parsed_def)

lemma ipv4_new_fields:
  assumes "ipv4_new data src dst pid proto = Inr p"
  shows "ip_source p = src" "ip_dest p = dst" "protocol p = proto" "ip_data p = data"
    "ip_options p = []" "ip_id p = pid" "frag_offset p = 0" "\<not> more_fragments p"
    "unat (total_length p) = length data + 20"
  using assms try_from_usize_unat[of "length data + 20", where 'a = 16]
  by (auto simp: ipv4_new_def split: option.splits)

lemma ipv4_new_ok:
  assumes "length data \<le> 65515"
  obtains p where "ipv4_new data src dst pid proto = Inr p"
  using assms that by (simp add: ipv4_new_def try_from_usize_def)

lemma ipv4_new_rejects_iff:
  "ipv4_new data src dst pid proto = Inl ipv4_error.LengthOutOfRange \<longleftrightarrow> 65515 < length data"
  by (auto simp: ipv4_new_def try_from_usize_def)

lemma ipv4_new_wf:
  assumes "ipv4_new data src dst pid proto = Inr p" and "protocol_canonical proto"
  shows "ipv4_wf p"
proof -
  have "version_ihl p = 0x45"
    using assms(1) by (auto simp: ipv4_new_def split: option.splits)
  with ipv4_new_fields[OF assms(1)] assms(2) show ?thesis by (simp add: ipv4_wf_def)
qed

end
