(* ===== verification/Udp.thy ===== *)
theory Udp
  imports Ipv4
begin

text \<open>
  UDP datagrams (\<open>net/src/udp.rs\<close>): the constructor, the parser over an IPv4 packet and the
  serializer, both with the checksum over the IPv4 pseudo header.
\<close>

section \<open>The code\<close>

definition MAX_UDP_PAYLOAD :: nat where
  "MAX_UDP_PAYLOAD = 65527"

datatype udp_error = LengthOutOfRange | LengthMismatch | IncorrectChecksum

record udp_packet =
  source_port :: u16
  dest_port :: u16
  datagram_length :: u16
  udp_checksum :: u16
  udp_data :: bytes

definition udp_new :: "u16 \<Rightarrow> u16 \<Rightarrow> bytes \<Rightarrow> udp_error + udp_packet" where
  "udp_new sport dport data =
     (case try_from_usize (length data + 8) of
        None \<Rightarrow> Inl udp_error.LengthOutOfRange
      | Some len \<Rightarrow>
          Inr \<lparr> source_port = sport, dest_port = dport, datagram_length = len,
                udp_checksum = 0, udp_data = data \<rparr>)"

definition udp_len :: "udp_packet \<Rightarrow> nat" where
  "udp_len p = length (udp_data p)"

definition udp_from_packet :: "ipv4_packet \<Rightarrow> (udp_error + udp_packet) option" where
  "udp_from_packet ip =
     (if total_length ip < 28 \<or> length (ip_data ip) < 8 \<or> length (ip_data ip) > 65535
      then Some (Inl udp_error.LengthOutOfRange) else do {
        sport \<leftarrow> read_u16 0 2 (ip_data ip);
        dport \<leftarrow> read_u16 2 4 (ip_data ip);
        datagram_len \<leftarrow> read_u16 4 6 (ip_data ip);
        if datagram_len \<noteq> of_nat (length (ip_data ip)) then Some (Inl LengthMismatch) else do {
        checksum \<leftarrow> read_u16 6 8 (ip_data ip);
        computed \<leftarrow> internet_checksum
          [octets (ip_source ip), octets (ip_dest ip), [0x0, 0x11], to_be_bytes datagram_len,
           ip_data ip];
        if computed \<noteq> 0 \<and> checksum \<noteq> 0 then Some (Inl udp_error.IncorrectChecksum) else do {
        data \<leftarrow> slice_from 8 (ip_data ip);
        Some (Inr \<lparr> source_port = sport, dest_port = dport, datagram_length = datagram_len,
                    udp_checksum = checksum, udp_data = data \<rparr>) }}})"

definition udp_serialize_ipv4 ::
  "udp_packet \<Rightarrow> ipv4_addr \<Rightarrow> ipv4_addr \<Rightarrow> (udp_error + bytes) option" where
  "udp_serialize_ipv4 p source_addr dest_addr =
     try_result (ok_or udp_error.LengthOutOfRange (try_from_usize (length (udp_data p))))
       (\<lambda>len :: u16.
          if len > of_nat MAX_UDP_PAYLOAD then Some (Inl udp_error.LengthOutOfRange) else do {
            total_datagram_len \<leftarrow> add_chk 8 len;
            let header = to_be_bytes (source_port p) @ to_be_bytes (dest_port p)
              @ to_be_bytes total_datagram_len;
            computed \<leftarrow> internet_checksum
              [octets source_addr, octets dest_addr, [0x0, 0x11], to_be_bytes total_datagram_len,
               header, udp_data p];
            let checksum = (if computed = 0x0000 then 0xFFFF else computed);
            Some (Inr (header @ to_be_bytes checksum @ udp_data p)) })"

section \<open>The layout of a datagram\<close>

definition udp_header :: "u16 \<Rightarrow> u16 \<Rightarrow> u16 \<Rightarrow> u16 \<Rightarrow> bytes" where
  "udp_header sport dport len c =
     to_be_bytes sport @ to_be_bytes dport @ to_be_bytes len @ to_be_bytes c"

definition pseudo_parts :: "ipv4_addr \<Rightarrow> ipv4_addr \<Rightarrow> u16 \<Rightarrow> bytes list" where
  "pseudo_parts src dst len = [octets src, octets dst, [0x0, 0x11], to_be_bytes len]"

lemma length_udp_header [simp, wire_simps]: "length (udp_header sport dport len c) = 8"
  by (simp add: udp_header_def)

lemma length_pseudo_parts: "length (pseudo_parts src dst len) = 4"
  "sum_list (map length (pseudo_parts src dst len)) = 12"
  by (simp_all add: pseudo_parts_def)

lemma parts_sum_append [simp]: "parts_sum (ps @ qs) = parts_sum ps + parts_sum qs"
  by (simp add: parts_sum_def)

lemma checksum_small_udp:
  "length ds \<le> 65535 \<Longrightarrow> checksum_small (pseudo_parts src dst len @ [ds])"
  "length hs \<le> 6 \<Longrightarrow> length ds \<le> 65527 \<Longrightarrow> checksum_small (pseudo_parts src dst len @ [hs, ds])"
  by (simp_all add: checksum_small_def length_pseudo_parts)

lemma udp_header_reads:
  "read_u16 0 2 (udp_header sport dport len c @ data) = Some sport"
  "read_u16 2 4 (udp_header sport dport len c @ data) = Some dport"
  "read_u16 4 6 (udp_header sport dport len c @ data) = Some len"
  "read_u16 6 8 (udp_header sport dport len c @ data) = Some c"
  by (simp_all add: read_defs udp_header_def slice_range_def to_be_bytes_u16 from_be_slice_def
      from_be_bytes_u16_pair)

lemma udp_header_split:
  assumes "8 \<le> length bs"
  shows "bs = udp_header (from_be_bytes [bs ! 0, bs ! 1]) (from_be_bytes [bs ! 2, bs ! 3])
    (from_be_bytes [bs ! 4, bs ! 5]) (from_be_bytes [bs ! 6, bs ! 7]) @ drop 8 bs"
proof -
  have pair: "to_be_bytes (from_be_bytes [x, y] :: u16) = [x, y]" for x y
    by (simp add: to_be_from_be)
  have "take 8 bs = [bs ! 0, bs ! 1, bs ! 2, bs ! 3, bs ! 4, bs ! 5, bs ! 6, bs ! 7]"
  proof -
    have "take (Suc 0) bs = [bs ! 0]" using assms by (subst take_Suc_conv_app_nth) auto
    then show ?thesis using assms by (simp add: numeral_eq_Suc take_Suc_conv_app_nth)
  qed
  then show ?thesis by (metis (no_types) append_Cons append_Nil append_assoc append_take_drop_id
      pair udp_header_def)
qed

lemma word_sum_udp:
  "word_sum (udp_header sport dport len c @ data) =
     word_sum (to_be_bytes sport @ to_be_bytes dport @ to_be_bytes len) + word_sum data + unat c"
  by (simp add: udp_header_def word_sum_append)

section \<open>The parser's decision\<close>

text \<open>On a datagram of at least eight bytes the parser is this decision on its fields.\<close>

definition udp_parse_ref :: "ipv4_packet \<Rightarrow> udp_error + udp_packet" where
  "udp_parse_ref ip =
     (let bs = ip_data ip; len = be_value [bs ! 4, bs ! 5];
          c = from_be_bytes [bs ! 6, bs ! 7] :: u16
      in if unat (total_length ip) < 28 \<or> length bs < 8 \<or> 65535 < length bs
           then Inl udp_error.LengthOutOfRange
         else if len \<noteq> length bs then Inl LengthMismatch
         else if c \<noteq> 0 \<and>
             checksum_ref (pseudo_parts (ip_source ip) (ip_dest ip) (of_nat (length bs)) @ [bs]) \<noteq> 0
           then Inl udp_error.IncorrectChecksum
         else Inr \<lparr> source_port = from_be_bytes [bs ! 0, bs ! 1],
                    dest_port = from_be_bytes [bs ! 2, bs ! 3],
                    datagram_length = of_nat (length bs), udp_checksum = c,
                    udp_data = drop 8 bs \<rparr>)"

lemma udp_from_packet_ref: "udp_from_packet ip = Some (udp_parse_ref ip)"
proof (cases "unat (total_length ip) < 28 \<or> length (ip_data ip) < 8 \<or> 65535 < length (ip_data ip)")
  case True
  then show ?thesis
    by (auto simp: udp_from_packet_def udp_parse_ref_def Let_def word_less_nat_alt)
next
  case False
  let ?bs = "ip_data ip"
  from False have len: "8 \<le> length ?bs" "length ?bs \<le> 65535" and tl: "\<not> total_length ip < 28"
    by (auto simp: word_less_nat_alt)
  have reads: "read_u16 0 2 ?bs = Some (from_be_bytes [?bs ! 0, ?bs ! 1])"
    "read_u16 2 4 ?bs = Some (from_be_bytes [?bs ! 2, ?bs ! 3])"
    "read_u16 4 6 ?bs = Some (from_be_bytes [?bs ! 4, ?bs ! 5])"
    "read_u16 6 8 ?bs = Some (from_be_bytes [?bs ! 6, ?bs ! 7])"
    using len(1) by (simp_all add: read_u16_nth)
  have ck: "internet_checksum (pseudo_parts (ip_source ip) (ip_dest ip) l @ [?bs])
      = Some (checksum_ref (pseudo_parts (ip_source ip) (ip_dest ip) l @ [?bs]))" for l
    using checksum_small_udp(1)[OF len(2)] by (intro internet_checksum_ref checksum_small_sum)
  have eq: "(from_be_bytes [?bs ! 4, ?bs ! 5] :: u16) = of_nat (length ?bs)
      \<longleftrightarrow> be_value [?bs ! 4, ?bs ! 5] = length ?bs"
    using len(2) by (simp add: word_unat_eq_iff unat_be_pair unat_of_nat take_bit_eq_mod)
  have sl: "slice_from 8 ?bs = Some (drop 8 ?bs)" using len(1) by (simp add: slice_from_def)
  note ck' = ck[unfolded pseudo_parts_def, simplified]
  show ?thesis
    using False tl eq
    by (auto simp: udp_from_packet_def udp_parse_ref_def Let_def reads ck' sl pseudo_parts_def
        not_less)
qed

section \<open>Serialization\<close>

lemma udp_serialize_too_long:
  assumes "MAX_UDP_PAYLOAD < length (udp_data p)"
  shows "udp_serialize_ipv4 p src dst = Some (Inl udp_error.LengthOutOfRange)"
proof (cases "try_from_usize (length (udp_data p)) :: u16 option")
  case None
  then show ?thesis by (simp add: udp_serialize_ipv4_def)
next
  case (Some len)
  then have "unat len = length (udp_data p)" by (rule try_from_usize_unat)
  then have "len > of_nat MAX_UDP_PAYLOAD"
    using assms by (simp add: word_less_nat_alt MAX_UDP_PAYLOAD_def)
  with Some show ?thesis by (simp add: udp_serialize_ipv4_def)
qed

lemma udp_serialize_layout:
  assumes "length (udp_data p) \<le> MAX_UDP_PAYLOAD"
  defines "len \<equiv> of_nat (8 + length (udp_data p)) :: u16"
  obtains c where "c \<noteq> 0"
    and "udp_serialize_ipv4 p src dst
      = Some (Inr (udp_header (source_port p) (dest_port p) len c @ udp_data p))"
    and "internet_checksum (pseudo_parts src dst len
      @ [udp_header (source_port p) (dest_port p) len c @ udp_data p]) = Some 0"
proof -
  let ?data = "udp_data p"
  let ?h = "to_be_bytes (source_port p) @ to_be_bytes (dest_port p) @ to_be_bytes len"
  have n: "length ?data \<le> 65527" using assms(1) by (simp add: MAX_UDP_PAYLOAD_def)
  then obtain l where l: "(try_from_usize (length ?data) :: u16 option) = Some l"
    by (simp add: try_from_usize_def)
  then have ul: "unat l = length ?data" by (rule try_from_usize_unat)
  have le: "\<not> l > of_nat MAX_UDP_PAYLOAD"
    using n ul by (simp add: word_less_nat_alt MAX_UDP_PAYLOAD_def)
  have add: "add_chk 8 l = Some len"
    using n ul of_nat_unat_self[of l] by (simp add: add_chk_def len_def)
  have small: "checksum_small (pseudo_parts src dst len @ [?h, ?data])"
    using n by (intro checksum_small_udp(2)) simp_all
  then obtain k where k: "internet_checksum (pseudo_parts src dst len @ [?h, ?data]) = Some k"
    using inet.no_panic by blast
  define c where "c = (if k = 0 then 0xFFFF else k)"
  have "c \<noteq> 0" by (simp add: c_def)
  moreover have "udp_serialize_ipv4 p src dst
      = Some (Inr (udp_header (source_port p) (dest_port p) len c @ ?data))"
    using k le unfolding udp_serialize_ipv4_def pseudo_parts_def
    by (simp add: l add Let_def c_def udp_header_def)
  moreover have "internet_checksum (pseudo_parts src dst len
      @ [udp_header (source_port p) (dest_port p) len c @ ?data]) = Some 0"
    using n by (intro inet.sealed_nonzero_verifies[OF small k] checksum_small_udp(1))
      (simp_all add: word_sum_udp c_def)
  ultimately show thesis by (rule that)
qed

lemma udp_parse_header:
  assumes "ip_data ip = udp_header sport dport len c @ data" and "28 \<le> unat (total_length ip)"
    and "unat len = 8 + length data"
    and "c \<noteq> 0 \<Longrightarrow> internet_checksum
      (pseudo_parts (ip_source ip) (ip_dest ip) len @ [udp_header sport dport len c @ data]) = Some 0"
  shows "udp_from_packet ip = Some (Inr \<lparr> source_port = sport, dest_port = dport,
    datagram_length = len, udp_checksum = c, udp_data = data \<rparr>)"
proof -
  have b: "unat len \<le> 65535" using unsigned_less[of len, where 'a = nat] by simp
  have len: "(of_nat (length (udp_header sport dport len c @ data)) :: u16) = len"
    using assms(3) of_nat_unat_self[of len] by simp
  have tl: "\<not> total_length ip < 28" using assms(2) by (simp add: word_less_nat_alt)
  obtain k where k: "internet_checksum (pseudo_parts (ip_source ip) (ip_dest ip) len
      @ [udp_header sport dport len c @ data]) = Some k"
    using inet.no_panic[OF checksum_small_udp(1)] assms(3) b by fastforce
  with assms(4) have ok: "\<not> (k \<noteq> 0 \<and> c \<noteq> 0)" by auto
  have sl: "slice_from 8 (udp_header sport dport len c @ data) = Some data"
    by (simp add: slice_from_def)
  show ?thesis
    unfolding udp_from_packet_def assms(1) udp_header_reads sl len
    using tl assms(3) b k ok by (auto simp: pseudo_parts_def)
qed

lemmas [eval_simps] =
  udp_new_def udp_from_packet_def udp_serialize_ipv4_def MAX_UDP_PAYLOAD_def

section \<open>Properties\<close>

text \<open>The known-good datagram of the unit tests, from 192.168.1.1:0x1234 to 10.0.0.1:0x5678.\<close>

definition SRC :: ipv4_addr where
  "SRC = Ipv4Addr 192 168 1 1"

definition DST :: ipv4_addr where
  "DST = Ipv4Addr 10 0 0 1"

definition VALID_UDP :: bytes where
  "VALID_UDP =
     [0x12, 0x34, 0x56, 0x78, 0x00, 0x0c, 0x2d, 0xe2, 0xde, 0xad, 0xbe, 0xef]"

lemma udp_serialize_matches_capture:
  "udp_serialize_ipv4 \<lparr> source_port = 0x1234, dest_port = 0x5678, datagram_length = 12,
     udp_checksum = 0x2de2, udp_data = [0xde, 0xad, 0xbe, 0xef] \<rparr> SRC DST = Some (Inr VALID_UDP)"
  by (simp add: SRC_def DST_def VALID_UDP_def eval_simps)

text \<open>The UDP parser never panics, whatever the IPv4 packet holds, and its three
  rejections come in the order of the code: a length out of range, then a length field that
  does not count the datagram, then a non-zero checksum that does not verify.\<close>

theorem udp_from_packet_total: "udp_from_packet ip = Some (udp_parse_ref ip)"
  by (rule udp_from_packet_ref)

text \<open>Serialization refuses exactly the payloads whose datagram length does not fit 16
  bits, and never panics.\<close>

theorem udp_serialize_rejects_iff:
  "udp_serialize_ipv4 p src dst = Some (Inl udp_error.LengthOutOfRange)
     \<longleftrightarrow> MAX_UDP_PAYLOAD < length (udp_data p)"
proof (cases "MAX_UDP_PAYLOAD < length (udp_data p)")
  case True
  then show ?thesis by (simp add: udp_serialize_too_long)
next
  case False
  then have "length (udp_data p) \<le> MAX_UDP_PAYLOAD" by simp
  then obtain c where "udp_serialize_ipv4 p src dst = Some (Inr (udp_header (source_port p)
      (dest_port p) (of_nat (8 + length (udp_data p))) c @ udp_data p))"
    by (rule udp_serialize_layout)
  with False show ?thesis by simp
qed

lemma udp_ipv4_path:
  assumes "length data \<le> 65507"
  shows "\<exists>u ub ip bs q v.
     udp_new sport dport data = Inr u \<and> udp_serialize_ipv4 u src dst = Some (Inr ub)
     \<and> ipv4_new ub src dst pid UDP = Inr ip \<and> ipv4_serialize ip = Some bs
     \<and> (\<forall>pad. ipv4_from_packet (bs @ pad) = Some (Inr q)) \<and> ip_source q = src \<and> ip_dest q = dst
     \<and> protocol q = UDP \<and> \<not> more_fragments q \<and> frag_offset q = 0 \<and> udp_from_packet q = Some (Inr v)
     \<and> source_port v = sport \<and> dest_port v = dport \<and> udp_data v = data"
proof -
  define len where "len = (of_nat (8 + length data) :: u16)"
  have ulen: "unat len = 8 + length data"
    unfolding len_def by (rule unat_of_nat_small) (use assms in simp)
  define u where "u = \<lparr> source_port = sport, dest_port = dport, datagram_length = len,
    udp_checksum = 0, udp_data = data \<rparr>"
  have u: "udp_new sport dport data = Inr u"
    using assms unfolding udp_new_def u_def len_def add.commute[of 8]
    by (simp add: try_from_usize_def)
  have "length (udp_data u) \<le> MAX_UDP_PAYLOAD"
    using assms by (simp add: u_def MAX_UDP_PAYLOAD_def)
  then obtain c where "c \<noteq> 0" and ub: "udp_serialize_ipv4 u src dst = Some (Inr (udp_header
      (source_port u) (dest_port u) (of_nat (8 + length (udp_data u))) c @ udp_data u))"
    and ck: "internet_checksum (pseudo_parts src dst (of_nat (8 + length (udp_data u)))
      @ [udp_header (source_port u) (dest_port u) (of_nat (8 + length (udp_data u))) c @ udp_data u])
      = Some 0"
    by (rule udp_serialize_layout)
  have uf: "source_port u = sport" "dest_port u = dport" "udp_data u = data"
    by (simp_all add: u_def)
  note ub = ub[unfolded uf, folded len_def] and ck = ck[unfolded uf, folded len_def]
  let ?ub = "udp_header sport dport len c @ data"
  have "length ?ub \<le> 65515" using assms by simp
  then obtain ip where ip: "ipv4_new ?ub src dst pid UDP = Inr ip" by (rule ipv4_new_ok)
  note fields = ipv4_new_fields[OF ip]
  have wf: "ipv4_wf ip"
    using ipv4_new_wf[OF ip] by (simp add: protocol_canonical_def protocol_of_u8_def)
  obtain k where k: "ipv4_serialize ip = Some (ipv4_header ip k @ ip_data ip)"
    "internet_checksum [ipv4_header ip 0] = Some k" "\<forall>pad. ipv4_from_packet (ipv4_header ip k @ ip_data ip @ pad)
      = Some (Inr (ip\<lparr>ip_checksum := k\<rparr>))"
    by (rule ipv4_serialize_wf[OF wf])
  have pu: "udp_from_packet (ip\<lparr>ip_checksum := k\<rparr>) = Some (Inr \<lparr> source_port = sport, dest_port = dport,
      datagram_length = len, udp_checksum = c, udp_data = data \<rparr>)"
    by (rule udp_parse_header) (simp_all add: fields ulen ck)
  have pi: "\<forall>pad. ipv4_from_packet ((ipv4_header ip k @ ip_data ip) @ pad)
      = Some (Inr (ip\<lparr>ip_checksum := k\<rparr>))"
    using k(3) by (simp only: append_assoc) simp
  show ?thesis
    by (intro exI conjI, rule u, rule ub, rule ip, rule k(1), rule pi, (simp add: fields)+, rule pu)
      simp_all
qed

text \<open>C16: a datagram survives the whole way down and up the stack: built by \<open>new\<close>,
  serialized, put into an IPv4 packet, serialized, parsed behind any padding and parsed as
  UDP, it arrives with its ports and its payload.\<close>

theorem udp_over_ipv4_roundtrip:
  assumes "length data \<le> 65507"
  shows "\<exists>u ub ip bs q v.
     udp_new sport dport data = Inr u \<and> udp_serialize_ipv4 u src dst = Some (Inr ub)
     \<and> ipv4_new ub src dst pid UDP = Inr ip \<and> ipv4_serialize ip = Some bs
     \<and> ipv4_from_packet (bs @ pad) = Some (Inr q) \<and> ip_source q = src \<and> ip_dest q = dst
     \<and> protocol q = UDP \<and> udp_from_packet q = Some (Inr v)
     \<and> source_port v = sport \<and> dest_port v = dport \<and> udp_data v = data"
  using udp_ipv4_path[OF assms, of sport dport src dst pid] by blast

theorem udp_over_ipv4_roundtrip_witness:
  "\<exists>u ub ip bs q v.
     udp_new 68 67 [1, 2, 3] = Inr u \<and> udp_serialize_ipv4 u SRC DST = Some (Inr ub)
     \<and> ipv4_new ub SRC DST 7 UDP = Inr ip \<and> ipv4_serialize ip = Some bs
     \<and> ipv4_from_packet (bs @ [0, 0]) = Some (Inr q) \<and> ip_source q = SRC \<and> ip_dest q = DST
     \<and> protocol q = UDP \<and> udp_from_packet q = Some (Inr v)
     \<and> source_port v = 68 \<and> dest_port v = 67 \<and> udp_data v = [1, 2, 3]"
  by (rule udp_over_ipv4_roundtrip) simp

end
