(* ===== verification/Arp.thy ===== *)
theory Arp
  imports Addresses
begin

text \<open>
  ARP packets (the second half of \<open>net/src/arp.rs\<close>): the operation codes, the 28-byte
  serialization written range by range into a zeroed array, and the parser. The resolution
  cache of the first half is in \<open>Arp_Cache\<close>.
\<close>

section \<open>The code\<close>

datatype arp_operation = Request | Reply

fun u16_of_operation :: "arp_operation \<Rightarrow> u16" where
  "u16_of_operation Request = 1"
| "u16_of_operation Reply = 2"

definition operation_try_from :: "u16 \<Rightarrow> unit + arp_operation" where
  "operation_try_from value =
     (if value = 1 then Inr Request else if value = 2 then Inr Reply else Inl ())"

datatype arp_error = LengthOutOfRange | IncorrectFormat | BadOperation

record arp_packet =
  hardware_type :: u16
  protocol_type :: u16
  hardware_len :: u8
  proto_len :: u8
  operation :: arp_operation
  sender_mac :: mac_address
  sender_addr :: ipv4_addr
  target_mac :: mac_address
  target_addr :: ipv4_addr

definition arp_serialize :: "arp_packet \<Rightarrow> bytes option" where
  "arp_serialize p = do {
     let pkt = replicate 28 0;
     pkt \<leftarrow> copy_range 0 2 (to_be_bytes (hardware_type p)) pkt;
     pkt \<leftarrow> copy_range 2 4 (to_be_bytes (protocol_type p)) pkt;
     pkt \<leftarrow> copy_range 4 5 (to_be_bytes (hardware_len p)) pkt;
     pkt \<leftarrow> copy_range 5 6 (to_be_bytes (proto_len p)) pkt;
     pkt \<leftarrow> copy_range 6 8 (to_be_bytes (u16_of_operation (operation p))) pkt;
     pkt \<leftarrow> copy_range 8 14 (mac_addr (sender_mac p)) pkt;
     pkt \<leftarrow> copy_range 14 18 (octets (sender_addr p)) pkt;
     pkt \<leftarrow> copy_range 18 24 (mac_addr (target_mac p)) pkt;
     copy_range 24 28 (octets (target_addr p)) pkt }"

definition arp_from_slice :: "bytes \<Rightarrow> (arp_error + arp_packet) option" where
  "arp_from_slice packet_data =
     (if length packet_data < 28 then Some (Inl arp_error.LengthOutOfRange) else do {
        htype \<leftarrow> read_u16 0 2 packet_data;
        ptype \<leftarrow> read_u16 2 4 packet_data;
        hlen \<leftarrow> read_u8 4 5 packet_data;
        plen \<leftarrow> read_u8 5 6 packet_data;
        opcode \<leftarrow> read_u16 6 8 packet_data;
        try_result (map_err (\<lambda>_. BadOperation) (operation_try_from opcode)) (\<lambda>oper.
        if htype \<noteq> 1 \<or> ptype \<noteq> 0x0800 \<or> hlen \<noteq> 6 \<or> plen \<noteq> 4 then Some (Inl IncorrectFormat)
        else do {
          smac \<leftarrow> read_mac 8 14 packet_data;
          saddr \<leftarrow> read_addr 14 18 packet_data;
          tmac \<leftarrow> read_mac 18 24 packet_data;
          taddr \<leftarrow> read_addr 24 28 packet_data;
          Some (Inr \<lparr> hardware_type = htype, protocol_type = ptype, hardware_len = hlen,
                      proto_len = plen, operation = oper, sender_mac = smac,
                      sender_addr = saddr, target_mac = tmac, target_addr = taddr \<rparr>) }) })"

section \<open>The layout\<close>

definition arp_layout :: "u16 \<Rightarrow> arp_packet \<Rightarrow> bytes" where
  "arp_layout opcode p =
     to_be_bytes (hardware_type p) @ to_be_bytes (protocol_type p) @ to_be_bytes (hardware_len p)
       @ to_be_bytes (proto_len p) @ to_be_bytes opcode @ mac_addr (sender_mac p)
       @ octets (sender_addr p) @ mac_addr (target_mac p) @ octets (target_addr p)"

text \<open>ARP for IPv4 over Ethernet, the only format the parser accepts.\<close>

definition arp_ethernet_ipv4 :: "arp_packet \<Rightarrow> bool" where
  "arp_ethernet_ipv4 p \<longleftrightarrow>
     hardware_type p = 1 \<and> protocol_type p = 0x0800 \<and> hardware_len p = 6 \<and> proto_len p = 4"

lemma length_arp_layout [simp, wire_simps]: "length (arp_layout opcode p) = 28"
  by (simp add: arp_layout_def)

lemma operation_roundtrip: "operation_try_from v = Inr oper \<longleftrightarrow> v = u16_of_operation oper"
  by (cases oper) (auto simp: operation_try_from_def)

lemma operation_try_from_Inl: "operation_try_from v = Inl () \<longleftrightarrow> v \<noteq> 1 \<and> v \<noteq> 2"
  by (simp add: operation_try_from_def)

lemma arp_serialize_layout: "arp_serialize p = Some (arp_layout (u16_of_operation (operation p)) p)"
proof -
  note step = copy_range_prefix[where n = 28]
  have z: "replicate 28 0 = [] @ replicate (28 - 0) (0 :: u8)" by simp
  show ?thesis
    unfolding arp_serialize_def Let_def z
    by (subst step, simp, simp, simp, simp, subst Option.bind_lunit)+
      (subst step, simp, simp, simp, simp, simp add: arp_layout_def)
qed

lemma arp_layout_reads:
  "read_u16 0 2 (arp_layout opcode p @ r) = Some (hardware_type p)"
  "read_u16 2 4 (arp_layout opcode p @ r) = Some (protocol_type p)"
  "read_u8 4 5 (arp_layout opcode p @ r) = Some (hardware_len p)"
  "read_u8 5 6 (arp_layout opcode p @ r) = Some (proto_len p)"
  "read_u16 6 8 (arp_layout opcode p @ r) = Some opcode"
  "read_mac 8 14 (arp_layout opcode p @ r) = Some (sender_mac p)"
  "read_addr 14 18 (arp_layout opcode p @ r) = Some (sender_addr p)"
  "read_mac 18 24 (arp_layout opcode p @ r) = Some (target_mac p)"
  "read_addr 24 28 (arp_layout opcode p @ r) = Some (target_addr p)"
  by (simp_all add: read_defs arp_layout_def slice_range_def u16_be.dec_enc
      u8_be.dec_enc[unfolded One_nat_def] mac_codec.dec_enc ip_codec.dec_enc)

text \<open>Every buffer of at least 28 bytes is the layout of some packet and opcode.\<close>

lemma arp_layout_exists:
  assumes "28 \<le> length bs"
  obtains opcode p r where "bs = arp_layout opcode p @ r"
proof -
  obtain ht r1 where 1: "bs = to_be_bytes (ht :: u16) @ r1"
    by (rule u16_be.peel[of bs]) (use assms in auto)
  obtain pt r2 where 2: "r1 = to_be_bytes (pt :: u16) @ r2"
    by (rule u16_be.peel[of r1]) (use assms 1 in auto)
  obtain hl r3 where 3: "r2 = to_be_bytes (hl :: u8) @ r3"
    by (rule u8_be.peel[of r2]) (use assms 1 2 in auto)
  obtain pl r4 where 4: "r3 = to_be_bytes (pl :: u8) @ r4"
    by (rule u8_be.peel[of r3]) (use assms 1 2 3 in auto)
  obtain oc r5 where 5: "r4 = to_be_bytes (oc :: u16) @ r5"
    by (rule u16_be.peel[of r4]) (use assms 1 2 3 4 in auto)
  obtain sm r6 where 6: "r5 = mac_addr sm @ r6"
    by (rule mac_codec.peel[of r5]) (use assms 1 2 3 4 5 in auto)
  obtain sa r7 where 7: "r6 = octets sa @ r7"
    by (rule ip_codec.peel[of r6]) (use assms 1 2 3 4 5 6 in auto)
  obtain tm r8 where 8: "r7 = mac_addr tm @ r8"
    by (rule mac_codec.peel[of r7]) (use assms 1 2 3 4 5 6 7 in auto)
  obtain ta r9 where 9: "r8 = octets ta @ r9"
    by (rule ip_codec.peel[of r8]) (use assms 1 2 3 4 5 6 7 8 in auto)
  have "bs = arp_layout oc \<lparr> hardware_type = ht, protocol_type = pt, hardware_len = hl,
      proto_len = pl, operation = Request, sender_mac = sm, sender_addr = sa, target_mac = tm,
      target_addr = ta \<rparr> @ r9"
    by (simp add: arp_layout_def 1 2 3 4 5 6 7 8 9)
  then show thesis by (rule that)
qed

section \<open>The parser's decision\<close>

lemma arp_parse_short: "length bs < 28 \<Longrightarrow> arp_from_slice bs = Some (Inl arp_error.LengthOutOfRange)"
  by (simp add: arp_from_slice_def)

lemma arp_parse_layout:
  "arp_from_slice (arp_layout opcode p @ r) = Some
     (case operation_try_from opcode of
        Inl _ \<Rightarrow> Inl BadOperation
      | Inr oper \<Rightarrow> if arp_ethernet_ipv4 p then Inr (p\<lparr>operation := oper\<rparr>) else Inl IncorrectFormat)"
  by (auto simp: arp_from_slice_def arp_layout_reads arp_ethernet_ipv4_def split: sum.splits)

lemma arp_layout_update [simp]:
  "arp_layout opcode (p\<lparr>operation := oper\<rparr>) = arp_layout opcode p"
  by (simp add: arp_layout_def)

lemma arp_accepts:
  "arp_from_slice bs = Some (Inr p) \<longleftrightarrow>
     arp_ethernet_ipv4 p \<and> (\<exists>r. bs = arp_layout (u16_of_operation (operation p)) p @ r)"
proof (cases "length bs < 28")
  case True
  then show ?thesis by (auto simp: arp_parse_short)
next
  case False
  then have "28 \<le> length bs" by simp
  then obtain opcode q r where bs: "bs = arp_layout opcode q @ r" by (rule arp_layout_exists)
  show ?thesis
  proof
    assume "arp_from_slice bs = Some (Inr p)"
    then have op: "operation_try_from opcode = Inr (operation p)"
      and q: "arp_ethernet_ipv4 q" and p: "p = q\<lparr>operation := operation p\<rparr>"
      by (auto simp: bs arp_parse_layout split: sum.splits if_splits)
    have "arp_ethernet_ipv4 p" using q by (subst p) (simp add: arp_ethernet_ipv4_def)
    moreover have "arp_layout opcode q = arp_layout opcode p" by (subst p) simp
    ultimately show "arp_ethernet_ipv4 p
        \<and> (\<exists>r. bs = arp_layout (u16_of_operation (operation p)) p @ r)"
      using op by (auto simp: bs operation_roundtrip)
  next
    assume "arp_ethernet_ipv4 p \<and> (\<exists>r. bs = arp_layout (u16_of_operation (operation p)) p @ r)"
    then show "arp_from_slice bs = Some (Inr p)"
      using operation_roundtrip[of "u16_of_operation (operation p)" "operation p"]
      by (auto simp: arp_parse_layout)
  qed
qed

lemma arp_no_panic: "arp_from_slice bs \<noteq> None"
proof (cases "length bs < 28")
  case False
  then have "28 \<le> length bs" by simp
  then obtain opcode p r where "bs = arp_layout opcode p @ r" by (rule arp_layout_exists)
  then show ?thesis by (simp add: arp_parse_layout)
qed (simp add: arp_parse_short)

lemmas [eval_simps] =
  arp_serialize_def arp_from_slice_def operation_try_from_def

section \<open>Properties\<close>

text \<open>The request of the unit tests.\<close>

definition VALID_ARP_REQUEST :: bytes where
  "VALID_ARP_REQUEST =
     [0x00, 0x01,
      0x08, 0x00,
      0x06,
      0x04,
      0x00, 0x01,
      0x11, 0x22, 0x33, 0x44, 0x55, 0x66,
      192, 168, 1, 10,
      0x00, 0x00, 0x00, 0x00, 0x00, 0x00,
      192, 168, 1, 20]"

definition arp_request_packet :: arp_packet where
  "arp_request_packet =
     \<lparr> hardware_type = 1, protocol_type = 0x0800, hardware_len = 6, proto_len = 4,
       operation = Request, sender_mac = MacAddress 0x11 0x22 0x33 0x44 0x55 0x66,
       sender_addr = Ipv4Addr 192 168 1 10, target_mac = MacAddress 0 0 0 0 0 0,
       target_addr = Ipv4Addr 192 168 1 20 \<rparr>"

lemma arp_serialize_matches_capture: "arp_serialize arp_request_packet = Some VALID_ARP_REQUEST"
  by (simp add: arp_serialize_layout arp_layout_def arp_request_packet_def VALID_ARP_REQUEST_def
      eval_simps)

text \<open>C17: the ARP parser accepts exactly the buffers that start with the serialization of an
  IPv4-over-Ethernet packet, and returns that packet; whatever follows the 28 bytes is
  ignored.\<close>

theorem arp_from_slice_accepts_iff:
  "arp_from_slice bs = Some (Inr p) \<longleftrightarrow>
     arp_ethernet_ipv4 p \<and> (\<exists>sent pad. arp_serialize p = Some sent \<and> bs = sent @ pad)"
  by (simp add: arp_accepts arp_serialize_layout)

text \<open>Every other buffer is rejected without a panic, for the first reason that
  applies: fewer than 28 bytes, then an operation other than 1 and 2, then a format other than
  IPv4 over Ethernet.\<close>

theorem arp_from_slice_rejects:
  "arp_from_slice bs \<noteq> None
   \<and> (arp_from_slice bs = Some (Inl arp_error.LengthOutOfRange) \<longleftrightarrow> length bs < 28)
   \<and> (arp_from_slice (arp_layout opcode p @ r) = Some (Inl BadOperation)
        \<longleftrightarrow> opcode \<noteq> 1 \<and> opcode \<noteq> 2)
   \<and> (arp_from_slice (arp_layout opcode p @ r) = Some (Inl IncorrectFormat)
        \<longleftrightarrow> (opcode = 1 \<or> opcode = 2) \<and> \<not> arp_ethernet_ipv4 p)"
proof (intro conjI)
  show "arp_from_slice bs \<noteq> None" by (rule arp_no_panic)
  show "arp_from_slice bs = Some (Inl arp_error.LengthOutOfRange) \<longleftrightarrow> length bs < 28"
  proof (cases "length bs < 28")
    case False
    then have "28 \<le> length bs" by simp
    then obtain opcode p r where "bs = arp_layout opcode p @ r" by (rule arp_layout_exists)
    with False show ?thesis by (auto simp: arp_parse_layout split: sum.splits)
  qed (simp add: arp_parse_short)
qed (auto simp: arp_parse_layout operation_try_from_def)

end
