(* ===== verification/Ethernet.thy ===== *)
theory Ethernet
  imports Arp Ipv4
begin

text \<open>
  Ethernet frames (\<open>net/src/ethernet.rs\<close>): the ether types and the dispatch of a received
  frame to the ARP and the IPv4 parser.
\<close>

section \<open>The code\<close>

datatype ether_type = EtherIPV4 | EtherARP

fun u16_of_ether_type :: "ether_type \<Rightarrow> u16" where
  "u16_of_ether_type EtherIPV4 = 0x0800"
| "u16_of_ether_type EtherARP = 0x0806"

datatype ethernet_frame =
    FrameArp arp_packet
  | FrameIpv4 ipv4_packet
  | FrameUnknown u16 bytes

datatype ethernet_error = Ipv4Err ipv4_error | ArpErr arp_error | TooShort

definition ethernet_new :: "bytes \<Rightarrow> (ethernet_error + ethernet_frame) option" where
  "ethernet_new packet =
     (if length packet < 14 then Some (Inl TooShort) else do {
        b12 \<leftarrow> slice_get 12 packet;
        b13 \<leftarrow> slice_get 13 packet;
        let ethertype = (from_be_bytes [b12, b13] :: u16);
        if ethertype = 0x0806 then do {
          arp \<leftarrow> slice_from 14 packet;
          parsed \<leftarrow> arp_from_slice arp;
          try_result (map_err ArpErr parsed) (\<lambda>p. Some (Inr (FrameArp p)))
        } else if ethertype = 0x0800 then do {
          ip \<leftarrow> slice_from 14 packet;
          parsed \<leftarrow> ipv4_from_packet ip;
          try_result (map_err Ipv4Err parsed) (\<lambda>p. Some (Inr (FrameIpv4 p)))
        } else Some (Inr (FrameUnknown ethertype packet)) })"

section \<open>The layout of a frame\<close>

definition ethernet_layout :: "mac_address \<Rightarrow> mac_address \<Rightarrow> u16 \<Rightarrow> bytes \<Rightarrow> bytes" where
  "ethernet_layout dst src ethertype payload =
     mac_addr dst @ mac_addr src @ to_be_bytes ethertype @ payload"

lemma length_ethernet_layout [simp, wire_simps]:
  "length (ethernet_layout dst src ethertype payload) = 14 + length payload"
  by (simp add: ethernet_layout_def)

lemma ethernet_layout_reads:
  "slice_get 12 (ethernet_layout dst src t payload) = Some (ucast (drop_bit 8 t))"
  "slice_get 13 (ethernet_layout dst src t payload) = Some (ucast t)"
  "slice_from 14 (ethernet_layout dst src t payload) = Some payload"
  "read_mac 0 6 (ethernet_layout dst src t payload) = Some dst"
  "read_mac 6 12 (ethernet_layout dst src t payload) = Some src"
  by (simp_all add: ethernet_layout_def slice_get_def slice_from_def nth_append to_be_bytes_u16
      read_mac_def slice_range_def mac_codec.dec_enc)

lemma ethernet_layout_exists:
  assumes "14 \<le> length bs"
  obtains dst src ethertype payload where "bs = ethernet_layout dst src ethertype payload"
proof -
  obtain d r1 where 1: "bs = mac_addr d @ r1"
    by (rule mac_codec.peel[of bs]) (use assms in auto)
  obtain s r2 where 2: "r1 = mac_addr s @ r2"
    by (rule mac_codec.peel[of r1]) (use assms 1 in auto)
  obtain t r3 where 3: "r2 = to_be_bytes (t :: u16) @ r3"
    by (rule u16_be.peel[of r2]) (use assms 1 2 in auto)
  have "bs = ethernet_layout d s t r3" by (simp add: ethernet_layout_def 1 2 3)
  then show thesis by (rule that)
qed

lemma ethernet_dispatch:
  "ethernet_new (ethernet_layout dst src t payload) =
     (if t = 0x0806 then
        map_option (\<lambda>r. case r of Inl e \<Rightarrow> Inl (ArpErr e) | Inr p \<Rightarrow> Inr (FrameArp p))
          (arp_from_slice payload)
      else if t = 0x0800 then
        map_option (\<lambda>r. case r of Inl e \<Rightarrow> Inl (Ipv4Err e) | Inr p \<Rightarrow> Inr (FrameIpv4 p))
          (ipv4_from_packet payload)
      else Some (Inr (FrameUnknown t (ethernet_layout dst src t payload))))"
  by (auto simp: ethernet_new_def ethernet_layout_reads from_be_bytes_u16_pair Let_def map_option_case
      split: option.splits sum.splits)

lemma ethernet_no_panic: "ethernet_new bs \<noteq> None"
proof (cases "length bs < 14")
  case False
  then have "14 \<le> length bs" by simp
  then obtain dst src t payload where bs: "bs = ethernet_layout dst src t payload"
    by (rule ethernet_layout_exists)
  show ?thesis
    using arp_no_panic[of payload] unfolding bs ethernet_dispatch ipv4_from_packet_ref by simp
qed (simp add: ethernet_new_def)

lemmas [eval_simps] = ethernet_new_def

section \<open>Properties\<close>

text \<open>Every received buffer is dispatched without a panic: fewer than 14 bytes are too
  short, ether type 0x0806 goes to the ARP parser and 0x0800 to the IPv4 parser behind the
  14-byte header with their errors tagged, and any other frame is passed on whole.\<close>

theorem ethernet_new_decides:
  "ethernet_new bs \<noteq> None
   \<and> (ethernet_new bs = Some (Inl TooShort) \<longleftrightarrow> length bs < 14)
   \<and> (ethernet_new bs = Some (Inr (FrameArp a)) \<longleftrightarrow>
        (\<exists>dst src payload. bs = ethernet_layout dst src (u16_of_ether_type EtherARP) payload
           \<and> arp_from_slice payload = Some (Inr a)))
   \<and> (ethernet_new bs = Some (Inr (FrameIpv4 p)) \<longleftrightarrow>
        (\<exists>dst src payload. bs = ethernet_layout dst src (u16_of_ether_type EtherIPV4) payload
           \<and> ipv4_from_packet payload = Some (Inr p)))"
proof (cases "length bs < 14")
  case True
  then show ?thesis by (auto simp: ethernet_new_def)
next
  case False
  then have "14 \<le> length bs" by simp
  then obtain d s t pl where bs: "bs = ethernet_layout d s t pl" by (rule ethernet_layout_exists)
  have inj: "ethernet_layout d s t pl = ethernet_layout d' s' t' pl'
      \<longleftrightarrow> d = d' \<and> s = s' \<and> t = t' \<and> pl = pl'" for d' s' t' pl'
    by (auto simp: ethernet_layout_def mac_codec.enc_inj u16_be.enc_inj)
  obtain ra rb where r: "arp_from_slice pl = Some ra" "ipv4_from_packet pl = Some rb"
    using arp_no_panic[of pl] ipv4_from_packet_ref[of pl] by blast
  show ?thesis
    using ethernet_no_panic[of bs] False unfolding bs inj
    by (cases ra; cases rb) (auto simp: ethernet_dispatch r split: if_splits)
qed

end
