(* ===== verification/Btree_Map.thy ===== *)
theory Btree_Map
  imports Prelude "HOL-Library.Product_Lexorder"
begin

text \<open>
  \<open>alloc::collections::BTreeMap\<close>, as far as the kernel uses it: an association list kept
  strictly sorted by key, so that iteration (\<open>values\<close>, \<open>first_entry\<close>) sees the entries in
  key order. The ARP cache, the executor's task tables and the sleeper table are clients of
  the contract \<open>ordered_map\<close>.
\<close>

section \<open>Operations\<close>

type_synonym ('k, 'v) btree = "('k \<times> 'v) list"

fun bt_get :: "('k, 'v) btree \<Rightarrow> 'k \<Rightarrow> 'v option" where
  "bt_get [] k = None"
| "bt_get ((k', v) # t) k = (if k = k' then Some v else bt_get t k)"

fun bt_insert :: "'k::linorder \<Rightarrow> 'v \<Rightarrow> ('k, 'v) btree \<Rightarrow> ('k, 'v) btree" where
  "bt_insert k v [] = [(k, v)]"
| "bt_insert k v ((k', v') # t) =
     (if k < k' then (k, v) # (k', v') # t
      else if k = k' then (k, v) # t
      else (k', v') # bt_insert k v t)"

fun bt_remove :: "'k \<Rightarrow> ('k, 'v) btree \<Rightarrow> ('k, 'v) btree" where
  "bt_remove k [] = []"
| "bt_remove k ((k', v) # t) = (if k = k' then t else (k', v) # bt_remove k t)"

definition bt_entries :: "('k, 'v) btree \<Rightarrow> ('k \<times> 'v) list" where
  "bt_entries t = t"

fun bt_first :: "('k, 'v) btree \<Rightarrow> ('k \<times> 'v) option" where
  "bt_first [] = None"
| "bt_first (e # t) = Some e"

definition bt_ok :: "('k::linorder, 'v) btree \<Rightarrow> bool" where
  "bt_ok t \<longleftrightarrow> sorted_wrt (<) (map fst t)"

section \<open>The contract of an ordered map\<close>

locale ordered_map =
  fixes empty :: 'm
    and get :: "'m \<Rightarrow> 'k::linorder \<Rightarrow> 'v option"
    and put :: "'k \<Rightarrow> 'v \<Rightarrow> 'm \<Rightarrow> 'm"
    and del :: "'k \<Rightarrow> 'm \<Rightarrow> 'm"
    and entries :: "'m \<Rightarrow> ('k \<times> 'v) list"
    and ok :: "'m \<Rightarrow> bool"
  assumes ok_empty: "ok empty"
    and ok_put: "ok m \<Longrightarrow> ok (put k v m)"
    and ok_del: "ok m \<Longrightarrow> ok (del k m)"
    and get_empty: "get empty k = None"
    and get_put: "ok m \<Longrightarrow> get (put k v m) = (get m)(k \<mapsto> v)"
    and get_del: "ok m \<Longrightarrow> get (del k m) = (get m)(k := None)"
    and entries_get: "ok m \<Longrightarrow> (k, v) \<in> set (entries m) \<longleftrightarrow> get m k = Some v"
    and entries_sorted: "ok m \<Longrightarrow> sorted_wrt (<) (map fst (entries m))"
begin

lemma entries_distinct: "ok m \<Longrightarrow> distinct (map fst (entries m))"
  using entries_sorted strict_sorted_iff by blast

text \<open>How many entries satisfy a predicate, by iteration and as a set of keys.\<close>

lemma count_card:
  assumes "ok m"
  shows "length (filter P (map snd (entries m))) = card {k. \<exists>v. get m k = Some v \<and> P v}"
proof -
  let ?es = "filter (\<lambda>e. P (snd e)) (entries m)"
  have "distinct (map fst ?es)" using entries_distinct[OF assms] by (rule distinct_map_filter)
  then have "length (map fst ?es) = card (set (map fst ?es))" by (metis distinct_card)
  moreover have "set (map fst ?es) = {k. \<exists>v. get m k = Some v \<and> P v}"
    by (force simp: entries_get[OF assms, symmetric])
  ultimately show ?thesis by (simp add: filter_map o_def)
qed

lemma finite_keys:
  assumes "ok m"
  shows "finite {k. \<exists>v. get m k = Some v \<and> P v}"
proof (rule finite_subset)
  show "{k. \<exists>v. get m k = Some v \<and> P v} \<subseteq> set (map fst (entries m))"
    by (force simp: entries_get[OF assms, symmetric])
qed simp

lemma count_put_new:
  assumes "ok m" and "get m k = None"
  shows "length (filter P (map snd (entries (put k v m))))
    = length (filter P (map snd (entries m))) + of_bool (P v)"
proof -
  have "{k'. \<exists>v'. get (put k v m) k' = Some v' \<and> P v'}
      = (if P v then insert k {k'. \<exists>v'. get m k' = Some v' \<and> P v'}
         else {k'. \<exists>v'. get m k' = Some v' \<and> P v'})"
    using assms(2) by (auto simp: get_put[OF assms(1)] split: if_splits)
  then show ?thesis
    using assms finite_keys[OF assms(1), of P]
    unfolding count_card[OF assms(1)] count_card[OF ok_put[OF assms(1)]] by simp
qed

lemma count_put_out:
  assumes "ok m" and "\<not> P v"
  shows "length (filter P (map snd (entries (put k v m)))) \<le> length (filter P (map snd (entries m)))"
proof -
  have "{k'. \<exists>v'. get (put k v m) k' = Some v' \<and> P v'} \<subseteq> {k'. \<exists>v'. get m k' = Some v' \<and> P v'}"
    using assms(2) by (auto simp: get_put[OF assms(1)] split: if_splits)
  then show ?thesis
    unfolding count_card[OF assms(1)] count_card[OF ok_put[OF assms(1)]]
    by (rule card_mono[OF finite_keys[OF assms(1)]])
qed

lemma count_put_same:
  assumes "ok m" and "get m k = Some w" and "P w = P v"
  shows "length (filter P (map snd (entries (put k v m)))) = length (filter P (map snd (entries m)))"
proof -
  have "{k'. \<exists>v'. get (put k v m) k' = Some v' \<and> P v'} = {k'. \<exists>v'. get m k' = Some v' \<and> P v'}"
    using assms(2,3) by (auto simp: get_put[OF assms(1)] split: if_splits)
  then show ?thesis unfolding count_card[OF assms(1)] count_card[OF ok_put[OF assms(1)]] by simp
qed

lemma count_del:
  assumes "ok m"
  shows "length (filter P (map snd (entries (del k m)))) \<le> length (filter P (map snd (entries m)))"
proof -
  have "{k'. \<exists>v'. get (del k m) k' = Some v' \<and> P v'} \<subseteq> {k'. \<exists>v'. get m k' = Some v' \<and> P v'}"
    by (auto simp: get_del[OF assms] split: if_splits)
  then show ?thesis
    unfolding count_card[OF assms] count_card[OF ok_del[OF assms]]
    by (rule card_mono[OF finite_keys[OF assms]])
qed

text \<open>Two maps with the same lookups iterate alike, and the first entry has the least key.\<close>

lemma entries_ext:
  assumes "ok m" and "ok n" and "get m = get n"
  shows "entries m = entries n"
proof (rule map_sorted_distinct_set_unique)
  show eq: "set (entries m) = set (entries n)"
    using assms by (auto simp: entries_get)
  have "set (entries m) \<union> set (entries n) = set (entries m)" using eq by simp
  then show "inj_on fst (set (entries m) \<union> set (entries n))"
    using entries_distinct[OF assms(1)] by (simp add: distinct_map)
  show "sorted (map fst (entries m))" "sorted (map fst (entries n))"
    using entries_sorted assms strict_sorted_imp_sorted by blast+
  show "distinct (map fst (entries m))" "distinct (map fst (entries n))"
    using entries_distinct assms by blast+
qed

lemma first_least:
  assumes "ok m" and "entries m = (k, v) # es" and "get m k' = Some v'"
  shows "k \<le> k'"
proof -
  have "(k', v') \<in> set (entries m)" using entries_get[OF assms(1)] assms(3) by blast
  then show ?thesis using entries_sorted[OF assms(1)] assms(2) by force
qed

end

section \<open>The sorted association list keeps the contract\<close>

lemma bt_insert_keys: "fst ` set (bt_insert k v t) = insert k (fst ` set t)"
  by (induction k v t rule: bt_insert.induct) auto

lemma bt_remove_keys: "fst ` set (bt_remove k t) \<subseteq> fst ` set t"
  by (induction k t rule: bt_remove.induct) auto

lemma bt_ok_simps [simp]:
  "bt_ok []"
  "bt_ok ((k, v) # t) \<longleftrightarrow> (\<forall>k' \<in> fst ` set t. k < k') \<and> bt_ok t"
  by (auto simp: bt_ok_def)

lemma bt_ok_insert: "bt_ok t \<Longrightarrow> bt_ok (bt_insert k v t)"
proof (induction k v t rule: bt_insert.induct)
  case (2 k v k' v' t)
  then show ?case by (auto simp: bt_insert_keys)
qed simp

lemma bt_ok_remove: "bt_ok t \<Longrightarrow> bt_ok (bt_remove k t)"
proof (induction k t rule: bt_remove.induct)
  case (2 k k' v t)
  then show ?case using bt_remove_keys[of k t] by (simp del: ball_simps) blast
qed simp

lemma bt_get_None: "bt_get t k = None \<longleftrightarrow> k \<notin> fst ` set t"
  by (induction t k rule: bt_get.induct) auto

lemma bt_get_insert: "bt_ok t \<Longrightarrow> bt_get (bt_insert k v t) = (bt_get t)(k \<mapsto> v)"
  by (induction k v t rule: bt_insert.induct) (auto simp: fun_eq_iff)

lemma bt_get_remove: "bt_ok t \<Longrightarrow> bt_get (bt_remove k t) = (bt_get t)(k := None)"
proof (induction k t rule: bt_remove.induct)
  case (2 k k' v t)
  then show ?case by (auto simp: fun_eq_iff bt_get_None)
qed auto

lemma bt_entries_get: "bt_ok t \<Longrightarrow> (k, v) \<in> set (bt_entries t) \<longleftrightarrow> bt_get t k = Some v"
  unfolding bt_entries_def by (induction t k rule: bt_get.induct) force+

interpretation bt: ordered_map "[]" bt_get bt_insert bt_remove bt_entries bt_ok
proof
  fix m :: "('k::linorder, 'v) btree"
  show "bt_ok m \<Longrightarrow> sorted_wrt (<) (map fst (bt_entries m))"
    by (simp add: bt_ok_def bt_entries_def)
qed (simp_all add: bt_ok_insert bt_ok_remove bt_get_insert bt_get_remove bt_entries_get)

end
