(* ===== verification/Arp_Cache.thy ===== *)
theory Arp_Cache
  imports Addresses Btree_Map
begin

text \<open>
  The ARP resolution cache (the first half of \<open>net/src/arp.rs\<close>): a map from addresses to
  entries that are either resolved or hold the packets parked behind an outstanding request.
  The network interface relies on it through the contract \<open>neighbour_table\<close>.
\<close>

section \<open>The code\<close>

definition MAX_PENDING_PER_ADDRESS :: nat where
  "MAX_PENDING_PER_ADDRESS = 4"

definition MAX_PENDING_ADDRESSES :: nat where
  "MAX_PENDING_ADDRESSES = 16"

datatype arp_entry = Resolved mac_address | Pending "bytes list"

datatype queued = RequestNeeded | AlreadyPending | Dropped

record arp_cache =
  arp_entries :: "(ipv4_addr, arp_entry) btree"

definition arp_cache_new :: arp_cache where
  "arp_cache_new = \<lparr> arp_entries = [] \<rparr>"

definition arp_lookup :: "arp_cache \<Rightarrow> ipv4_addr \<Rightarrow> mac_address option" where
  "arp_lookup c ip =
     (case bt_get (arp_entries c) ip of
        Some (Resolved mac) \<Rightarrow> Some mac
      | Some (Pending _) \<Rightarrow> None
      | None \<Rightarrow> None)"

definition arp_insert :: "ipv4_addr \<Rightarrow> mac_address \<Rightarrow> arp_cache \<Rightarrow> bytes list \<times> arp_cache" where
  "arp_insert ip mac c =
     (case bt_get (arp_entries c) ip of
        Some (Pending queue) \<Rightarrow> queue
      | Some (Resolved _) \<Rightarrow> []
      | None \<Rightarrow> [],
      c\<lparr>arp_entries := bt_insert ip (Resolved mac) (arp_entries c)\<rparr>)"

definition is_pending :: "arp_entry \<Rightarrow> bool" where
  "is_pending e = (case e of Pending _ \<Rightarrow> True | Resolved _ \<Rightarrow> False)"

definition pending_addresses :: "arp_cache \<Rightarrow> nat" where
  "pending_addresses c = length (filter is_pending (map snd (bt_entries (arp_entries c))))"

definition arp_queue_pending :: "ipv4_addr \<Rightarrow> bytes \<Rightarrow> arp_cache \<Rightarrow> queued \<times> arp_cache" where
  "arp_queue_pending ip frame c =
     (case bt_get (arp_entries c) ip of
        Some (Pending queue) \<Rightarrow>
          if length queue < MAX_PENDING_PER_ADDRESS
          then (AlreadyPending,
                c\<lparr>arp_entries := bt_insert ip (Pending (queue @ [frame])) (arp_entries c)\<rparr>)
          else (Dropped, c)
      | Some (Resolved _) \<Rightarrow> (Dropped, c)
      | None \<Rightarrow>
          if pending_addresses c \<ge> MAX_PENDING_ADDRESSES then (Dropped, c)
          else (RequestNeeded,
                c\<lparr>arp_entries := bt_insert ip (Pending [frame]) (arp_entries c)\<rparr>))"

definition arp_remove :: "ipv4_addr \<Rightarrow> arp_cache \<Rightarrow> arp_cache" where
  "arp_remove ip c = c\<lparr>arp_entries := bt_remove ip (arp_entries c)\<rparr>"

definition arp_contains :: "arp_cache \<Rightarrow> ipv4_addr \<Rightarrow> bool" where
  "arp_contains c ip \<longleftrightarrow> arp_lookup c ip \<noteq> None"

definition pending_len :: "arp_cache \<Rightarrow> ipv4_addr \<Rightarrow> nat" where
  "pending_len c ip =
     (case bt_get (arp_entries c) ip of
        Some (Pending queue) \<Rightarrow> length queue
      | Some (Resolved _) \<Rightarrow> 0
      | None \<Rightarrow> 0)"

section \<open>What the cache promises\<close>

text \<open>The packets parked on an address, and the well-formedness every operation keeps.\<close>

definition parked :: "arp_cache \<Rightarrow> ipv4_addr \<Rightarrow> bytes list" where
  "parked c ip = (case bt_get (arp_entries c) ip of Some (Pending queue) \<Rightarrow> queue | _ \<Rightarrow> [])"

definition arp_cache_ok :: "arp_cache \<Rightarrow> bool" where
  "arp_cache_ok c \<longleftrightarrow>
     bt_ok (arp_entries c) \<and> pending_addresses c \<le> MAX_PENDING_ADDRESSES \<and>
     (\<forall>(ip, e) \<in> set (arp_entries c).
        \<forall>q. e = Pending q \<longrightarrow> q \<noteq> [] \<and> length q \<le> MAX_PENDING_PER_ADDRESS)"

lemma arp_cache_okI:
  assumes "bt_ok (arp_entries c)" and "pending_addresses c \<le> MAX_PENDING_ADDRESSES"
    and "\<And>ip q. bt_get (arp_entries c) ip = Some (Pending q) \<Longrightarrow>
      q \<noteq> [] \<and> length q \<le> MAX_PENDING_PER_ADDRESS"
  shows "arp_cache_ok c"
  using assms bt.entries_get[OF assms(1)] by (auto simp: arp_cache_ok_def bt_entries_def)

lemma arp_cache_okD:
  assumes "arp_cache_ok c"
  shows "bt_ok (arp_entries c)" and "pending_addresses c \<le> MAX_PENDING_ADDRESSES"
    and "bt_get (arp_entries c) ip = Some (Pending q) \<Longrightarrow>
      q \<noteq> [] \<and> length q \<le> MAX_PENDING_PER_ADDRESS"
proof -
  show ok: "bt_ok (arp_entries c)" and "pending_addresses c \<le> MAX_PENDING_ADDRESSES"
    using assms by (simp_all add: arp_cache_ok_def)
  show "q \<noteq> [] \<and> length q \<le> MAX_PENDING_PER_ADDRESS"
    if "bt_get (arp_entries c) ip = Some (Pending q)"
    using that assms bt.entries_get[OF ok, of ip "Pending q"]
    by (auto simp: arp_cache_ok_def bt_entries_def)
qed

lemma is_pending_simps [simp]: "is_pending (Pending q)" "\<not> is_pending (Resolved m)"
  by (simp_all add: is_pending_def)

lemma is_pending_iff: "is_pending e \<longleftrightarrow> (\<exists>q. e = Pending q)"
  by (cases e) simp_all

lemma parked_simps:
  "bt_get (arp_entries c) ip = None \<Longrightarrow> parked c ip = []"
  "bt_get (arp_entries c) ip = Some (Resolved m) \<Longrightarrow> parked c ip = []"
  "bt_get (arp_entries c) ip = Some (Pending q) \<Longrightarrow> parked c ip = q"
  by (simp_all add: parked_def)

lemma parked_nonempty:
  "parked c ip \<noteq> [] \<longleftrightarrow> (\<exists>q. bt_get (arp_entries c) ip = Some (Pending q) \<and> q \<noteq> [])"
  by (simp add: parked_def split: option.splits arp_entry.splits)

lemma pending_len_parked: "pending_len c ip = length (parked c ip)"
  by (simp add: pending_len_def parked_def split: option.splits arp_entry.splits)

lemma pending_addresses_card:
  assumes "arp_cache_ok c"
  shows "pending_addresses c = card {ip. parked c ip \<noteq> []}"
proof -
  have "{ip. parked c ip \<noteq> []} = {ip. \<exists>e. bt_get (arp_entries c) ip = Some e \<and> is_pending e}"
    using arp_cache_okD(3)[OF assms]
    by (auto simp: parked_nonempty is_pending_iff)
  then show ?thesis
    using bt.count_card[OF arp_cache_okD(1)[OF assms], of is_pending]
    by (simp add: pending_addresses_def)
qed

section \<open>Every operation keeps the cache well-formed\<close>

lemma arp_cache_ok_new: "arp_cache_ok arp_cache_new"
  by (simp add: arp_cache_ok_def arp_cache_new_def pending_addresses_def bt_entries_def)

lemma arp_cache_ok_insert:
  assumes "arp_cache_ok c"
  shows "arp_cache_ok (snd (arp_insert ip mac c))"
proof (rule arp_cache_okI)
  note ok = arp_cache_okD[OF assms]
  show "bt_ok (arp_entries (snd (arp_insert ip mac c)))"
    by (simp add: arp_insert_def bt.ok_put ok(1))
  show "pending_addresses (snd (arp_insert ip mac c)) \<le> MAX_PENDING_ADDRESSES"
    using ok(2) bt.count_put_out[OF ok(1), of is_pending "Resolved mac" ip]
    by (simp add: arp_insert_def pending_addresses_def)
  show "q \<noteq> [] \<and> length q \<le> MAX_PENDING_PER_ADDRESS"
    if "bt_get (arp_entries (snd (arp_insert ip mac c))) ip' = Some (Pending q)" for ip' q
    using that ok(3)[of ip' q] by (simp add: arp_insert_def bt.get_put[OF ok(1)] split: if_splits)
qed

lemma arp_cache_ok_remove:
  assumes "arp_cache_ok c"
  shows "arp_cache_ok (arp_remove ip c)"
proof (rule arp_cache_okI)
  note ok = arp_cache_okD[OF assms]
  show "bt_ok (arp_entries (arp_remove ip c))" by (simp add: arp_remove_def bt.ok_del ok(1))
  show "pending_addresses (arp_remove ip c) \<le> MAX_PENDING_ADDRESSES"
    using ok(2) bt.count_del[OF ok(1), of is_pending ip]
    by (simp add: arp_remove_def pending_addresses_def)
  show "q \<noteq> [] \<and> length q \<le> MAX_PENDING_PER_ADDRESS"
    if "bt_get (arp_entries (arp_remove ip c)) ip' = Some (Pending q)" for ip' q
    using that ok(3)[of ip' q] by (simp add: arp_remove_def bt.get_del[OF ok(1)] split: if_splits)
qed

lemma arp_cache_ok_park:
  assumes "arp_cache_ok c" and "q \<noteq> []" and "length q \<le> MAX_PENDING_PER_ADDRESS"
    and "bt_get (arp_entries c) ip = None \<and> pending_addresses c < MAX_PENDING_ADDRESSES
      \<or> (\<exists>q'. bt_get (arp_entries c) ip = Some (Pending q'))"
  shows "arp_cache_ok (c\<lparr>arp_entries := bt_insert ip (Pending q) (arp_entries c)\<rparr>)"
proof (rule arp_cache_okI)
  note ok = arp_cache_okD[OF assms(1)]
  let ?c = "c\<lparr>arp_entries := bt_insert ip (Pending q) (arp_entries c)\<rparr>"
  show "bt_ok (arp_entries ?c)" by (simp add: bt.ok_put ok(1))
  show "pending_addresses ?c \<le> MAX_PENDING_ADDRESSES"
    using assms(4) ok(2) bt.count_put_new[OF ok(1), of ip is_pending "Pending q"]
      bt.count_put_same[OF ok(1), of ip _ is_pending "Pending q"]
    by (fastforce simp: pending_addresses_def)
  show "p \<noteq> [] \<and> length p \<le> MAX_PENDING_PER_ADDRESS"
    if "bt_get (arp_entries ?c) ip' = Some (Pending p)" for ip' p
    using that ok(3)[of ip' p] assms(2,3) by (simp add: bt.get_put[OF ok(1)] split: if_splits)
qed

lemma arp_cache_ok_queue:
  assumes "arp_cache_ok c"
  shows "arp_cache_ok (snd (arp_queue_pending ip frame c))"
  using assms
  by (auto simp: arp_queue_pending_def not_le MAX_PENDING_PER_ADDRESS_def
      split: option.splits arp_entry.splits intro!: arp_cache_ok_park)

section \<open>The contract the network interface relies on\<close>

text \<open>
  A table of neighbours that parks packets: looking up, learning and parking are related by
  what is known and what waits. A learned address hands back exactly what was parked on it,
  in order, and nothing stays behind; parking appends unless it reports a drop.
\<close>

locale neighbour_table =
  fixes empty :: 'c
    and lookup :: "'c \<Rightarrow> 'a \<Rightarrow> 'm option"
    and learn :: "'a \<Rightarrow> 'm \<Rightarrow> 'c \<Rightarrow> 'f list \<times> 'c"
    and park :: "'a \<Rightarrow> 'f \<Rightarrow> 'c \<Rightarrow> queued \<times> 'c"
    and waiting :: "'c \<Rightarrow> 'a \<Rightarrow> 'f list"
    and ok :: "'c \<Rightarrow> bool"
  assumes ok_empty: "ok empty"
    and ok_learn: "ok c \<Longrightarrow> ok (snd (learn a m c))"
    and ok_park: "ok c \<Longrightarrow> ok (snd (park a f c))"
    and empty_lookup: "lookup empty a = None"
    and empty_waiting: "waiting empty a = []"
    and learn_frames: "ok c \<Longrightarrow> fst (learn a m c) = waiting c a"
    and learn_lookup: "ok c \<Longrightarrow> lookup (snd (learn a m c)) = (lookup c)(a \<mapsto> m)"
    and learn_waiting: "ok c \<Longrightarrow> waiting (snd (learn a m c)) = (waiting c)(a := [])"
    and park_lookup: "ok c \<Longrightarrow> lookup (snd (park a f c)) = lookup c"
    and park_waiting: "ok c \<Longrightarrow> waiting (snd (park a f c)) =
          (if fst (park a f c) = Dropped then waiting c else (waiting c)(a := waiting c a @ [f]))"
    and park_first: "ok c \<Longrightarrow> fst (park a f c) = RequestNeeded \<Longrightarrow>
          lookup c a = None \<and> waiting c a = []"
    and resolved_idle: "ok c \<Longrightarrow> lookup c a \<noteq> None \<Longrightarrow> waiting c a = []"
begin

text \<open>
  Conservation, one step at a time: what was handed out for an address, followed by what
  still waits for it, is what was accepted for it, in order.
\<close>

lemma learn_conserves:
  assumes "ok c" and "given @ waiting c a = taken"
  shows "(if b = a then given @ fst (learn b m c) else given) @ waiting (snd (learn b m c)) a = taken"
  using assms by (auto simp: learn_frames learn_waiting)

lemma park_conserves:
  assumes "ok c" and "given @ waiting c a = taken"
  shows "given @ waiting (snd (park b f c)) a
    = (if b = a \<and> fst (park b f c) \<noteq> Dropped then taken @ [f] else taken)"
  using assms by (auto simp: park_waiting)

text \<open>A packet parked on an address comes out of the next reply from it.\<close>

lemma park_learn:
  assumes "ok c" and "fst (park a f c) \<noteq> Dropped"
  shows "fst (learn a m (snd (park a f c))) = waiting c a @ [f]"
  using assms by (simp add: learn_frames ok_park park_waiting)

text \<open>Learning twice drains once.\<close>

lemma learn_again:
  assumes "ok c"
  shows "fst (learn a m' (snd (learn a m c))) = []"
  using assms by (simp add: learn_frames ok_learn learn_waiting)

end

lemma arp_lookup_iff: "arp_lookup c ip = Some m \<longleftrightarrow> bt_get (arp_entries c) ip = Some (Resolved m)"
  by (simp add: arp_lookup_def split: option.splits arp_entry.splits)

lemma arp_insert_lookup:
  "arp_cache_ok c \<Longrightarrow> arp_lookup (snd (arp_insert ip mac c)) = (arp_lookup c)(ip \<mapsto> mac)"
  using arp_cache_okD(1)[of c]
  by (auto simp: arp_insert_def arp_lookup_def bt.get_put fun_eq_iff)

lemma arp_insert_parked:
  "arp_cache_ok c \<Longrightarrow> parked (snd (arp_insert ip mac c)) = (parked c)(ip := [])"
  using arp_cache_okD(1)[of c] by (auto simp: arp_insert_def parked_def bt.get_put fun_eq_iff)

lemma arp_insert_frames: "fst (arp_insert ip mac c) = parked c ip"
  by (simp add: arp_insert_def parked_def split: option.splits arp_entry.splits)

lemma arp_queue_lookup:
  "arp_cache_ok c \<Longrightarrow> arp_lookup (snd (arp_queue_pending ip f c)) = arp_lookup c"
  using arp_cache_okD(1)[of c]
  by (auto simp: arp_queue_pending_def arp_lookup_def bt.get_put fun_eq_iff
      split: option.splits arp_entry.splits)

lemma arp_queue_parked:
  "arp_cache_ok c \<Longrightarrow> parked (snd (arp_queue_pending ip f c)) =
     (if fst (arp_queue_pending ip f c) = Dropped then parked c
      else (parked c)(ip := parked c ip @ [f]))"
  using arp_cache_okD(1)[of c]
  by (auto simp: arp_queue_pending_def parked_def bt.get_put fun_eq_iff
      split: option.splits arp_entry.splits)

interpretation arp: neighbour_table arp_cache_new arp_lookup arp_insert arp_queue_pending parked
  arp_cache_ok
proof
  fix c a f
  show "arp_cache_ok c \<Longrightarrow> fst (arp_queue_pending a f c) = RequestNeeded \<Longrightarrow>
      arp_lookup c a = None \<and> parked c a = []"
    by (auto simp: arp_queue_pending_def arp_lookup_def parked_def
        split: option.splits arp_entry.splits if_splits)
  show "arp_cache_ok c \<Longrightarrow> arp_lookup c a \<noteq> None \<Longrightarrow> parked c a = []"
    by (auto simp: arp_lookup_def parked_def split: option.splits arp_entry.splits)
qed (simp_all add: arp_cache_ok_new arp_cache_ok_insert arp_cache_ok_queue arp_insert_frames
    arp_insert_lookup arp_insert_parked arp_queue_lookup arp_queue_parked,
    simp_all add: arp_cache_new_def arp_lookup_def parked_def)

section \<open>Sequences of operations\<close>

text \<open>The calls a client can make, what each returns, and a run of them.\<close>

datatype arp_op =
    OpLookup ipv4_addr
  | OpInsert ipv4_addr mac_address
  | OpQueue ipv4_addr bytes
  | OpRemove ipv4_addr
  | OpPendingLen ipv4_addr
  | OpPendingAddresses

datatype arp_out =
    OutMac "mac_address option"
  | OutFrames "bytes list"
  | OutQueued queued
  | OutDone
  | OutCount nat

fun arp_step :: "arp_op \<Rightarrow> arp_cache \<Rightarrow> arp_out \<times> arp_cache" where
  "arp_step (OpLookup ip) c = (OutMac (arp_lookup c ip), c)"
| "arp_step (OpInsert ip mac) c = apfst OutFrames (arp_insert ip mac c)"
| "arp_step (OpQueue ip frame) c = apfst OutQueued (arp_queue_pending ip frame c)"
| "arp_step (OpRemove ip) c = (OutDone, arp_remove ip c)"
| "arp_step (OpPendingLen ip) c = (OutCount (pending_len c ip), c)"
| "arp_step OpPendingAddresses c = (OutCount (pending_addresses c), c)"

fun run_ops :: "('op \<Rightarrow> 's \<Rightarrow> 'out \<times> 's) \<Rightarrow> 'op list \<Rightarrow> 's \<Rightarrow> 'out list \<times> 's" where
  "run_ops step [] s = ([], s)"
| "run_ops step (x # xs) s =
     (let (out, s') = step x s; (outs, s'') = run_ops step xs s' in (out # outs, s''))"

abbreviation arp_run :: "arp_op list \<Rightarrow> arp_out list \<times> arp_cache" where
  "arp_run ops \<equiv> run_ops arp_step ops arp_cache_new"

lemma run_ops_Cons:
  "run_ops step (x # xs) s =
     (fst (step x s) # fst (run_ops step xs (snd (step x s))), snd (run_ops step xs (snd (step x s))))"
  by (simp add: Let_def split: prod.splits)

lemma arp_cache_ok_step: "arp_cache_ok c \<Longrightarrow> arp_cache_ok (snd (arp_step x c))"
  by (cases x) (simp_all add: arp_cache_ok_insert arp_cache_ok_queue arp_cache_ok_remove)

lemma arp_cache_ok_run: "arp_cache_ok c \<Longrightarrow> arp_cache_ok (snd (run_ops arp_step ops c))"
  by (induction ops arbitrary: c) (simp_all add: run_ops_Cons arp_cache_ok_step del: run_ops.simps(2))

text \<open>
  The specification: what is known and what waits, as functions of the address, with the two
  limits of the queue.
\<close>

record neighbours =
  known :: "ipv4_addr \<Rightarrow> mac_address option"
  waits :: "ipv4_addr \<Rightarrow> bytes list"

definition spec_queue :: "ipv4_addr \<Rightarrow> bytes \<Rightarrow> neighbours \<Rightarrow> queued \<times> neighbours" where
  "spec_queue ip frame s =
     (let parked_now = s\<lparr>waits := (waits s)(ip := waits s ip @ [frame])\<rparr> in
      if known s ip \<noteq> None then (Dropped, s)
      else if waits s ip = [] then
        (if card {a. waits s a \<noteq> []} < 16 then (RequestNeeded, parked_now) else (Dropped, s))
      else if length (waits s ip) < 4 then (AlreadyPending, parked_now) else (Dropped, s))"

fun spec_step :: "arp_op \<Rightarrow> neighbours \<Rightarrow> arp_out \<times> neighbours" where
  "spec_step (OpLookup ip) s = (OutMac (known s ip), s)"
| "spec_step (OpInsert ip mac) s =
     (OutFrames (waits s ip), s\<lparr>known := (known s)(ip \<mapsto> mac), waits := (waits s)(ip := [])\<rparr>)"
| "spec_step (OpQueue ip frame) s = apfst OutQueued (spec_queue ip frame s)"
| "spec_step (OpRemove ip) s =
     (OutDone, s\<lparr>known := (known s)(ip := None), waits := (waits s)(ip := [])\<rparr>)"
| "spec_step (OpPendingLen ip) s = (OutCount (length (waits s ip)), s)"
| "spec_step OpPendingAddresses s = (OutCount (card {a. waits s a \<noteq> []}), s)"

definition neighbours_of :: "arp_cache \<Rightarrow> neighbours" where
  "neighbours_of c = \<lparr> known = arp_lookup c, waits = parked c \<rparr>"

lemma arp_remove_abs:
  assumes "arp_cache_ok c"
  shows "arp_lookup (arp_remove ip c) = (arp_lookup c)(ip := None)"
    and "parked (arp_remove ip c) = (parked c)(ip := [])"
  using arp_cache_okD(1)[OF assms]
  by (auto simp: arp_remove_def arp_lookup_def parked_def bt.get_del fun_eq_iff)

lemma arp_queue_refines:
  assumes "arp_cache_ok c"
  shows "spec_queue ip frame (neighbours_of c)
    = apsnd neighbours_of (arp_queue_pending ip frame c)"
proof -
  note abs = arp_queue_lookup[OF assms, of ip frame] arp_queue_parked[OF assms, of ip frame]
  note len = pending_addresses_card[OF assms, symmetric]
  show ?thesis
  proof (cases "bt_get (arp_entries c) ip")
    case None
    then show ?thesis
      using abs by (auto simp: spec_queue_def neighbours_of_def arp_queue_pending_def arp_lookup_def
          parked_simps len MAX_PENDING_ADDRESSES_def split: if_splits)
  next
    case (Some e)
    show ?thesis
    proof (cases e)
      case (Resolved m)
      with Some show ?thesis
        by (simp add: spec_queue_def neighbours_of_def arp_queue_pending_def arp_lookup_def)
    next
      case (Pending q)
      then have "q \<noteq> []" using Some arp_cache_okD(3)[OF assms] by blast
      with Some Pending abs show ?thesis
        by (auto simp: spec_queue_def neighbours_of_def arp_queue_pending_def arp_lookup_def
            parked_simps MAX_PENDING_PER_ADDRESS_def split: if_splits)
    qed
  qed
qed

lemma arp_step_refines:
  assumes "arp_cache_ok c"
  shows "spec_step x (neighbours_of c) = apsnd neighbours_of (arp_step x c)"
proof (cases x)
  case (OpQueue ip frame)
  then show ?thesis
    using arp_queue_refines[OF assms] by (simp add: apfst_def apsnd_def map_prod_def split: prod.splits)
next
  case (OpInsert ip mac)
  then show ?thesis
    using arp_insert_lookup[OF assms, of ip mac] arp_insert_parked[OF assms, of ip mac]
      arp_insert_frames[of ip mac c]
    by (cases "arp_insert ip mac c") (simp add: neighbours_of_def)
qed (simp_all add: neighbours_of_def arp_remove_abs[OF assms] pending_len_parked
    pending_addresses_card[OF assms])

lemma arp_run_refines:
  "arp_cache_ok c \<Longrightarrow>
     run_ops spec_step ops (neighbours_of c) = apsnd neighbours_of (run_ops arp_step ops c)"
proof (induction ops arbitrary: c)
  case (Cons x xs)
  show ?case
    unfolding run_ops_Cons arp_step_refines[OF Cons.prems] fst_apsnd snd_apsnd
      Cons.IH[OF arp_cache_ok_step[OF Cons.prems]] by simp
qed simp

section \<open>Properties\<close>

text \<open>C5: whatever sequence of calls is made on a new cache, every answer it gives is the
  answer of the specification: the last hardware address learned and not removed since, the
  packets parked since, and the outcomes of parking under the limits of four packets an
  address and sixteen waiting addresses.\<close>

theorem arp_cache_refines_spec:
  "fst (arp_run ops) = fst (run_ops spec_step ops \<lparr> known = \<lambda>_. None, waits = \<lambda>_. [] \<rparr>)"
proof -
  have "neighbours_of arp_cache_new = \<lparr> known = \<lambda>_. None, waits = \<lambda>_. [] \<rparr>"
    by (simp add: neighbours_of_def fun_eq_iff arp.empty_lookup arp.empty_waiting)
  then show ?thesis using arp_run_refines[OF arp_cache_ok_new, of ops] by simp
qed

text \<open>C21: the memory received traffic can make the cache hold is bounded: after any sequence
  of calls no address has more than four packets waiting and no more than sixteen addresses
  wait.\<close>

theorem arp_cache_bounded:
  "pending_len (snd (arp_run ops)) ip \<le> 4 \<and> pending_addresses (snd (arp_run ops)) \<le> 16"
proof -
  have ok: "arp_cache_ok (snd (arp_run ops))" by (rule arp_cache_ok_run[OF arp_cache_ok_new])
  then have "pending_len (snd (arp_run ops)) ip \<le> 4"
    using arp_cache_okD(3)[OF ok, of ip]
    by (auto simp: pending_len_def MAX_PENDING_PER_ADDRESS_def split: option.splits arp_entry.splits)
  then show ?thesis using arp_cache_okD(2)[OF ok] by (simp add: MAX_PENDING_ADDRESSES_def)
qed

text \<open>The packets a run accepted for an address, and those it handed out for it.\<close>

fun accepted_for :: "ipv4_addr \<Rightarrow> arp_op list \<Rightarrow> arp_out list \<Rightarrow> bytes list" where
  "accepted_for ip (OpQueue a frame # xs) (OutQueued q # outs) =
     (if a = ip \<and> q \<noteq> Dropped then [frame] else []) @ accepted_for ip xs outs"
| "accepted_for ip (_ # xs) (_ # outs) = accepted_for ip xs outs"
| "accepted_for ip _ _ = []"

fun handed_out :: "ipv4_addr \<Rightarrow> arp_op list \<Rightarrow> arp_out list \<Rightarrow> bytes list" where
  "handed_out ip (OpInsert a mac # xs) (OutFrames frames # outs) =
     (if a = ip then frames else []) @ handed_out ip xs outs"
| "handed_out ip (_ # xs) (_ # outs) = handed_out ip xs outs"
| "handed_out ip _ _ = []"

lemma arp_run_conserves:
  assumes "arp_cache_ok c" and "OpRemove ip \<notin> set ops"
  shows "handed_out ip ops (fst (run_ops arp_step ops c)) @ parked (snd (run_ops arp_step ops c)) ip
    = parked c ip @ accepted_for ip ops (fst (run_ops arp_step ops c))"
  using assms
proof (induction ops arbitrary: c)
  case (Cons x xs)
  note ok = arp_cache_ok_step[OF Cons.prems(1), of x]
  have IH: "handed_out ip xs (fst (run_ops arp_step xs (snd (arp_step x c))))
      @ parked (snd (run_ops arp_step xs (snd (arp_step x c)))) ip
    = parked (snd (arp_step x c)) ip
      @ accepted_for ip xs (fst (run_ops arp_step xs (snd (arp_step x c))))"
    using Cons.IH[OF ok] Cons.prems(2) by simp
  show ?case
  proof (cases x)
    case (OpInsert a m)
    then show ?thesis
      using IH Cons.prems(1) arp.learn_waiting[of c a m] arp_insert_frames[of a m c]
      unfolding run_ops_Cons by simp
  next
    case (OpQueue a f)
    then show ?thesis
      using IH arp.park_waiting[OF Cons.prems(1), of a f]
      unfolding run_ops_Cons by (auto split: if_splits)
  next
    case (OpRemove a)
    then show ?thesis
      using IH Cons.prems arp_remove_abs(2)[OF Cons.prems(1), of a] unfolding run_ops_Cons by simp
  qed (use IH in \<open>simp_all add: run_ops_Cons del: run_ops.simps(2)\<close>)
qed simp

text \<open>C20: no parked packet is lost, duplicated or reordered. As long as an address is not
  removed, the packets handed out for it, followed by those still waiting, are the packets
  accepted for it in the order they were accepted.\<close>

theorem arp_cache_conserves:
  assumes "OpRemove ip \<notin> set ops"
  shows "handed_out ip ops (fst (arp_run ops)) @ parked (snd (arp_run ops)) ip
    = accepted_for ip ops (fst (arp_run ops))"
  using arp_run_conserves[OF arp_cache_ok_new assms] by (simp add: arp.empty_waiting)

lemmas [eval_simps] =
  arp_cache_new_def arp_lookup_def arp_insert_def arp_queue_pending_def arp_remove_def
  pending_addresses_def pending_len_def parked_def bt_entries_def MAX_PENDING_ADDRESSES_def
  MAX_PENDING_PER_ADDRESS_def

theorem arp_cache_conserves_witness:
  "let ip = Ipv4Addr 192 168 1 1; other = Ipv4Addr 192 168 1 2;
       ops = [OpQueue ip [1], OpQueue other [2], OpQueue ip [3], OpInsert ip mac_broadcast,
              OpQueue ip [4]]
   in handed_out ip ops (fst (arp_run ops)) @ parked (snd (arp_run ops)) ip
        = accepted_for ip ops (fst (arp_run ops))
      \<and> accepted_for ip ops (fst (arp_run ops)) = [[1], [3]]"
proof -
  let ?ip = "Ipv4Addr 192 168 1 1" and ?other = "Ipv4Addr 192 168 1 2"
  let ?ops = "[OpQueue ?ip [1], OpQueue ?other [2], OpQueue ?ip [3], OpInsert ?ip mac_broadcast,
    OpQueue ?ip [4]]"
  have "OpRemove ?ip \<notin> set ?ops" by simp
  moreover have "accepted_for ?ip ?ops (fst (arp_run ?ops)) = [[1], [3]]"
    by (simp add: eval_simps less_ipv4_addr_def u32_of_addr_def)
  ultimately show ?thesis using arp_cache_conserves[of ?ip ?ops] by simp
qed

end
