(* ===== verification/Dhcp_Options.thy ===== *)
theory Dhcp_Options
  imports Addresses
begin

text \<open>
  The options field of a DHCP message (\<open>net/src/dhcp.rs\<close>): the message types and the walk
  over tag, length and value. The walk is compared with a grammar: an options field is a run
  of pads and of options with at most 255 bytes of value, closed by an End tag.
\<close>

section \<open>The code\<close>

datatype dhcp_error =
    TooShort | NotAReply | BadMagicCookie | XidMismatch | ClientMacMismatch | InvalidTLV
  | WrongMessageType | MissingData

datatype dhcp_message_type =
  Discover | Offer | DhcpRequest | Decline | Ack | Nak | Release | Inform

fun u8_of_message_type :: "dhcp_message_type \<Rightarrow> u8" where
  "u8_of_message_type Discover = 1"
| "u8_of_message_type Offer = 2"
| "u8_of_message_type DhcpRequest = 3"
| "u8_of_message_type Decline = 4"
| "u8_of_message_type Ack = 5"
| "u8_of_message_type Nak = 6"
| "u8_of_message_type Release = 7"
| "u8_of_message_type Inform = 8"

definition message_type_try_from :: "u8 \<Rightarrow> unit + dhcp_message_type" where
  "message_type_try_from value =
     (if value = 1 then Inr Discover
      else if value = 2 then Inr Offer
      else if value = 3 then Inr DhcpRequest
      else if value = 4 then Inr Decline
      else if value = 5 then Inr Ack
      else if value = 6 then Inr Nak
      else if value = 7 then Inr Release
      else if value = 8 then Inr Inform
      else Inl ())"

definition OPT_PAD :: u8 where "OPT_PAD = 0"
definition OPT_SUBNET_MASK :: u8 where "OPT_SUBNET_MASK = 1"
definition OPT_ROUTER :: u8 where "OPT_ROUTER = 3"
definition OPT_REQUESTED_ADDR :: u8 where "OPT_REQUESTED_ADDR = 50"
definition OPT_MESSAGE_TYPE :: u8 where "OPT_MESSAGE_TYPE = 53"
definition OPT_SERVER_ID :: u8 where "OPT_SERVER_ID = 54"
definition OPT_PARAMETER_REQUEST_LIST :: u8 where "OPT_PARAMETER_REQUEST_LIST = 55"
definition OPT_END :: u8 where "OPT_END = 255"

lemmas opt_defs =
  OPT_PAD_def OPT_SUBNET_MASK_def OPT_ROUTER_def OPT_REQUESTED_ADDR_def OPT_MESSAGE_TYPE_def
  OPT_SERVER_ID_def OPT_PARAMETER_REQUEST_LIST_def OPT_END_def

record dhcp_options =
  message_type :: "dhcp_message_type option"
  opt_subnet_mask :: "ipv4_addr option"
  opt_router :: "ipv4_addr option"
  opt_server_id :: "ipv4_addr option"

definition options_default :: dhcp_options where
  "options_default =
     \<lparr> message_type = None, opt_subnet_mask = None, opt_router = None, opt_server_id = None \<rparr>"

definition parse_addr :: "bytes \<Rightarrow> dhcp_error + ipv4_addr" where
  "parse_addr value = ok_or InvalidTLV (addr_from_slice value)"

text \<open>\<open>value.first().filter(|_| value.len() == 1).and_then(..).ok_or(InvalidTLV)\<close>.\<close>

definition parse_message_type :: "bytes \<Rightarrow> dhcp_error + dhcp_message_type" where
  "parse_message_type value =
     (case value of
        [] \<Rightarrow> Inl InvalidTLV
      | ty # _ \<Rightarrow>
          if length value = 1
          then (case message_type_try_from ty of Inl _ \<Rightarrow> Inl InvalidTLV | Inr t \<Rightarrow> Inr t)
          else Inl InvalidTLV)"

text \<open>The \<open>match tag\<close> of the loop body: what one option does to what was parsed so far.\<close>

definition apply_option :: "u8 \<Rightarrow> bytes \<Rightarrow> dhcp_options \<Rightarrow> (dhcp_error + dhcp_options) option" where
  "apply_option tag value parsed =
     (if tag = OPT_SUBNET_MASK then
        try_result (parse_addr value) (\<lambda>a. Some (Inr (parsed\<lparr>opt_subnet_mask := Some a\<rparr>)))
      else if tag = OPT_ROUTER then
        (if value = [] \<or> length value mod 4 \<noteq> 0 then Some (Inl InvalidTLV)
         else do {
           first \<leftarrow> slice_range 0 4 value;
           try_result (parse_addr first) (\<lambda>a. Some (Inr (parsed\<lparr>opt_router := Some a\<rparr>))) })
      else if tag = OPT_SERVER_ID then
        try_result (parse_addr value) (\<lambda>a. Some (Inr (parsed\<lparr>opt_server_id := Some a\<rparr>)))
      else if tag = OPT_MESSAGE_TYPE then
        try_result (parse_message_type value) (\<lambda>t. Some (Inr (parsed\<lparr>message_type := Some t\<rparr>)))
      else Some (Inr parsed))"

text \<open>
  The \<open>while cur < options.len()\<close> loop. \<open>options[cur]\<close> panics out of bounds,
  \<open>options.get(..)\<close> does not.
\<close>

function parse_options_from ::
  "bytes \<Rightarrow> nat \<Rightarrow> dhcp_options \<Rightarrow> (dhcp_error + dhcp_options) option" where
  "parse_options_from options cur parsed =
     (if cur < length options then do {
        tag \<leftarrow> slice_get cur options;
        if tag = OPT_PAD then parse_options_from options (cur + 1) parsed
        else if tag = OPT_END then Some (Inr parsed)
        else case slice_get (cur + 1) options of
          None \<Rightarrow> Some (Inl InvalidTLV)
        | Some len8 \<Rightarrow>
            let len = unat len8 in
            (case slice_range (cur + 2) (cur + 2 + len) options of
               None \<Rightarrow> Some (Inl InvalidTLV)
             | Some value \<Rightarrow> do {
                 result \<leftarrow> apply_option tag value parsed;
                 case result of
                   Inl e \<Rightarrow> Some (Inl e)
                 | Inr parsed' \<Rightarrow> parse_options_from options (cur + 2 + len) parsed' })
      } else Some (Inl InvalidTLV))"
  by pat_completeness auto
termination
  by (relation "measure (\<lambda>(options, cur, parsed). length options - cur)") auto

declare parse_options_from.simps [simp del]

definition parse_options :: "bytes \<Rightarrow> (dhcp_error + dhcp_options) option" where
  "parse_options options = parse_options_from options 0 options_default"

section \<open>Message types\<close>

lemma message_type_roundtrip: "message_type_try_from v = Inr t \<longleftrightarrow> v = u8_of_message_type t"
  by (cases t) (auto simp: message_type_try_from_def)

section \<open>One option\<close>

text \<open>The effect of an option, without the slice that cannot fail.\<close>

definition option_effect :: "u8 \<Rightarrow> bytes \<Rightarrow> dhcp_options \<Rightarrow> dhcp_options option" where
  "option_effect tag value parsed =
     (if tag = OPT_SUBNET_MASK then
        map_option (\<lambda>a. parsed\<lparr>opt_subnet_mask := Some a\<rparr>) (addr_from_slice value)
      else if tag = OPT_ROUTER then
        (if value \<noteq> [] \<and> 4 dvd length value
         then map_option (\<lambda>a. parsed\<lparr>opt_router := Some a\<rparr>) (addr_from_slice (take 4 value))
         else None)
      else if tag = OPT_SERVER_ID then
        map_option (\<lambda>a. parsed\<lparr>opt_server_id := Some a\<rparr>) (addr_from_slice value)
      else if tag = OPT_MESSAGE_TYPE then
        (case value of
           [v] \<Rightarrow> (case message_type_try_from v of
                     Inl _ \<Rightarrow> None | Inr t \<Rightarrow> Some (parsed\<lparr>message_type := Some t\<rparr>))
         | _ \<Rightarrow> None)
      else Some parsed)"

lemma apply_option_effect:
  "apply_option tag value parsed = Some (ok_or InvalidTLV (option_effect tag value parsed))"
proof -
  have addr: "try_result (parse_addr v) (\<lambda>a. Some (Inr (f a)))
      = Some (ok_or InvalidTLV (map_option f (addr_from_slice v)))" for v and f :: "_ \<Rightarrow> dhcp_options"
    by (cases "addr_from_slice v") (simp_all add: parse_addr_def)
  have type: "try_result (parse_message_type v) (\<lambda>t. Some (Inr (f t)))
      = Some (ok_or InvalidTLV (case v of
           [b] \<Rightarrow> (case message_type_try_from b of Inl _ \<Rightarrow> None | Inr t \<Rightarrow> Some (f t))
         | _ \<Rightarrow> None))" for v and f :: "_ \<Rightarrow> dhcp_options"
    by (auto simp: parse_message_type_def split: list.splits sum.splits)
  have first: "slice_range 0 4 value = Some (take 4 value)"
    if "value \<noteq> []" and "4 dvd length value"
  proof -
    have "4 \<le> length value" using that by (cases "value") (auto dest: dvd_imp_le)
    then show ?thesis by (simp add: slice_range_def)
  qed
  show ?thesis
    unfolding apply_option_def option_effect_def addr type
    using first by (simp add: mod_eq_0_iff_dvd[symmetric] addr)
qed

section \<open>The walk, by the bytes that are left\<close>

function parse_rest :: "bytes \<Rightarrow> dhcp_options \<Rightarrow> dhcp_options option" where
  "parse_rest [] parsed = None"
| "parse_rest (tag # bs) parsed =
     (if tag = OPT_PAD then parse_rest bs parsed
      else if tag = OPT_END then Some parsed
      else case bs of
        [] \<Rightarrow> None
      | len # rest \<Rightarrow>
          if unat len \<le> length rest
          then (case option_effect tag (take (unat len) rest) parsed of
                  None \<Rightarrow> None
                | Some parsed' \<Rightarrow> parse_rest (drop (unat len) rest) parsed')
          else None)"
  by pat_completeness auto
termination
  by (relation "measure (\<lambda>(bs, parsed). length bs)") auto

text \<open>One turn of the loop, read off the bytes from the cursor on.\<close>

lemma parse_options_step:
  assumes "drop cur options = tag # bs"
  shows "parse_options_from options cur parsed =
    (if tag = OPT_PAD then parse_options_from options (cur + 1) parsed
     else if tag = OPT_END then Some (Inr parsed)
     else case bs of
       [] \<Rightarrow> Some (Inl InvalidTLV)
     | len # rest \<Rightarrow>
         if unat len \<le> length rest
         then (case option_effect tag (take (unat len) rest) parsed of
                 None \<Rightarrow> Some (Inl InvalidTLV)
               | Some parsed' \<Rightarrow> parse_options_from options (cur + 2 + unat len) parsed')
         else Some (Inl InvalidTLV))"
proof -
  have cur: "cur < length options" using assms by (metis drop_all leI list.distinct(1))
  have tag: "slice_get cur options = Some tag"
    using assms cur by (metis nth_via_drop slice_get_def)
  have bs: "drop (Suc cur) options = bs" using assms by (metis drop_Suc list.sel(3) tl_drop)
  show ?thesis
  proof (cases bs)
    case Nil
    then have "slice_get (Suc cur) options = None" using bs by (simp add: slice_get_def)
    with Nil cur show ?thesis by (subst parse_options_from.simps) (simp add: tag)
  next
    case (Cons len rest)
    then have "Suc cur < length options" using bs by (metis drop_all leI list.distinct(1))
    then have len: "slice_get (Suc cur) options = Some len"
      using bs Cons by (simp add: slice_get_def nth_via_drop)
    have rest: "drop (cur + 2) options = rest"
      using bs Cons by (metis add_2_eq_Suc' drop_Suc list.sel(3) tl_drop)
    then have n: "length options = cur + 2 + length rest"
      using \<open>Suc cur < length options\<close> by (metis add_2_eq_Suc' length_drop le_add_diff_inverse Suc_leI)
    have "slice_range (cur + 2) (cur + 2 + unat len) options
        = (if unat len \<le> length rest then Some (take (unat len) rest) else None)"
      using rest by (simp add: slice_range_def n)
    with cur Cons show ?thesis
      by (subst parse_options_from.simps)
        (auto simp: tag len apply_option_effect Let_def split: option.splits)
  qed
qed

lemma parse_options_rest:
  "drop cur options = bs \<Longrightarrow>
     parse_options_from options cur parsed = Some (ok_or InvalidTLV (parse_rest bs parsed))"
proof (induction bs parsed arbitrary: cur rule: parse_rest.induct)
  case (1 parsed)
  then show ?case by (subst parse_options_from.simps) simp
next
  case (2 tag bs parsed)
  have bs: "drop (cur + 1) options = bs"
    using "2.prems" by (metis Suc_eq_plus1 drop_Suc list.sel(3) tl_drop)
  have rest: "drop (cur + 2 + n) options = drop n rest" if "bs = len # rest" for len rest n
    using bs that by (metis add_2_eq_Suc' Suc_eq_plus1 drop_Suc drop_drop list.sel(3) tl_drop add.commute)
  show ?case
    unfolding parse_options_step[OF "2.prems"]
    using "2.IH"(1)[OF _ bs] "2.IH"(2)[OF _ _ _ _ _ rest]
    by (auto split: list.splits option.splits)
qed

section \<open>The grammar of the options field\<close>

datatype tlv = Pad | Opt u8 bytes

fun tlv_bytes :: "tlv \<Rightarrow> bytes" where
  "tlv_bytes Pad = [OPT_PAD]"
| "tlv_bytes (Opt tag val) = tag # of_nat (length val) # val"

fun tlv_ok :: "tlv \<Rightarrow> bool" where
  "tlv_ok Pad = True"
| "tlv_ok (Opt tag val) \<longleftrightarrow> tag \<noteq> OPT_PAD \<and> tag \<noteq> OPT_END \<and> length val < 256"

fun tlv_effect :: "tlv \<Rightarrow> dhcp_options \<Rightarrow> dhcp_options option" where
  "tlv_effect Pad parsed = Some parsed"
| "tlv_effect (Opt tag val) parsed = option_effect tag val parsed"

fun tlvs_effect :: "tlv list \<Rightarrow> dhcp_options \<Rightarrow> dhcp_options option" where
  "tlvs_effect [] parsed = Some parsed"
| "tlvs_effect (x # xs) parsed = tlv_effect x parsed \<bind> tlvs_effect xs"

definition tlvs_bytes :: "tlv list \<Rightarrow> bytes" where
  "tlvs_bytes items = concat (map tlv_bytes items)"

lemma tlvs_bytes_simps [simp]:
  "tlvs_bytes [] = []" "tlvs_bytes (x # xs) = tlv_bytes x @ tlvs_bytes xs"
  by (simp_all add: tlvs_bytes_def)

lemma parse_rest_complete:
  "list_all tlv_ok items \<Longrightarrow>
     parse_rest (tlvs_bytes items @ OPT_END # rest) parsed = tlvs_effect items parsed"
proof (induction items arbitrary: parsed)
  case (Cons x xs)
  show ?case
  proof (cases x)
    case (Opt tag val)
    with Cons.prems have "unat (of_nat (length val) :: u8) = length val"
      by (intro unat_of_nat_small) simp
    with Cons Opt show ?thesis by (auto split: option.splits)
  qed (use Cons in auto)
qed (simp add: OPT_PAD_def OPT_END_def)

lemma parse_rest_sound:
  "parse_rest bs parsed = Some result \<Longrightarrow>
     \<exists>items rest. bs = tlvs_bytes items @ OPT_END # rest \<and> list_all tlv_ok items
       \<and> tlvs_effect items parsed = Some result"
proof (induction bs parsed rule: parse_rest.induct)
  case (2 tag bs parsed)
  consider "tag = OPT_PAD" | "tag \<noteq> OPT_PAD" "tag = OPT_END" | "tag \<noteq> OPT_PAD" "tag \<noteq> OPT_END"
    by blast
  then show ?case
  proof cases
    case 1
    then obtain items rest where "bs = tlvs_bytes items @ OPT_END # rest"
      "list_all tlv_ok items" "tlvs_effect items parsed = Some result"
      using "2.IH"(1)[OF 1] "2.prems" by auto
    with 1 show ?thesis by (intro exI[of _ "Pad # items"] exI[of _ rest]) simp
  next
    case 2
    then show ?thesis
      using "2.prems" by (intro exI[of _ "[]"] exI[of _ bs]) simp
  next
    case 3
    with "2.prems" obtain len rest p where bs: "bs = len # rest" "unat len \<le> length rest"
      and p: "option_effect tag (take (unat len) rest) parsed = Some p"
        "parse_rest (drop (unat len) rest) p = Some result"
      by (auto split: list.splits if_splits option.splits)
    obtain items rest' where "drop (unat len) rest = tlvs_bytes items @ OPT_END # rest'"
      "list_all tlv_ok items" "tlvs_effect items p = Some result"
      using "2.IH"(2)[OF 3 bs p(1) p(2)] by blast
    then show ?thesis
      using 3 bs p(1) unat_byte_bound[of len] append_take_drop_id[of "unat len" rest]
      by (intro exI[of _ "Opt tag (take (unat len) rest) # items"] exI[of _ rest'])
        (simp add: min_absorb2)
  qed
qed simp

lemma parse_options_no_panic: "parse_options bs \<noteq> None"
  by (simp add: parse_options_def parse_options_rest)

lemma parse_options_accepts:
  "parse_options bs = Some (Inr result) \<longleftrightarrow>
     (\<exists>items rest. bs = tlvs_bytes items @ OPT_END # rest \<and> list_all tlv_ok items
        \<and> tlvs_effect items options_default = Some result)"
proof -
  have "parse_options bs = Some (Inr result) \<longleftrightarrow> parse_rest bs options_default = Some result"
    by (cases "parse_rest bs options_default") (simp_all add: parse_options_def parse_options_rest)
  then show ?thesis using parse_rest_sound parse_rest_complete by fastforce
qed

lemma parse_options_error: "parse_options bs = Some (Inl e) \<Longrightarrow> e = InvalidTLV"
  by (cases "parse_rest bs options_default") (simp_all add: parse_options_def parse_options_rest)

end
