(* ===== verification/Dhcp.thy ===== *)
theory Dhcp
  imports Dhcp_Options
begin

text \<open>
  DHCP messages (\<open>net/src/dhcp.rs\<close>): the two messages a client broadcasts, written range by
  range into a zeroed array of 300 bytes, and the reading of a server's offer or
  acknowledgement.
\<close>

section \<open>The code\<close>

definition CLIENT_PORT :: u16 where "CLIENT_PORT = 68"
definition SERVER_PORT :: u16 where "SERVER_PORT = 67"
definition FIXED_LEN :: nat where "FIXED_LEN = 240"
definition MESSAGE_LEN :: nat where "MESSAGE_LEN = 300"
definition MAGIC_COOKIE :: bytes where "MAGIC_COOKIE = [0x63, 0x82, 0x53, 0x63]"
definition OP_BOOT_REQUEST :: u8 where "OP_BOOT_REQUEST = 1"
definition OP_BOOT_REPLY :: u8 where "OP_BOOT_REPLY = 2"
definition HTYPE_ETHERNET :: u8 where "HTYPE_ETHERNET = 1"
definition HLEN_ETHERNET :: u8 where "HLEN_ETHERNET = 6"
definition FLAG_BROADCAST :: u16 where "FLAG_BROADCAST = 0x8000"
definition CHADDR_LEN :: nat where "CHADDR_LEN = 16"

definition PARAMETER_REQUEST :: bytes where
  "PARAMETER_REQUEST = [OPT_PARAMETER_REQUEST_LIST, 2, OPT_SUBNET_MASK, OPT_ROUTER]"

lemmas dhcp_consts =
  FIXED_LEN_def MESSAGE_LEN_def MAGIC_COOKIE_def OP_BOOT_REQUEST_def OP_BOOT_REPLY_def
  HTYPE_ETHERNET_def HLEN_ETHERNET_def FLAG_BROADCAST_def CHADDR_LEN_def PARAMETER_REQUEST_def

record dhcp_binding =
  client_addr :: ipv4_addr
  subnet_mask :: ipv4_addr
  gateway :: ipv4_addr
  server_id :: ipv4_addr

definition build_message :: "mac_address \<Rightarrow> u32 \<Rightarrow> bytes \<Rightarrow> bytes option" where
  "build_message client_mac xid options = do {
     let msg = replicate MESSAGE_LEN 0;
     msg \<leftarrow> slice_set 0 OP_BOOT_REQUEST msg;
     msg \<leftarrow> slice_set 1 HTYPE_ETHERNET msg;
     msg \<leftarrow> slice_set 2 HLEN_ETHERNET msg;
     msg \<leftarrow> copy_range 4 8 (to_be_bytes xid) msg;
     msg \<leftarrow> copy_range 10 12 (to_be_bytes FLAG_BROADCAST) msg;
     msg \<leftarrow> copy_range 28 (28 + 6) (mac_addr client_mac) msg;
     msg \<leftarrow> copy_range 236 240 MAGIC_COOKIE msg;
     copy_range FIXED_LEN (FIXED_LEN + length options) options msg }"

definition build_discover :: "mac_address \<Rightarrow> u32 \<Rightarrow> bytes option" where
  "build_discover client_mac xid = do {
     let options = replicate (3 + length PARAMETER_REQUEST + 1) 0;
     options \<leftarrow> copy_range 0 3 [OPT_MESSAGE_TYPE, 1, u8_of_message_type Discover] options;
     options \<leftarrow> copy_range 3 (3 + length PARAMETER_REQUEST) PARAMETER_REQUEST options;
     options \<leftarrow> slice_set (3 + length PARAMETER_REQUEST) OPT_END options;
     build_message client_mac xid options }"

definition build_request :: "mac_address \<Rightarrow> u32 \<Rightarrow> dhcp_binding \<Rightarrow> bytes option" where
  "build_request client_mac xid offer = do {
     let options = replicate (3 + 6 + 6 + length PARAMETER_REQUEST + 1) 0;
     options \<leftarrow> copy_range 0 3 [OPT_MESSAGE_TYPE, 1, u8_of_message_type DhcpRequest] options;
     options \<leftarrow> copy_range 3 5 [OPT_REQUESTED_ADDR, 4] options;
     options \<leftarrow> copy_range 5 9 (octets (client_addr offer)) options;
     options \<leftarrow> copy_range 9 11 [OPT_SERVER_ID, 4] options;
     options \<leftarrow> copy_range 11 15 (octets (server_id offer)) options;
     options \<leftarrow> copy_range 15 (15 + length PARAMETER_REQUEST) PARAMETER_REQUEST options;
     options \<leftarrow> slice_set (15 + length PARAMETER_REQUEST) OPT_END options;
     build_message client_mac xid options }"

definition from_message ::
  "bytes \<Rightarrow> u32 \<Rightarrow> mac_address \<Rightarrow> dhcp_message_type \<Rightarrow> (dhcp_error + dhcp_binding) option" where
  "from_message msg xid client_mac expected =
     (if length msg < FIXED_LEN then Some (Inl TooShort) else do {
        b0 \<leftarrow> slice_get 0 msg;
        b1 \<leftarrow> slice_get 1 msg;
        b2 \<leftarrow> slice_get 2 msg;
        if b0 \<noteq> OP_BOOT_REPLY \<or> b1 \<noteq> HTYPE_ETHERNET \<or> b2 \<noteq> HLEN_ETHERNET
        then Some (Inl NotAReply) else do {
        cookie \<leftarrow> slice_range 236 240 msg;
        if cookie \<noteq> MAGIC_COOKIE then Some (Inl BadMagicCookie) else do {
        msg_xid \<leftarrow> read_u32 4 8 msg;
        if msg_xid \<noteq> xid then Some (Inl XidMismatch) else do {
        chaddr \<leftarrow> copy_range 0 6 (mac_addr client_mac) (replicate CHADDR_LEN 0);
        msg_chaddr \<leftarrow> slice_range 28 44 msg;
        if msg_chaddr \<noteq> chaddr then Some (Inl ClientMacMismatch) else do {
        tail \<leftarrow> slice_from FIXED_LEN msg;
        parsed \<leftarrow> parse_options tail;
        try_result parsed (\<lambda>options.
          if message_type options \<noteq> Some expected then Some (Inl WrongMessageType)
          else case (opt_subnet_mask options, opt_router options, opt_server_id options) of
            (Some netmask, Some gw, Some server) \<Rightarrow> do {
              addr \<leftarrow> read_addr 16 20 msg;
              if is_unspecified addr then Some (Inl MissingData)
              else Some (Inr \<lparr> client_addr = addr, subnet_mask = netmask, gateway = gw,
                               server_id = server \<rparr>) }
          | _ \<Rightarrow> Some (Inl MissingData)) }}}}})"

definition from_offer ::
  "bytes \<Rightarrow> u32 \<Rightarrow> mac_address \<Rightarrow> (dhcp_error + dhcp_binding) option" where
  "from_offer msg xid client_mac = from_message msg xid client_mac Offer"

definition from_ack :: "bytes \<Rightarrow> u32 \<Rightarrow> mac_address \<Rightarrow> (dhcp_error + dhcp_binding) option" where
  "from_ack msg xid client_mac = from_message msg xid client_mac Ack"

section \<open>What the client sends\<close>

text \<open>The fixed header of a client message: a BOOTREQUEST for a broadcast reply.\<close>

definition request_header :: "mac_address \<Rightarrow> u32 \<Rightarrow> bytes" where
  "request_header mac xid =
     [1, 1, 6, 0] @ to_be_bytes xid @ [0, 0, 0x80, 0] @ replicate 16 0 @ mac_addr mac
       @ replicate 202 0 @ MAGIC_COOKIE"

lemma length_request_header [simp, wire_simps]: "length (request_header mac xid) = 240"
  by (simp add: request_header_def MAGIC_COOKIE_def)

lemma build_message_layout:
  assumes "length options \<le> 60"
  shows "build_message mac xid options
    = Some (request_header mac xid @ options @ replicate (60 - length options) 0)"
proof -
  have flag: "to_be_bytes FLAG_BROADCAST = [0x80, 0]"
    by (simp add: FLAG_BROADCAST_def to_be_bytes_u16)
  have z: "replicate MESSAGE_LEN 0 = [] @ replicate 300 (0 :: u8)" by (simp add: MESSAGE_LEN_def)
  have r: "replicate 2 (0 :: u8) = [0, 0]" "replicate (Suc 0) (0 :: u8) = [0]"
    by (simp_all add: numeral_eq_Suc)
  show ?thesis
    unfolding build_message_def Let_def z flag
    by ((subst slice_set_prefix, simp, simp, subst Option.bind_lunit)+,
        (subst copy_range_gap, simp, simp add: MAGIC_COOKIE_def, simp, simp,
          subst Option.bind_lunit)+,
        subst copy_range_gap)
      (use assms in \<open>simp_all add: request_header_def dhcp_consts r\<close>)
qed

text \<open>The options of the two messages are a run of options closed by End.\<close>

definition discover_items :: "tlv list" where
  "discover_items =
     [Opt OPT_MESSAGE_TYPE [u8_of_message_type Discover],
      Opt OPT_PARAMETER_REQUEST_LIST [OPT_SUBNET_MASK, OPT_ROUTER]]"

definition request_items :: "dhcp_binding \<Rightarrow> tlv list" where
  "request_items offer =
     [Opt OPT_MESSAGE_TYPE [u8_of_message_type DhcpRequest],
      Opt OPT_REQUESTED_ADDR (octets (client_addr offer)),
      Opt OPT_SERVER_ID (octets (server_id offer)),
      Opt OPT_PARAMETER_REQUEST_LIST [OPT_SUBNET_MASK, OPT_ROUTER]]"

lemma build_discover_layout:
  "build_discover mac xid = Some (request_header mac xid
     @ tlvs_bytes discover_items @ OPT_END # replicate 52 0)"
proof -
  have "build_discover mac xid = build_message mac xid (tlvs_bytes discover_items @ [OPT_END])"
    by (simp add: build_discover_def dhcp_consts copy_range_def slice_set_def discover_items_def
        opt_defs numeral_eq_Suc)
  then show ?thesis
    by (simp add: build_message_layout discover_items_def)
qed

lemma build_request_layout:
  "build_request mac xid offer = Some (request_header mac xid
     @ tlvs_bytes (request_items offer) @ OPT_END # replicate 40 0)"
proof -
  have z: "replicate (3 + 6 + 6 + length PARAMETER_REQUEST + 1) 0 = [] @ replicate 20 (0 :: u8)"
    by (simp add: PARAMETER_REQUEST_def)
  have "build_request mac xid offer
      = build_message mac xid (tlvs_bytes (request_items offer) @ [OPT_END])"
    unfolding build_request_def Let_def z
    by ((subst copy_range_gap, simp, simp, simp add: PARAMETER_REQUEST_def,
          simp add: PARAMETER_REQUEST_def, subst Option.bind_lunit)+,
        subst slice_set_prefix)
      (simp_all add: request_items_def PARAMETER_REQUEST_def)
  then show ?thesis
    by (simp add: build_message_layout request_items_def)
qed

section \<open>What the client accepts\<close>

definition field :: "nat \<Rightarrow> nat \<Rightarrow> bytes \<Rightarrow> bytes" where
  "field a b bs = take (b - a) (drop a bs)"

text \<open>The decision of \<open>from_message\<close> on a message long enough to have a header.\<close>

definition reply_for :: "u32 \<Rightarrow> mac_address \<Rightarrow> bytes \<Rightarrow> bool" where
  "reply_for xid mac msg \<longleftrightarrow>
     240 \<le> length msg \<and> field 0 3 msg = [2, 1, 6] \<and> field 236 240 msg = MAGIC_COOKIE
     \<and> field 4 8 msg = to_be_bytes xid \<and> field 28 44 msg = mac_addr mac @ replicate 10 0"

definition binding_of ::
  "bytes \<Rightarrow> dhcp_options \<Rightarrow> dhcp_message_type \<Rightarrow> dhcp_error + dhcp_binding" where
  "binding_of msg options expected =
     (if message_type options \<noteq> Some expected then Inl WrongMessageType
      else case (opt_subnet_mask options, opt_router options, opt_server_id options) of
        (Some netmask, Some gw, Some server) \<Rightarrow>
          (case addr_from_slice (field 16 20 msg) of
             Some addr \<Rightarrow>
               if is_unspecified addr then Inl MissingData
               else Inr \<lparr> client_addr = addr, subnet_mask = netmask, gateway = gw,
                          server_id = server \<rparr>
           | None \<Rightarrow> Inl MissingData)
      | _ \<Rightarrow> Inl MissingData)"

definition from_message_ref ::
  "bytes \<Rightarrow> u32 \<Rightarrow> mac_address \<Rightarrow> dhcp_message_type \<Rightarrow> dhcp_error + dhcp_binding" where
  "from_message_ref msg xid mac expected =
     (if length msg < 240 then Inl TooShort
      else if field 0 3 msg \<noteq> [2, 1, 6] then Inl NotAReply
      else if field 236 240 msg \<noteq> MAGIC_COOKIE then Inl BadMagicCookie
      else if field 4 8 msg \<noteq> to_be_bytes xid then Inl XidMismatch
      else if field 28 44 msg \<noteq> mac_addr mac @ replicate 10 0 then Inl ClientMacMismatch
      else case parse_rest (drop 240 msg) options_default of
        None \<Rightarrow> Inl InvalidTLV
      | Some options \<Rightarrow> binding_of msg options expected)"

lemma slice_range_field: "a \<le> b \<Longrightarrow> b \<le> length msg \<Longrightarrow> slice_range a b msg = Some (field a b msg)"
  by (simp add: slice_range_def field_def)

lemma length_field: "b \<le> length msg \<Longrightarrow> length (field a b msg) = b - a"
  by (simp add: field_def)

lemma from_message_total:
  "from_message msg xid mac expected = Some (from_message_ref msg xid mac expected)"
proof (cases "length msg < 240")
  case True
  then show ?thesis by (simp add: from_message_def from_message_ref_def FIXED_LEN_def)
next
  case False
  then have len: "240 \<le> length msg" by simp
  then have "3 \<le> length msg" by linarith
  then obtain b0 b1 b2 rest where msg: "msg = b0 # b1 # b2 # rest"
    by (auto simp: Suc_le_length_iff numeral_3_eq_3)
  have head: "slice_get 0 msg = Some b0" "slice_get 1 msg = Some b1" "slice_get 2 msg = Some b2"
    "field 0 3 msg = [b0, b1, b2]"
    by (simp_all add: msg slice_get_def field_def numeral_eq_Suc)
  have fields: "slice_range 236 240 msg = Some (field 236 240 msg)"
    "slice_range 28 44 msg = Some (field 28 44 msg)" "slice_from 240 msg = Some (drop 240 msg)"
    using len by (simp_all add: slice_range_field slice_from_def)
  have chaddr: "copy_range 0 6 (mac_addr mac) (replicate CHADDR_LEN 0)
      = Some (mac_addr mac @ replicate 10 0)"
    by (simp add: copy_range_def CHADDR_LEN_def)
  obtain x where x: "field 4 8 msg = to_be_bytes (x :: u32)" and rx: "read_u32 4 8 msg = Some x"
    by (rule u32_be.read_exists[of 8 4 msg]) (use len in \<open>auto simp: read_u32_def field_def\<close>)
  obtain a where a: "field 16 20 msg = octets a" and ra: "read_addr 16 20 msg = Some a"
    by (rule ip_codec.read_exists[of 20 16 msg]) (use len in \<open>auto simp: read_addr_def field_def\<close>)
  have opts: "parse_options (drop 240 msg)
      = Some (ok_or InvalidTLV (parse_rest (drop 240 msg) options_default))"
    by (simp add: parse_options_def parse_options_rest)
  show ?thesis
    using False
    unfolding from_message_def from_message_ref_def binding_of_def FIXED_LEN_def head fields chaddr
      rx ra x a opts Option.bind_lunit u32_be.enc_inj ip_codec.dec_enc
    by (cases "parse_rest (drop 240 msg) options_default")
      (simp_all add: OP_BOOT_REPLY_def HTYPE_ETHERNET_def HLEN_ETHERNET_def split: option.split)
qed

lemma from_message_accepts:
  "from_message msg xid mac expected = Some (Inr b) \<longleftrightarrow>
     reply_for xid mac msg \<and> field 16 20 msg = octets (client_addr b)
     \<and> \<not> is_unspecified (client_addr b)
     \<and> parse_options (drop 240 msg) = Some (Inr
         \<lparr> message_type = Some expected, opt_subnet_mask = Some (subnet_mask b),
           opt_router = Some (gateway b), opt_server_id = Some (server_id b) \<rparr>)"
proof -
  have bind: "binding_of msg options expected = Inr b \<longleftrightarrow>
      field 16 20 msg = octets (client_addr b) \<and> \<not> is_unspecified (client_addr b)
      \<and> options = \<lparr> message_type = Some expected, opt_subnet_mask = Some (subnet_mask b),
           opt_router = Some (gateway b), opt_server_id = Some (server_id b) \<rparr>" for options
    by (cases options; cases b)
      (auto simp: binding_of_def addr_from_slice_iff ip_codec.dec_enc ip_codec.enc_inj
        split: option.splits)
  show ?thesis
    by (auto simp: from_message_total from_message_ref_def reply_for_def parse_options_def
        parse_options_rest bind split: option.splits)
qed

lemmas [eval_simps] = dhcp_consts opt_defs

section \<open>Captured messages\<close>

text \<open>The exchange of the unit tests, captured off the wire.\<close>

definition CLIENT_MAC :: mac_address where
  "CLIENT_MAC = MacAddress 0x52 0x54 0x00 0x12 0x34 0x56"

definition CAPTURE_XID :: u32 where
  "CAPTURE_XID = 0xbcb0ed7d"

definition DISCOVER :: bytes where
  "DISCOVER = [
      0x01, 0x01, 0x06, 0x00, 0xbc, 0xb0, 0xed, 0x7d, 0x00, 0x00, 0x80, 0x00,
      0x00, 0x00, 0x00, 0x00, 0x00, 0x00, 0x00, 0x00, 0x00, 0x00, 0x00, 0x00,
      0x00, 0x00, 0x00, 0x00, 0x52, 0x54, 0x00, 0x12, 0x34, 0x56, 0x00, 0x00,
      0x00, 0x00, 0x00, 0x00, 0x00, 0x00, 0x00, 0x00, 0x00, 0x00, 0x00, 0x00,
      0x00, 0x00, 0x00, 0x00, 0x00, 0x00, 0x00, 0x00, 0x00, 0x00, 0x00, 0x00,
      0x00, 0x00, 0x00, 0x00, 0x00, 0x00, 0x00, 0x00, 0x00, 0x00, 0x00, 0x00,
      0x00, 0x00, 0x00, 0x00, 0x00, 0x00, 0x00, 0x00, 0x00, 0x00, 0x00, 0x00,
      0x00, 0x00, 0x00, 0x00, 0x00, 0x00, 0x00, 0x00, 0x00, 0x00, 0x00, 0x00,
      0x00, 0x00, 0x00, 0x00, 0x00, 0x00, 0x00, 0x00, 0x00, 0x00, 0x00, 0x00,
      0x00, 0x00, 0x00, 0x00, 0x00, 0x00, 0x00, 0x00, 0x00, 0x00, 0x00, 0x00,
      0x00, 0x00, 0x00, 0x00, 0x00, 0x00, 0x00, 0x00, 0x00, 0x00, 0x00, 0x00,
      0x00, 0x00, 0x00, 0x00, 0x00, 0x00, 0x00, 0x00, 0x00, 0x00, 0x00, 0x00,
      0x00, 0x00, 0x00, 0x00, 0x00, 0x00, 0x00, 0x00, 0x00, 0x00, 0x00, 0x00,
      0x00, 0x00, 0x00, 0x00, 0x00, 0x00, 0x00, 0x00, 0x00, 0x00, 0x00, 0x00,
      0x00, 0x00, 0x00, 0x00, 0x00, 0x00, 0x00, 0x00, 0x00, 0x00, 0x00, 0x00,
      0x00, 0x00, 0x00, 0x00, 0x00, 0x00, 0x00, 0x00, 0x00, 0x00, 0x00, 0x00,
      0x00, 0x00, 0x00, 0x00, 0x00, 0x00, 0x00, 0x00, 0x00, 0x00, 0x00, 0x00,
      0x00, 0x00, 0x00, 0x00, 0x00, 0x00, 0x00, 0x00, 0x00, 0x00, 0x00, 0x00,
      0x00, 0x00, 0x00, 0x00, 0x00, 0x00, 0x00, 0x00, 0x00, 0x00, 0x00, 0x00,
      0x00, 0x00, 0x00, 0x00, 0x00, 0x00, 0x00, 0x00, 0x63, 0x82, 0x53, 0x63,
      0x35, 0x01, 0x01, 0x37, 0x02, 0x01, 0x03, 0xff, 0x00, 0x00, 0x00, 0x00,
      0x00, 0x00, 0x00, 0x00, 0x00, 0x00, 0x00, 0x00, 0x00, 0x00, 0x00, 0x00,
      0x00, 0x00, 0x00, 0x00, 0x00, 0x00, 0x00, 0x00, 0x00, 0x00, 0x00, 0x00,
      0x00, 0x00, 0x00, 0x00, 0x00, 0x00, 0x00, 0x00, 0x00, 0x00, 0x00, 0x00,
      0x00, 0x00, 0x00, 0x00, 0x00, 0x00, 0x00, 0x00, 0x00, 0x00, 0x00, 0x00]"

definition OFFER :: bytes where
  "OFFER = [
      0x02, 0x01, 0x06, 0x00, 0xbc, 0xb0, 0xed, 0x7d, 0x00, 0x00, 0x00, 0x00,
      0x00, 0x00, 0x00, 0x00, 0x0a, 0x00, 0x02, 0x0f, 0x0a, 0x00, 0x02, 0x02,
      0x00, 0x00, 0x00, 0x00, 0x52, 0x54, 0x00, 0x12, 0x34, 0x56, 0x00, 0x00,
      0x00, 0x00, 0x00, 0x00, 0x00, 0x00, 0x00, 0x00, 0x00, 0x00, 0x00, 0x00,
      0x00, 0x00, 0x00, 0x00, 0x00, 0x00, 0x00, 0x00, 0x00, 0x00, 0x00, 0x00,
      0x00, 0x00, 0x00, 0x00, 0x00, 0x00, 0x00, 0x00, 0x00, 0x00, 0x00, 0x00,
      0x00, 0x00, 0x00, 0x00, 0x00, 0x00, 0x00, 0x00, 0x00, 0x00, 0x00, 0x00,
      0x00, 0x00, 0x00, 0x00, 0x00, 0x00, 0x00, 0x00, 0x00, 0x00, 0x00, 0x00,
      0x00, 0x00, 0x00, 0x00, 0x00, 0x00, 0x00, 0x00, 0x00, 0x00, 0x00, 0x00,
      0x00, 0x00, 0x00, 0x00, 0x00, 0x00, 0x00, 0x00, 0x00, 0x00, 0x00, 0x00,
      0x00, 0x00, 0x00, 0x00, 0x00, 0x00, 0x00, 0x00, 0x00, 0x00, 0x00, 0x00,
      0x00, 0x00, 0x00, 0x00, 0x00, 0x00, 0x00, 0x00, 0x00, 0x00, 0x00, 0x00,
      0x00, 0x00, 0x00, 0x00, 0x00, 0x00, 0x00, 0x00, 0x00, 0x00, 0x00, 0x00,
      0x00, 0x00, 0x00, 0x00, 0x00, 0x00, 0x00, 0x00, 0x00, 0x00, 0x00, 0x00,
      0x00, 0x00, 0x00, 0x00, 0x00, 0x00, 0x00, 0x00, 0x00, 0x00, 0x00, 0x00,
      0x00, 0x00, 0x00, 0x00, 0x00, 0x00, 0x00, 0x00, 0x00, 0x00, 0x00, 0x00,
      0x00, 0x00, 0x00, 0x00, 0x00, 0x00, 0x00, 0x00, 0x00, 0x00, 0x00, 0x00,
      0x00, 0x00, 0x00, 0x00, 0x00, 0x00, 0x00, 0x00, 0x00, 0x00, 0x00, 0x00,
      0x00, 0x00, 0x00, 0x00, 0x00, 0x00, 0x00, 0x00, 0x00, 0x00, 0x00, 0x00,
      0x00, 0x00, 0x00, 0x00, 0x00, 0x00, 0x00, 0x00, 0x63, 0x82, 0x53, 0x63,
      0x35, 0x01, 0x02, 0x36, 0x04, 0x0a, 0x00, 0x02, 0x02, 0x01, 0x04, 0xff,
      0xff, 0xff, 0x00, 0x03, 0x04, 0x0a, 0x00, 0x02, 0x02, 0x06, 0x04, 0x0a,
      0x00, 0x02, 0x03, 0x33, 0x04, 0x00, 0x01, 0x51, 0x80, 0xff]"

definition CAPTURE_BINDING :: dhcp_binding where
  "CAPTURE_BINDING =
     \<lparr> client_addr = Ipv4Addr 10 0 2 15, subnet_mask = Ipv4Addr 255 255 255 0,
       gateway = Ipv4Addr 10 0 2 2, server_id = Ipv4Addr 10 0 2 2 \<rparr>"

lemma build_discover_matches_capture: "build_discover CLIENT_MAC CAPTURE_XID = Some DISCOVER"
  by (simp add: build_discover_layout request_header_def discover_items_def CLIENT_MAC_def
      CAPTURE_XID_def DISCOVER_def eval_simps replicate_numeral)

text \<open>The offer of the capture, as the acknowledgement of the same binding.\<close>

definition ack_from_capture :: bytes where
  "ack_from_capture = OFFER[FIXED_LEN + 2 := u8_of_message_type Ack]"

lemma capture_binds:
  assumes "msg = OFFER[242 := x]" and "message_type_try_from x = Inr t"
  shows "from_message msg CAPTURE_XID CLIENT_MAC t = Some (Inr CAPTURE_BINDING)"
proof -
  have "drop 240 msg = [0x35, 0x01, x, 0x36, 0x04, 0x0a, 0x00, 0x02, 0x02, 0x01, 0x04, 0xff,
      0xff, 0xff, 0x00, 0x03, 0x04, 0x0a, 0x00, 0x02, 0x02, 0x06, 0x04, 0x0a,
      0x00, 0x02, 0x03, 0x33, 0x04, 0x00, 0x01, 0x51, 0x80, 0xff]"
    by (simp add: assms(1) OFFER_def)
  moreover have "4 dvd Suc (Suc (Suc (Suc 0)))" by presburger
  ultimately have "parse_rest (drop 240 msg) options_default = Some
      \<lparr> message_type = Some t, opt_subnet_mask = Some (Ipv4Addr 255 255 255 0),
        opt_router = Some (Ipv4Addr 10 0 2 2), opt_server_id = Some (Ipv4Addr 10 0 2 2) \<rparr>"
    using assms(2) by (simp add: option_effect_def options_default_def opt_defs)
  then have "parse_options (drop 240 msg) = Some (Inr
      \<lparr> message_type = Some t, opt_subnet_mask = Some (Ipv4Addr 255 255 255 0),
        opt_router = Some (Ipv4Addr 10 0 2 2), opt_server_id = Some (Ipv4Addr 10 0 2 2) \<rparr>)"
    by (simp add: parse_options_def parse_options_rest)
  moreover have "reply_for CAPTURE_XID CLIENT_MAC msg" "field 16 20 msg = [10, 0, 2, 15]"
    by (simp_all add: reply_for_def assms(1) OFFER_def CAPTURE_XID_def CLIENT_MAC_def field_def
        eval_simps replicate_numeral)
  ultimately show ?thesis
    by (simp add: from_message_accepts CAPTURE_BINDING_def is_unspecified_def addr_unspecified_def)
qed

lemma from_offer_capture: "from_offer OFFER CAPTURE_XID CLIENT_MAC = Some (Inr CAPTURE_BINDING)"
  unfolding from_offer_def
  by (rule capture_binds[of _ 2]) (simp_all add: OFFER_def message_type_try_from_def)

lemma from_ack_capture:
  "from_ack ack_from_capture CAPTURE_XID CLIENT_MAC = Some (Inr CAPTURE_BINDING)"
  unfolding from_ack_def
  by (rule capture_binds[of _ 5]) (simp_all add: ack_from_capture_def dhcp_consts message_type_try_from_def)

section \<open>Properties\<close>

text \<open>C19: the walk over the options never panics and accepts exactly the grammar: a run of
  pads and of options with at most 255 bytes of value, closed by End and followed by anything,
  in which every option the client knows has a value its tag allows; a repeated option counts
  by its last occurrence. Every other field is an invalid TLV.\<close>

theorem parse_options_grammar:
  "parse_options bs \<noteq> None
   \<and> (parse_options bs = Some (Inr result) \<longleftrightarrow>
        (\<exists>items rest. bs = tlvs_bytes items @ OPT_END # rest \<and> list_all tlv_ok items
           \<and> tlvs_effect items options_default = Some result))
   \<and> (parse_options bs = Some (Inl e) \<longrightarrow> e = InvalidTLV)"
  using parse_options_no_panic parse_options_accepts parse_options_error by blast

theorem parse_options_grammar_witness:
  "\<exists>items rest. drop 240 OFFER = tlvs_bytes items @ OPT_END # rest \<and> list_all tlv_ok items
     \<and> tlvs_effect items options_default = Some
         \<lparr> message_type = Some Offer, opt_subnet_mask = Some (subnet_mask CAPTURE_BINDING),
           opt_router = Some (gateway CAPTURE_BINDING),
           opt_server_id = Some (server_id CAPTURE_BINDING) \<rparr>"
proof -
  have "parse_options (drop 240 OFFER) = Some (Inr
      \<lparr> message_type = Some Offer, opt_subnet_mask = Some (subnet_mask CAPTURE_BINDING),
        opt_router = Some (gateway CAPTURE_BINDING),
        opt_server_id = Some (server_id CAPTURE_BINDING) \<rparr>)"
    using from_offer_capture by (simp add: from_offer_def from_message_accepts)
  then show ?thesis using parse_options_grammar by blast
qed

text \<open>C18: a reply is read without a panic, and it binds the client exactly when it is a
  BOOTREPLY of this exchange for this hardware address, the whole sixteen-byte field compared,
  with the magic cookie, a non-zero address, and options that name the expected message type,
  a mask, a router and a server. The binding holds just what the message says.\<close>

theorem from_message_accepts_iff:
  "from_message msg xid mac expected \<noteq> None
   \<and> (from_message msg xid mac expected = Some (Inr b) \<longleftrightarrow>
        reply_for xid mac msg \<and> field 16 20 msg = octets (client_addr b)
        \<and> client_addr b \<noteq> Ipv4Addr 0 0 0 0
        \<and> parse_options (drop 240 msg) = Some (Inr
            \<lparr> message_type = Some expected, opt_subnet_mask = Some (subnet_mask b),
              opt_router = Some (gateway b), opt_server_id = Some (server_id b) \<rparr>))"
  using from_message_accepts[of msg xid mac expected b]
  unfolding from_message_total is_unspecified_def addr_unspecified_def by simp

text \<open>The checks come in the order that keeps other clients' traffic unread: an exchange
  id or a hardware address that is not ours is reported before the options are looked
  at.\<close>

theorem from_message_checks_in_order:
  "from_message msg xid mac expected = Some
     (if length msg < 240 then Inl TooShort
      else if field 0 3 msg \<noteq> [2, 1, 6] then Inl NotAReply
      else if field 236 240 msg \<noteq> MAGIC_COOKIE then Inl BadMagicCookie
      else if field 4 8 msg \<noteq> to_be_bytes xid then Inl XidMismatch
      else if field 28 44 msg \<noteq> mac_addr mac @ replicate 10 0 then Inl ClientMacMismatch
      else case parse_options (drop 240 msg) of
        Some (Inr options) \<Rightarrow> binding_of msg options expected
      | _ \<Rightarrow> Inl InvalidTLV)"
  by (simp add: from_message_total from_message_ref_def parse_options_def parse_options_rest
      split: option.split)

text \<open>The messages the client sends never panic, are 300 bytes long, carry the exchange id
  and the hardware address, and follow the options grammar; the request names the address and
  the server of the offer it accepts. Looped back, neither is ever taken for a reply.\<close>

theorem client_messages:
  "\<exists>discover request.
     build_discover mac xid = Some discover \<and> build_request mac xid offer = Some request
     \<and> length discover = 300 \<and> length request = 300
     \<and> take 240 discover = request_header mac xid \<and> take 240 request = request_header mac xid
     \<and> drop 240 discover = tlvs_bytes discover_items @ OPT_END # replicate 52 0
     \<and> drop 240 request = tlvs_bytes (request_items offer) @ OPT_END # replicate 40 0
     \<and> from_message discover xid' mac' expected = Some (Inl NotAReply)
     \<and> from_message request xid' mac' expected = Some (Inl NotAReply)"
proof -
  have n: "field 0 3 (request_header mac xid @ r) \<noteq> [2, 1, 6]" for r
    by (simp add: field_def request_header_def numeral_3_eq_3)
  have l: "length (tlvs_bytes discover_items) = 7" "length (tlvs_bytes (request_items offer)) = 19"
    by (simp_all add: discover_items_def request_items_def)
  show ?thesis
    unfolding build_discover_layout build_request_layout
    by (simp add: from_message_total from_message_ref_def n l)
qed

end
