(* ===== verification/Rng.thy ===== *)
theory Rng
  imports Bytes
begin

text \<open>
  The kernel's random numbers (\<open>kernel/src/rng.rs\<close>): seed material gathered from the
  VirtIO entropy source and RDRAND, the ChaCha20 generator with fast key erasure, the xorshift
  fallback of hosts without entropy hardware, and \<open>get_random\<close> over them. The cipher, the
  device and the processor's instructions are parameters. Bringing the device up is in
  \<open>Devices\<close>.
\<close>

section \<open>The code\<close>

datatype entropy_mode = VirtioAndRdrand | Virtio | Rdrand | Insecure

definition RESEED_INTERVAL :: u32 where "RESEED_INTERVAL = 1024"

text \<open>
  What the code calls outside the repository, on the outside world \<open>'w\<close> and a cipher state
  \<open>'c\<close>: \<open>VirtIORng::request_entropy\<close> on a zeroed buffer of 32 bytes (the byte count, or
  \<^const>\<open>None\<close> for an error, and the buffer), CPUID's RDRAND bit, \<open>_rdrand64_step\<close>,
  \<open>_rdtsc\<close>, and \<open>ChaCha20Rng\<close>.
\<close>

record ('w, 'c) rng_ext =
  request_entropy :: "'w \<Rightarrow> (nat option \<times> bytes) \<times> 'w"
  cpu_has_rdrand :: bool
  rdrand64_step :: "'w \<Rightarrow> (bool \<times> u64) \<times> 'w"
  rdtsc :: "'w \<Rightarrow> u64 \<times> 'w"
  chacha_from_seed :: "bytes \<Rightarrow> 'c"
  chacha_fill_bytes :: "nat \<Rightarrow> 'c \<Rightarrow> bytes \<times> 'c"

definition virtio_bytes :: "('w, 'c) rng_ext \<Rightarrow> bool \<Rightarrow> 'w \<Rightarrow> bytes option \<times> 'w" where
  "virtio_bytes ext up w =
     (if \<not> up then (None, w)
      else let ((r, out), w) = request_entropy ext w
           in (if r = Some 32 then Some out else None, w))"

text \<open>\<open>(0..10).any(|_| _rdrand64_step(&mut word) == 1)\<close>: the first success ends the retries.\<close>

fun rdrand_retry :: "('w, 'c) rng_ext \<Rightarrow> nat \<Rightarrow> 'w \<Rightarrow> u64 option \<times> 'w" where
  "rdrand_retry ext 0 w = (None, w)"
| "rdrand_retry ext (Suc n) w =
     (let ((ok, word), w) = rdrand64_step ext w
      in if ok then (Some word, w) else rdrand_retry ext n w)"

fun rdrand_chunks :: "('w, 'c) rng_ext \<Rightarrow> nat \<Rightarrow> 'w \<Rightarrow> bytes option \<times> 'w" where
  "rdrand_chunks ext 0 w = (Some [], w)"
| "rdrand_chunks ext (Suc n) w =
     (case rdrand_retry ext 10 w of
        (None, w) \<Rightarrow> (None, w)
      | (Some word, w) \<Rightarrow> apfst (map_option ((@) (to_le_bytes word))) (rdrand_chunks ext n w))"

definition rdrand_bytes_unchecked :: "('w, 'c) rng_ext \<Rightarrow> 'w \<Rightarrow> bytes option \<times> 'w" where
  "rdrand_bytes_unchecked ext w = rdrand_chunks ext 4 w"

definition rdrand_bytes :: "('w, 'c) rng_ext \<Rightarrow> 'w \<Rightarrow> bytes option \<times> 'w" where
  "rdrand_bytes ext w =
     (if \<not> cpu_has_rdrand ext then (None, w) else rdrand_bytes_unchecked ext w)"

text \<open>\<open>for (s, b) in seed.iter_mut().zip(source.iter()) { *s ^= *b }\<close>.\<close>

fun xor_into :: "bytes \<Rightarrow> bytes \<Rightarrow> bytes" where
  "xor_into (s # seed) (b # source) = (s XOR b) # xor_into seed source"
| "xor_into seed [] = seed"
| "xor_into [] source = []"

definition gather_seed ::
  "('w, 'c) rng_ext \<Rightarrow> bool \<Rightarrow> 'w \<Rightarrow> (bytes \<times> entropy_mode) option \<times> 'w" where
  "gather_seed ext up w =
     (let (virtio, w) = virtio_bytes ext up w;
          (rdrand, w) = rdrand_bytes ext w;
          sources = (case virtio of None \<Rightarrow> [] | Some s \<Rightarrow> [s])
            @ (case rdrand of None \<Rightarrow> [] | Some s \<Rightarrow> [s]);
          seed = fold (\<lambda>source seed. xor_into seed source) sources (replicate 32 0)
      in (case (virtio \<noteq> None, rdrand \<noteq> None) of
            (True, True) \<Rightarrow> Some (seed, VirtioAndRdrand)
          | (True, False) \<Rightarrow> Some (seed, Virtio)
          | (False, True) \<Rightarrow> Some (seed, Rdrand)
          | (False, False) \<Rightarrow> None, w))"

record 'c csprng =
  cs_inner :: 'c
  cs_buf :: bytes
  cs_buf_pos :: nat
  cs_blocks :: u32

definition csprng_new :: "('w, 'c) rng_ext \<Rightarrow> bytes \<Rightarrow> 'c csprng" where
  "csprng_new ext seed =
     \<lparr> cs_inner = chacha_from_seed ext seed, cs_buf = replicate 32 0, cs_buf_pos = 32,
       cs_blocks = 0 \<rparr>"

definition csprng_refill ::
  "('w, 'c) rng_ext \<Rightarrow> bool \<Rightarrow> 'c csprng \<Rightarrow> 'w \<Rightarrow> 'c csprng \<times> 'w" where
  "csprng_refill ext up c w =
     (let (block, _) = chacha_fill_bytes ext 64 (cs_inner c);
          next_seed = take 32 block;
          buf = drop 32 block;
          blocks = cs_blocks c + 1;
          (next_seed, blocks, w) =
            (if blocks \<ge> RESEED_INTERVAL
             then (case gather_seed ext up w of
                     (Some (fresh, _), w) \<Rightarrow> (xor_into next_seed fresh, 0, w)
                   | (None, w) \<Rightarrow> (next_seed, 0, w))
             else (next_seed, blocks, w))
      in (\<lparr> cs_inner = chacha_from_seed ext next_seed, cs_buf = buf, cs_buf_pos = 0,
            cs_blocks = blocks \<rparr>, w))"

fun csprng_fill ::
  "('w, 'c) rng_ext \<Rightarrow> bool \<Rightarrow> nat \<Rightarrow> 'c csprng \<Rightarrow> 'w \<Rightarrow> (bytes \<times> 'c csprng \<times> 'w) option" where
  "csprng_fill ext up 0 c w = Some ([], c, w)"
| "csprng_fill ext up (Suc n) c w = do {
     let (c, w) = (if cs_buf_pos c = length (cs_buf c) then csprng_refill ext up c w else (c, w));
     byte \<leftarrow> slice_get (cs_buf_pos c) (cs_buf c);
     (rest, c, w) \<leftarrow> csprng_fill ext up n (c\<lparr>cs_buf_pos := cs_buf_pos c + 1\<rparr>) w;
     Some (byte # rest, c, w) }"

definition xorshift_next :: "('w, 'c) rng_ext \<Rightarrow> u64 \<Rightarrow> 'w \<Rightarrow> u64 \<times> 'w" where
  "xorshift_next ext state w =
     (let (state, w) = (if state = 0 then apfst (\<lambda>t. t OR 1) (rdtsc ext w) else (state, w));
          x = state;
          x = x XOR push_bit 13 x;
          x = x XOR drop_bit 7 x;
          x = x XOR push_bit 17 x
      in (x, w))"

text \<open>
  The statics of the module: whether \<open>VIRTIO_RNG\<close> is set, \<open>CSPRNG\<close>, \<open>ENTROPY_MODE\<close> and
  the state of \<open>FALLBACK\<close>.
\<close>

record 'c rng_state =
  virtio_rng_up :: bool
  rng_csprng :: "'c csprng option"
  rng_mode :: "entropy_mode option"
  rng_fallback :: u64

text \<open>\<open>for chunk in buf.chunks_mut(8)\<close>, over the length that is left.\<close>

function fallback_fill :: "('w, 'c) rng_ext \<Rightarrow> nat \<Rightarrow> u64 \<Rightarrow> 'w \<Rightarrow> bytes \<times> u64 \<times> 'w" where
  "fallback_fill ext n state w =
     (if n = 0 then ([], state, w)
      else let (x, w) = xorshift_next ext state w;
               chunk = take (min 8 n) (to_le_bytes x);
               (rest, state, w) = fallback_fill ext (n - 8) x w
           in (chunk @ rest, state, w))"
  by pat_completeness auto
termination by (relation "measure (\<lambda>(ext, n, state, w). n)") auto

declare fallback_fill.simps [simp del]

definition get_random ::
  "('w, 'c) rng_ext \<Rightarrow> nat \<Rightarrow> 'c rng_state \<Rightarrow> 'w
     \<Rightarrow> (('e + nat) \<times> bytes \<times> 'c rng_state \<times> 'w) option" where
  "get_random ext len st w =
     (case rng_csprng st of
        Some c \<Rightarrow> do {
          (buf, c, w) \<leftarrow> csprng_fill ext (virtio_rng_up st) len c w;
          Some (Inr len, buf, st\<lparr>rng_csprng := Some c\<rparr>, w) }
      | None \<Rightarrow>
          let (buf, fb, w) = fallback_fill ext len (rng_fallback st) w
          in Some (Inr len, buf, st\<lparr>rng_fallback := fb\<rparr>, w))"

definition entropy_mode_of :: "'c rng_state \<Rightarrow> entropy_mode" where
  "entropy_mode_of st = (case rng_mode st of Some m \<Rightarrow> m | None \<Rightarrow> Insecure)"

definition entropy_is_cryptographic :: "'c rng_state \<Rightarrow> bool" where
  "entropy_is_cryptographic st \<longleftrightarrow> entropy_mode_of st \<noteq> Insecure"

text \<open>\<open>FromRand::from_rand\<close> at the width of the result type.\<close>

definition from_rand ::
  "('w, 'c) rng_ext \<Rightarrow> 'c rng_state \<Rightarrow> 'w \<Rightarrow> (('e + 'a::len word) \<times> 'c rng_state \<times> 'w) option" where
  "from_rand ext st w = do {
     (result, arr, st, w) \<leftarrow> get_random ext (LENGTH('a) div 8) st w;
     case result of
       Inl e \<Rightarrow> Some (Inl e, st, w)
     | Inr _ \<Rightarrow> Some (Inr (from_le_bytes arr), st, w) }"

section \<open>The generator\<close>

text \<open>\<open>fill_bytes\<close> fills the whole buffer it is given.\<close>

definition fills_buffers :: "('w, 'c) rng_ext \<Rightarrow> bool" where
  "fills_buffers ext \<longleftrightarrow> (\<forall>n c. length (fst (chacha_fill_bytes ext n c)) = n)"

definition csprng_ok :: "'c csprng \<Rightarrow> bool" where
  "csprng_ok c \<longleftrightarrow> length (cs_buf c) = 32 \<and> cs_buf_pos c \<le> 32"

definition rng_ok :: "'c rng_state \<Rightarrow> bool" where
  "rng_ok st \<longleftrightarrow> (case rng_csprng st of Some c \<Rightarrow> csprng_ok c | None \<Rightarrow> True)"

lemma csprng_ok_new: "csprng_ok (csprng_new ext seed)"
  by (simp add: csprng_ok_def csprng_new_def)

lemma refill_fields:
  "cs_buf (fst (csprng_refill ext up c w)) = drop 32 (fst (chacha_fill_bytes ext 64 (cs_inner c)))"
  "cs_buf_pos (fst (csprng_refill ext up c w)) = 0"
  by (simp_all add: csprng_refill_def Let_def split: prod.splits option.splits)

lemma csprng_fill_total:
  assumes "fills_buffers ext"
  shows "csprng_ok c \<Longrightarrow> \<exists>bs c' w'. csprng_fill ext up n c w = Some (bs, c', w')
    \<and> length bs = n \<and> csprng_ok c'"
proof (induction n arbitrary: c w)
  case (Suc n)
  obtain c1 w1 where cw:
    "(if cs_buf_pos c = length (cs_buf c) then csprng_refill ext up c w else (c, w)) = (c1, w1)"
    by fastforce
  have ok: "length (cs_buf c1) = 32" "cs_buf_pos c1 < 32"
    using Suc.prems assms arg_cong[OF cw, of fst] refill_fields[of ext up c w]
    by (auto simp: csprng_ok_def fills_buffers_def split: if_splits)
  then have "csprng_ok (c1\<lparr>cs_buf_pos := cs_buf_pos c1 + 1\<rparr>)" by (simp add: csprng_ok_def)
  from Suc.IH[OF this, of w1] obtain bs c' w' where
    "csprng_fill ext up n (c1\<lparr>cs_buf_pos := cs_buf_pos c1 + 1\<rparr>) w1 = Some (bs, c', w')"
    "length bs = n" "csprng_ok c'" by blast
  with ok show ?case by (simp add: cw Let_def slice_get_def del: if_split)
qed simp

text \<open>Bytes come off one stream: how a request is split does not matter.\<close>

lemma csprng_fill_add:
  "csprng_fill ext up (m + n) c w = do {
     (a, c, w) \<leftarrow> csprng_fill ext up m c w;
     (b, c, w) \<leftarrow> csprng_fill ext up n c w;
     Some (a @ b, c, w) }"
proof (induction m arbitrary: c w)
  case 0
  show ?case by (cases "csprng_fill ext up n c w") auto
next
  case (Suc m)
  obtain c1 w1 where cw:
    "(if cs_buf_pos c = length (cs_buf c) then csprng_refill ext up c w else (c, w)) = (c1, w1)"
    by fastforce
  let ?c = "c1\<lparr>cs_buf_pos := cs_buf_pos c1 + 1\<rparr>"
  show ?case
  proof (cases "slice_get (cs_buf_pos c1) (cs_buf c1)")
    case None
    then show ?thesis by (simp add: cw Let_def del: if_split)
  next
    case (Some byte)
    show ?thesis
    proof (cases "csprng_fill ext up m ?c w1")
      case None
      with Some show ?thesis using Suc.IH[of ?c w1] by (simp add: cw Let_def del: if_split)
    next
      case some: (Some r)
      obtain bs c2 w2 where r: "r = (bs, c2, w2)" using prod_cases3 by blast
      show ?thesis
        using Some some Suc.IH[of ?c w1]
        by (cases "csprng_fill ext up n c2 w2") (auto simp: cw Let_def r simp del: if_split)
    qed
  qed
qed

section \<open>The fallback\<close>

lemma xor_zero_eq:
  fixes a b :: u64
  assumes "a XOR b = 0"
  shows "b = a"
proof (rule bit_eqI)
  fix n
  have "bit (a XOR b) n \<longleftrightarrow> bit (0 :: u64) n" by (simp only: assms)
  then show "bit b n \<longleftrightarrow> bit a n" by (auto simp: bit_xor_iff)
qed

lemma xor_push_zero:
  fixes x :: u64
  assumes "0 < k" and "x XOR push_bit k x = 0"
  shows "x = 0"
proof -
  have eq: "push_bit k x = x" using assms(2) by (rule xor_zero_eq)
  have "\<not> bit x n" for n
  proof (induction n rule: less_induct)
    case (less n)
    have "bit x n \<longleftrightarrow> bit (push_bit k x) n" by (simp add: eq)
    then show ?case using less.IH[of "n - k"] assms(1) by (auto simp: bit_push_bit_iff)
  qed
  then show ?thesis by (simp add: bit_eq_iff)
qed

lemma xor_drop_zero:
  fixes x :: u64
  assumes "0 < k" and "x XOR drop_bit k x = 0"
  shows "x = 0"
proof -
  have eq: "drop_bit k x = x" using assms(2) by (rule xor_zero_eq)
  have "drop_bit (m * k) x = x" for m
    by (induction m) (simp_all add: add.commute drop_bit_drop_bit[symmetric] eq)
  from this[of 64] have "x = drop_bit (64 * k) x" by simp
  moreover have "drop_bit (64 * k) x = 0"
    using assms(1) by (intro bit_eqI) (auto simp: bit_drop_bit_eq dest: bit_imp_le_length)
  ultimately show ?thesis by simp
qed

lemma xorshift_nonzero: "fst (xorshift_next ext state w) \<noteq> 0"
proof -
  have step: "x XOR push_bit 17 (x) \<noteq> 0" if "x \<noteq> 0" for x :: u64
    using xor_push_zero[of 17 x] that by auto
  have step1: "x XOR push_bit 13 (x) \<noteq> 0" if "x \<noteq> 0" for x :: u64
    using xor_push_zero[of 13 x] that by auto
  have step2: "x XOR drop_bit 7 (x) \<noteq> 0" if "x \<noteq> 0" for x :: u64
    using xor_drop_zero[of 7 x] that by auto
  have seed: "t OR 1 \<noteq> 0" for t :: u64
    by (metis bit_or_iff bit_1_0 bit_0_eq bot_apply bot_bool_def)
  obtain x w' where x: "(if state = 0 then apfst (\<lambda>t. t OR 1) (rdtsc ext w) else (state, w)) = (x, w')"
    by fastforce
  have "x \<noteq> 0"
    using arg_cong[OF x, of fst] seed by (auto split: if_splits)
  then show ?thesis
    unfolding xorshift_next_def x Let_def prod.case fst_conv by (intro step step1 step2)
qed

lemma length_fallback_fill: "length (fst (fallback_fill ext n state w)) = n"
proof (induction ext n state w rule: fallback_fill.induct)
  case (1 ext n state w)
  show ?case
  proof (cases "n = 0")
    case False
    obtain x w' where x: "xorshift_next ext state w = (x, w')" by fastforce
    obtain rest st w'' where r: "fallback_fill ext (n - 8) x w' = (rest, st, w'')"
      using prod_cases3 by blast
    have "length rest = n - 8" using 1[OF False x[symmetric] refl refl] r by simp
    with False r show ?thesis
      by (subst fallback_fill.simps) (simp add: x Let_def min_def)
  qed (subst fallback_fill.simps, simp)
qed

lemma fallback_fill_nonzero:
  assumes "0 < n"
  shows "fst (snd (fallback_fill ext n state w)) \<noteq> 0"
  using assms
proof (induction ext n state w rule: fallback_fill.induct)
  case (1 ext n state w)
  obtain x w' where x: "xorshift_next ext state w = (x, w')" by fastforce
  obtain rest st w'' where r: "fallback_fill ext (n - 8) x w' = (rest, st, w'')"
    using prod_cases3 by blast
  have "st \<noteq> 0"
  proof (cases "n - 8 = 0")
    case True
    then have "st = x" using r by (subst (asm) fallback_fill.simps) simp
    then show ?thesis using xorshift_nonzero[of ext state w] x by simp
  next
    case False
    then show ?thesis using "1.IH"[OF _ x[symmetric] refl refl] r "1.prems" by simp
  qed
  with "1.prems" r show ?case by (subst fallback_fill.simps) (simp add: x Let_def)
qed

text \<open>A generator that has been seeded no longer looks at the clock.\<close>

lemma xorshift_seeded:
  assumes "state \<noteq> 0"
  shows "xorshift_next (ext\<lparr>rdtsc := clock\<rparr>) state w = xorshift_next ext state w"
  using assms by (simp add: xorshift_next_def)

lemma fallback_seeded:
  assumes "state \<noteq> 0"
  shows "fallback_fill (ext\<lparr>rdtsc := clock\<rparr>) n state w = fallback_fill ext n state w"
  using assms
proof (induction ext n state w rule: fallback_fill.induct)
  case (1 ext n state w)
  obtain x w' where x: "xorshift_next ext state w = (x, w')" by fastforce
  then have "x \<noteq> 0" using xorshift_nonzero[of ext state w] by simp
  then show ?case
    using "1.IH"[OF _ x[symmetric] refl refl] "1.prems"
    by (subst (1 2) fallback_fill.simps) (simp add: xorshift_seeded x Let_def)
qed

section \<open>Seed material\<close>

lemma length_xor_into [simp]: "length (xor_into seed source) = length seed"
  by (induction seed source rule: xor_into.induct) simp_all

lemma xor_into_nth:
  "i < length seed \<Longrightarrow> length source = length seed \<Longrightarrow>
     xor_into seed source ! i = seed ! i XOR source ! i"
proof (induction seed source arbitrary: i rule: xor_into.induct)
  case (1 s seed b source)
  then show ?case by (cases i) simp_all
qed simp_all

lemma xor_into_zero: "length source = n \<Longrightarrow> xor_into (replicate n 0) source = source"
  by (rule nth_equalityI) (simp_all add: xor_into_nth)

lemma xor_into_inj:
  assumes "length s = length seed" and "length s' = length seed"
  shows "xor_into seed s = xor_into seed s' \<longleftrightarrow> s = s'"
proof
  assume eq: "xor_into seed s = xor_into seed s'"
  show "s = s'"
  proof (rule nth_equalityI)
    fix i assume "i < length s"
    then have "seed ! i XOR s ! i = seed ! i XOR s' ! i"
      using arg_cong[OF eq, of "\<lambda>xs. xs ! i"] assms by (simp add: xor_into_nth)
    then have "seed ! i XOR (seed ! i XOR s ! i) = seed ! i XOR (seed ! i XOR s' ! i)" by simp
    then show "s ! i = s' ! i" by (simp flip: xor.assoc)
  qed (use assms in simp)
qed simp

text \<open>The seed by the sources that delivered.\<close>

lemma gather_seed_cases:
  assumes "virtio_bytes ext up w = (v, w1)" and "rdrand_bytes ext w1 = (r, w2)"
    and "\<And>bs. v = Some bs \<Longrightarrow> length bs = 32" and "\<And>bs. r = Some bs \<Longrightarrow> length bs = 32"
  shows "gather_seed ext up w =
    (case (v, r) of
       (None, None) \<Rightarrow> (None, w2)
     | (Some a, None) \<Rightarrow> (Some (a, Virtio), w2)
     | (None, Some b) \<Rightarrow> (Some (b, Rdrand), w2)
     | (Some a, Some b) \<Rightarrow> (Some (xor_into a b, VirtioAndRdrand), w2))"
  using assms by (cases v; cases r) (simp_all add: gather_seed_def Let_def xor_into_zero)

lemma csprng_fill_buffered:
  assumes "cs_buf_pos c + n \<le> length (cs_buf c)"
  shows "csprng_fill ext up n c w
    = Some (take n (drop (cs_buf_pos c) (cs_buf c)), c\<lparr>cs_buf_pos := cs_buf_pos c + n\<rparr>, w)"
  using assms
proof (induction n arbitrary: c)
  case (Suc n)
  then have "drop (cs_buf_pos c) (cs_buf c)
      = cs_buf c ! cs_buf_pos c # drop (Suc (cs_buf_pos c)) (cs_buf c)"
    by (intro Cons_nth_drop_Suc[symmetric]) simp
  with Suc show ?case by (simp add: slice_get_def)
qed simp

lemma get_random_fills:
  assumes "fills_buffers ext" and "rng_ok st"
  shows "\<exists>buf st' w'. get_random ext len st w = Some (Inr len, buf, st', w')
    \<and> length buf = len \<and> rng_ok st'"
proof (cases "rng_csprng st")
  case None
  then show ?thesis
    using length_fallback_fill[of ext len "rng_fallback st" w]
    by (cases "fallback_fill ext len (rng_fallback st) w") (simp add: get_random_def rng_ok_def)
next
  case (Some c)
  with assms(2) have "csprng_ok c" by (simp add: rng_ok_def)
  then obtain bs c' w' where "csprng_fill ext (virtio_rng_up st) len c w = Some (bs, c', w')"
    "length bs = len" "csprng_ok c'"
    using csprng_fill_total[OF assms(1)] by blast
  with Some show ?thesis by (simp add: get_random_def rng_ok_def)
qed

section \<open>Properties\<close>

text \<open>Random numbers are always delivered: on a host with or without entropy hardware,
  \<open>get_random\<close> returns \<open>Ok\<close> with the whole buffer filled, never panics, and keeps the
  generator well-formed, provided the cipher fills the buffers it is given.\<close>

theorem get_random_total:
  assumes "fills_buffers ext" and "rng_ok st"
  shows "\<exists>buf st' w'. get_random ext len st w = Some (Inr len, buf, st', w')
    \<and> length buf = len \<and> rng_ok st'"
  using assms by (rule get_random_fills)

text \<open>A counting cipher, to instantiate the parameters with.\<close>

definition toy_ext :: "(nat, nat) rng_ext" where
  "toy_ext =
     \<lparr> request_entropy = \<lambda>w. ((None, replicate 32 0), w), cpu_has_rdrand = False,
       rdrand64_step = \<lambda>w. ((False, 0), w), rdtsc = \<lambda>w. (of_nat w, w + 1),
       chacha_from_seed = \<lambda>seed. length seed,
       chacha_fill_bytes = \<lambda>n c. (map of_nat [c..<c + n], c + n) \<rparr>"

theorem get_random_total_witness:
  "\<exists>buf st' w'. get_random toy_ext 40
      \<lparr> virtio_rng_up = False, rng_csprng = Some (csprng_new toy_ext (replicate 32 0)),
        rng_mode = Some Rdrand, rng_fallback = 0 \<rparr> 0 = Some (Inr 40, buf, st', w')
    \<and> length buf = 40 \<and> rng_ok st'"
  by (rule get_random_total) (simp_all add: fills_buffers_def toy_ext_def rng_ok_def csprng_ok_new)

text \<open>The bytes of the seeded generator come off one stream. Two requests return what one
  request for both returns, and leave the generator in the same state.\<close>

theorem get_random_splits:
  assumes "rng_csprng st = Some c"
  shows "get_random ext (m + n) st w =
    (case get_random ext m st w of
       None \<Rightarrow> None
     | Some (_, a, st1, w1) \<Rightarrow>
         (case get_random ext n st1 w1 of
            None \<Rightarrow> None
          | Some (_, b, st2, w2) \<Rightarrow> Some (Inr (m + n), a @ b, st2, w2)))"
  using assms
  by (cases "csprng_fill ext (virtio_rng_up st) m c w")
    (auto simp: get_random_def csprng_fill_add split: option.splits bind_splits)

theorem get_random_splits_witness:
  "let st = \<lparr> virtio_rng_up = False, rng_csprng = Some (csprng_new toy_ext (replicate 32 0)),
              rng_mode = Some Rdrand, rng_fallback = 0 \<rparr>
   in get_random toy_ext (30 + 10) st 0 =
    (case get_random toy_ext 30 st 0 of
       None \<Rightarrow> None
     | Some (_, a, st1, w1) \<Rightarrow>
         (case get_random toy_ext 10 st1 w1 of
            None \<Rightarrow> None
          | Some (_, b, st2, w2) \<Rightarrow> Some (Inr (30 + 10), a @ b, st2, w2)))"
  unfolding Let_def by (rule get_random_splits) simp

text \<open>A refill takes nothing from the old generator but one block of
  its output and the block count: the first half, stirred with fresh entropy when the interval
  is over, is the new key, and only the second half is ever handed out.\<close>

theorem refill_erases_key:
  assumes "chacha_fill_bytes ext 64 (cs_inner c) = (block, old)" and "length block = 64"
  shows "\<exists>key blocks w'. csprng_refill ext up c w =
      (\<lparr> cs_inner = chacha_from_seed ext key, cs_buf = drop 32 block, cs_buf_pos = 0,
         cs_blocks = blocks \<rparr>, w')
    \<and> length key = 32
    \<and> (cs_blocks c + 1 < RESEED_INTERVAL \<longrightarrow>
         key = take 32 block \<and> blocks = cs_blocks c + 1 \<and> w' = w)
    \<and> (cs_blocks c + 1 \<ge> RESEED_INTERVAL \<longrightarrow> blocks = 0
         \<and> (case gather_seed ext up w of
              (Some (fresh, _), w1) \<Rightarrow> key = xor_into (take 32 block) fresh \<and> w' = w1
            | (None, w1) \<Rightarrow> key = take 32 block \<and> w' = w1))"
  using assms
  by (auto simp: csprng_refill_def Let_def split: prod.splits option.splits)

theorem refill_erases_key_witness:
  "\<exists>key blocks w'. csprng_refill toy_ext False (csprng_new toy_ext (replicate 32 0)) 0 =
      (\<lparr> cs_inner = chacha_from_seed toy_ext key, cs_buf = drop 32 (map of_nat [32..<96]),
         cs_buf_pos = 0, cs_blocks = blocks \<rparr>, w') \<and> length key = 32"
  using refill_erases_key[of toy_ext "csprng_new toy_ext (replicate 32 0)"
      "map of_nat [32..<96]" 96 False 0]
  by (auto simp: toy_ext_def csprng_new_def)

text \<open>The fallback never gets stuck at zero, the fixed point of xorshift: it never returns
  zero, is seeded from the clock at most once, and from then on does not depend on it.\<close>

theorem fallback_never_zero:
  assumes "rng_csprng st = None" and "0 < len"
    and "get_random ext len st w = Some (res, buf, st', w')"
  shows "rng_fallback st' \<noteq> 0 \<and> fst (xorshift_next ext (rng_fallback st) w) \<noteq> 0
    \<and> get_random (ext\<lparr>rdtsc := clock\<rparr>) n st' v = get_random ext n st' v"
proof -
  obtain b f v' where f: "fallback_fill ext len (rng_fallback st) w = (b, f, v')"
    using prod_cases3 by blast
  then have "f \<noteq> 0" using fallback_fill_nonzero[OF assms(2), of ext "rng_fallback st" w] by simp
  moreover have "st' = st\<lparr>rng_fallback := f\<rparr>" using assms f by (simp add: get_random_def)
  ultimately show ?thesis
    using assms(1) xorshift_nonzero by (simp add: get_random_def fallback_seeded)
qed

theorem fallback_never_zero_witness:
  "\<exists>(res :: unit + nat) buf st' w'. get_random toy_ext 4
      \<lparr> virtio_rng_up = False, rng_csprng = None, rng_mode = None, rng_fallback = 0 \<rparr> 0
        = Some (res, buf, st', w') \<and> rng_fallback st' \<noteq> 0"
proof -
  let ?st = "\<lparr> virtio_rng_up = False, rng_csprng = None, rng_mode = None, rng_fallback = 0 \<rparr>
    :: nat rng_state"
  obtain b f v where "fallback_fill toy_ext 4 0 0 = (b, f, v)" using prod_cases3 by blast
  then have g: "get_random toy_ext 4 ?st 0
      = Some (Inr 4 :: unit + nat, b, ?st\<lparr>rng_fallback := f\<rparr>, v)"
    by (simp add: get_random_def)
  have "rng_fallback (?st\<lparr>rng_fallback := f\<rparr>) \<noteq> 0"
    using fallback_never_zero[OF _ _ g, THEN conjunct1] by simp
  with g show ?thesis by blast
qed

end
