(* ===== verification/Interface.thy ===== *)
theory Interface
  imports Udp Ethernet Arp_Cache Dhcp Rng
begin

text \<open>
  The network interface (\<open>kernel/src/network/handler.rs\<close>) and the receive path in front of it
  (\<open>process_rx\<close> of \<open>kernel/src/task/network.rs\<close>): sending frames, resolving next hops,
  answering ARP and ICMP echo, and the DHCP client. The VirtIO driver is a parameter. Every
  handler takes the interface and the world around it and returns both, or \<^const>\<open>None\<close> where
  the code panics.
\<close>

section \<open>State\<close>

datatype 'e dhcp_client_error =
    RNGError 'e
  | UDPError udp_error
  | IPv4Error ipv4_error
  | AlreadyStarted

datatype dhcp_state =
    Idle
  | Selecting u32
  | Requesting u32 dhcp_binding

fun dhcp_xid :: "dhcp_state \<Rightarrow> u32 option" where
  "dhcp_xid Idle = None"
| "dhcp_xid (Selecting xid) = Some xid"
| "dhcp_xid (Requesting xid _) = Some xid"

record network_interface =
  if_mac :: mac_address
  if_ipv4 :: "ipv4_addr option"
  if_gateway :: "ipv4_addr option"
  if_subnet_mask :: "ipv4_addr option"
  if_arp :: arp_cache
  if_dhcp :: dhcp_state

text \<open>What the code prints, one constructor for each \<open>println!\<close>.\<close>

datatype 'e net_log =
    LogDropped ipv4_addr
  | LogArp arp_packet
  | LogUdp udp_error
  | LogUnknownProto
  | LogBadIcmp
  | LogIcmpBuild
  | LogUnknownIcmp
  | LogDhcpSend "'e dhcp_client_error"
  | LogForeignAck ipv4_addr ipv4_addr
  | LogBound ipv4_addr ipv4_addr ipv4_addr
  | LogIgnoredReply dhcp_error
  | LogShort nat
  | LogRx nat mac_address mac_address u16
  | LogMalformed
  | LogConfigChange

text \<open>
  \<open>VirtIONet::send\<close> and \<open>mac_address\<close>, and the parameters of the random numbers. The world
  holds what lies outside, the random number state, the frames handed to the driver and the
  lines printed, both oldest first.
\<close>

record ('w, 'c, 'e) net_ext =
  net_rng :: "('w, 'c) rng_ext"
  net_send :: "bytes \<Rightarrow> 'w \<Rightarrow> ('e + unit) \<times> 'w"
  net_mac :: mac_address

record ('w, 'c, 'e) net_world =
  outside :: 'w
  kernel_rng :: "'c rng_state"
  wire :: "bytes list"
  console :: "'e net_log list"

definition println :: "'e net_log \<Rightarrow> ('w, 'c, 'e) net_world \<Rightarrow> ('w, 'c, 'e) net_world" where
  "println l w = w\<lparr>console := console w @ [l]\<rparr>"

section \<open>Sending\<close>

definition send_frame ::
  "('w, 'c, 'e) net_ext \<Rightarrow> network_interface \<Rightarrow> mac_address \<Rightarrow> ether_type \<Rightarrow> bytes
     \<Rightarrow> ('w, 'c, 'e) net_world \<Rightarrow> ('w, 'c, 'e) net_world option" where
  "send_frame ext self dst ethertype payload w = do {
     let frame = replicate (length payload + 14) 0;
     frame \<leftarrow> copy_range 0 6 (mac_addr dst) frame;
     frame \<leftarrow> copy_range 6 12 (mac_addr (if_mac self)) frame;
     frame \<leftarrow> copy_range 12 14 (to_be_bytes (u16_of_ether_type ethertype)) frame;
     frame \<leftarrow> copy_range 14 (length frame) payload frame;
     let frame = frame @ replicate (max (length frame) 60 - length frame) 0;
     case net_send ext frame (outside w) of
       (Inl _, _) \<Rightarrow> None
     | (Inr _, out) \<Rightarrow> Some (w\<lparr>outside := out, wire := wire w @ [frame]\<rparr>) }"

definition send_arp_request ::
  "('w, 'c, 'e) net_ext \<Rightarrow> network_interface \<Rightarrow> ipv4_addr \<Rightarrow> ('w, 'c, 'e) net_world
     \<Rightarrow> ('w, 'c, 'e) net_world option" where
  "send_arp_request ext self target w = do {
     my_ip \<leftarrow> if_ipv4 self;
     let request = \<lparr> hardware_type = 1, protocol_type = 0x0800, hardware_len = 6, proto_len = 4,
                     operation = Request, sender_mac = if_mac self, sender_addr = my_ip,
                     target_mac = MacAddress 0 0 0 0 0 0, target_addr = target \<rparr>;
     bytes \<leftarrow> arp_serialize request;
     send_frame ext self mac_broadcast EtherARP bytes w }"

definition send_ipv4 ::
  "('w, 'c, 'e) net_ext \<Rightarrow> network_interface \<Rightarrow> ipv4_addr \<Rightarrow> ipv4_packet \<Rightarrow> ('w, 'c, 'e) net_world
     \<Rightarrow> (network_interface \<times> ('w, 'c, 'e) net_world) option" where
  "send_ipv4 ext self dst packet w =
     (case if_ipv4 self of
        None \<Rightarrow> Some (self, w)
      | Some my_ip \<Rightarrow>
     (case if_subnet_mask self of
        None \<Rightarrow> Some (self, w)
      | Some netmask \<Rightarrow>
     (let dst_net = addr_of_u32 (u32_of_addr dst AND u32_of_addr netmask);
          my_net = addr_of_u32 (u32_of_addr my_ip AND u32_of_addr netmask) in
     (case (if dst_net = my_net then Some dst else if_gateway self) of
        None \<Rightarrow> Some (self, w)
      | Some next_hop \<Rightarrow> do {
          frame \<leftarrow> ipv4_serialize packet;
          case arp_lookup (if_arp self) next_hop of
            Some arp_addr \<Rightarrow> do {
              w \<leftarrow> send_frame ext self arp_addr EtherIPV4 frame w;
              Some (self, w) }
          | None \<Rightarrow>
              (let (result, cache) = arp_queue_pending next_hop frame (if_arp self);
                   self = self\<lparr>if_arp := cache\<rparr>
               in case result of
                    RequestNeeded \<Rightarrow> do {
                      w \<leftarrow> send_arp_request ext self next_hop w;
                      Some (self, w) }
                  | AlreadyPending \<Rightarrow> Some (self, w)
                  | Dropped \<Rightarrow> Some (self, println (LogDropped next_hop) w)) }))))"

section \<open>ARP and ICMP\<close>

fun send_frames ::
  "('w, 'c, 'e) net_ext \<Rightarrow> network_interface \<Rightarrow> mac_address \<Rightarrow> ether_type \<Rightarrow> bytes list
     \<Rightarrow> ('w, 'c, 'e) net_world \<Rightarrow> ('w, 'c, 'e) net_world option" where
  "send_frames ext self dst t [] w = Some w"
| "send_frames ext self dst t (frame # frames) w = do {
     w \<leftarrow> send_frame ext self dst t frame w;
     send_frames ext self dst t frames w }"

definition handle_arp ::
  "('w, 'c, 'e) net_ext \<Rightarrow> network_interface \<Rightarrow> arp_packet \<Rightarrow> ('w, 'c, 'e) net_world
     \<Rightarrow> (network_interface \<times> ('w, 'c, 'e) net_world) option" where
  "handle_arp ext self p w = do {
     (self, w) \<leftarrow>
       (if sender_mac p \<noteq> if_mac self then
          (let (frames, cache) = arp_insert (sender_addr p) (sender_mac p) (if_arp self);
               self = self\<lparr>if_arp := cache\<rparr>
           in do { w \<leftarrow> send_frames ext self (sender_mac p) EtherIPV4 frames w; Some (self, w) })
        else Some (self, w));
     w \<leftarrow>
       (if operation p = Request
           \<and> (case if_ipv4 self of Some addr \<Rightarrow> target_addr p = addr | None \<Rightarrow> False) then do {
          my_ip \<leftarrow> if_ipv4 self;
          let reply = \<lparr> hardware_type = 1, protocol_type = 0x0800, hardware_len = 6,
                        proto_len = 4, operation = Reply, sender_mac = if_mac self,
                        sender_addr = my_ip, target_mac = sender_mac p,
                        target_addr = sender_addr p \<rparr>;
          bytes \<leftarrow> arp_serialize reply;
          send_frame ext self (sender_mac p) EtherARP bytes w
        } else Some w);
     Some (self, println (LogArp p) w) }"

definition handle_icmp ::
  "('w, 'c, 'e) net_ext \<Rightarrow> network_interface \<Rightarrow> ipv4_packet \<Rightarrow> ('w, 'c, 'e) net_world
     \<Rightarrow> (network_interface \<times> ('w, 'c, 'e) net_world) option" where
  "handle_icmp ext self p w = do {
     computed \<leftarrow> internet_checksum [ip_data p];
     if computed \<noteq> 0 then Some (self, println LogBadIcmp w) else do {
     b0 \<leftarrow> slice_get 0 (ip_data p);
     b1 \<leftarrow> (if b0 = 8 then slice_get 1 (ip_data p) else Some 0);
     if b0 = 8 \<and> b1 = 0 then
       (case if_ipv4 self of
          None \<Rightarrow> Some (self, w)
        | Some src \<Rightarrow> do {
            let new_data = ip_data p;
            new_data \<leftarrow> slice_set 0 0 new_data;
            new_data \<leftarrow> slice_set 2 0 new_data;
            new_data \<leftarrow> slice_set 3 0 new_data;
            checksum \<leftarrow> internet_checksum [new_data];
            new_data \<leftarrow> copy_range 2 4 (to_be_bytes checksum) new_data;
            case ipv4_new new_data src (ip_source p) (ip_id p) ICMP of
              Inl _ \<Rightarrow> Some (self, println LogIcmpBuild w)
            | Inr reply \<Rightarrow> send_ipv4 ext self (ip_dest reply) reply w })
     else Some (self, println LogUnknownIcmp w) }}"

section \<open>DHCP\<close>

definition net_from_rand ::
  "('w, 'c, 'e) net_ext \<Rightarrow> ('w, 'c, 'e) net_world
     \<Rightarrow> (('e + 'a::len word) \<times> ('w, 'c, 'e) net_world) option" where
  "net_from_rand ext w = do {
     (r, st, out) \<leftarrow> from_rand (net_rng ext) (kernel_rng w) (outside w);
     Some (r, w\<lparr>outside := out, kernel_rng := st\<rparr>) }"

definition send_dhcp ::
  "('w, 'c, 'e) net_ext \<Rightarrow> network_interface \<Rightarrow> bytes \<Rightarrow> ('w, 'c, 'e) net_world
     \<Rightarrow> (('e dhcp_client_error + unit) \<times> ('w, 'c, 'e) net_world) option" where
  "send_dhcp ext self msg w = do {
     (rand, w) \<leftarrow> net_from_rand ext w;
     case rand of
       Inl e \<Rightarrow> Some (Inl (RNGError e), w)
     | Inr pid \<Rightarrow>
     (case udp_new CLIENT_PORT SERVER_PORT msg of
        Inl e \<Rightarrow> Some (Inl (UDPError e), w)
      | Inr datagram \<Rightarrow> do {
          let source = addr_unspecified;
          let dest = addr_broadcast;
          serialized \<leftarrow> udp_serialize_ipv4 datagram source dest;
          case serialized of
            Inl e \<Rightarrow> Some (Inl (UDPError e), w)
          | Inr ip_bytes \<Rightarrow>
          (case ipv4_new ip_bytes source dest pid UDP of
             Inl e \<Rightarrow> Some (Inl (IPv4Error e), w)
           | Inr pkt \<Rightarrow> do {
               bytes \<leftarrow> ipv4_serialize pkt;
               w \<leftarrow> send_frame ext self mac_broadcast EtherIPV4 bytes w;
               Some (Inr (), w) }) }) }"

definition init_dhcp ::
  "('w, 'c, 'e) net_ext \<Rightarrow> network_interface \<Rightarrow> ('w, 'c, 'e) net_world
     \<Rightarrow> (('e dhcp_client_error + unit) \<times> network_interface \<times> ('w, 'c, 'e) net_world) option" where
  "init_dhcp ext self w =
     (if if_dhcp self \<noteq> Idle then Some (Inl AlreadyStarted, self, w) else do {
        (rand, w) \<leftarrow> net_from_rand ext w;
        case rand of
          Inl e \<Rightarrow> Some (Inl (RNGError e), self, w)
        | Inr xid \<Rightarrow> do {
            msg \<leftarrow> build_discover (if_mac self) xid;
            (result, w) \<leftarrow> send_dhcp ext self msg w;
            case result of
              Inl e \<Rightarrow> Some (Inl e, self, w)
            | Inr _ \<Rightarrow> Some (Inr (), self\<lparr>if_dhcp := Selecting xid\<rparr>, w) } })"

definition read_reply ::
  "dhcp_error + dhcp_binding \<Rightarrow> ('w, 'c, 'e) net_world
     \<Rightarrow> dhcp_binding option \<times> ('w, 'c, 'e) net_world" where
  "read_reply result w =
     (case result of
        Inr binding \<Rightarrow> (Some binding, w)
      | Inl e \<Rightarrow> if e = XidMismatch \<or> e = ClientMacMismatch then (None, w)
                else (None, println (LogIgnoredReply e) w))"

definition handle_dhcp ::
  "('w, 'c, 'e) net_ext \<Rightarrow> network_interface \<Rightarrow> udp_packet \<Rightarrow> ('w, 'c, 'e) net_world
     \<Rightarrow> (network_interface \<times> ('w, 'c, 'e) net_world) option" where
  "handle_dhcp ext self packet w =
     (case if_dhcp self of
        Idle \<Rightarrow> Some (self, w)
      | Selecting xid \<Rightarrow> do {
          result \<leftarrow> from_offer (udp_data packet) xid (if_mac self);
          case read_reply result w of
            (None, w) \<Rightarrow> Some (self, w)
          | (Some offer, w) \<Rightarrow> do {
              msg \<leftarrow> build_request (if_mac self) xid offer;
              (sent, w) \<leftarrow> send_dhcp ext self msg w;
              case sent of
                Inl e \<Rightarrow> Some (self, println (LogDhcpSend e) w)
              | Inr _ \<Rightarrow> Some (self\<lparr>if_dhcp := Requesting xid offer\<rparr>, w) } }
      | Requesting xid offer \<Rightarrow> do {
          result \<leftarrow> from_ack (udp_data packet) xid (if_mac self);
          case read_reply result w of
            (None, w) \<Rightarrow> Some (self, w)
          | (Some ack, w) \<Rightarrow>
              if server_id ack \<noteq> server_id offer
              then Some (self, println (LogForeignAck (server_id ack) (server_id offer)) w)
              else Some (self\<lparr>if_ipv4 := Some (client_addr ack),
                              if_subnet_mask := Some (subnet_mask ack),
                              if_gateway := Some (gateway ack), if_dhcp := Idle\<rparr>,
                         println (LogBound (client_addr ack) (subnet_mask ack) (gateway ack)) w) })"

definition handle_udp ::
  "('w, 'c, 'e) net_ext \<Rightarrow> network_interface \<Rightarrow> udp_packet \<Rightarrow> ('w, 'c, 'e) net_world
     \<Rightarrow> (network_interface \<times> ('w, 'c, 'e) net_world) option" where
  "handle_udp ext self datagram w =
     (if dest_port datagram = CLIENT_PORT \<and> source_port datagram = SERVER_PORT
      then handle_dhcp ext self datagram w else Some (self, w))"

section \<open>Receiving\<close>

definition for_us :: "network_interface \<Rightarrow> ipv4_packet \<Rightarrow> bool" where
  "for_us self p \<longleftrightarrow>
     ip_dest p = addr_broadcast
     \<or> (case if_ipv4 self of Some my_ip \<Rightarrow> ip_dest p = my_ip | None \<Rightarrow> False)
     \<or> (if_ipv4 self = None \<and> dhcp_xid (if_dhcp self) \<noteq> None)"

definition handle_ipv4 ::
  "('w, 'c, 'e) net_ext \<Rightarrow> network_interface \<Rightarrow> ipv4_packet \<Rightarrow> ('w, 'c, 'e) net_world
     \<Rightarrow> (network_interface \<times> ('w, 'c, 'e) net_world) option" where
  "handle_ipv4 ext self p w =
     (if more_fragments p \<or> frag_offset p \<noteq> 0 then Some (self, w)
      else if \<not> for_us self p then Some (self, w)
      else case protocol p of
        ICMP \<Rightarrow> handle_icmp ext self p w
      | TCP \<Rightarrow> Some (self, w)
      | UDP \<Rightarrow> do {
          parsed \<leftarrow> udp_from_packet p;
          case parsed of
            Inr datagram \<Rightarrow> handle_udp ext self datagram w
          | Inl e \<Rightarrow> Some (self, println (LogUdp e) w) }
      | UnknownProto _ \<Rightarrow> Some (self, println LogUnknownProto w))"

definition handle_packet ::
  "('w, 'c, 'e) net_ext \<Rightarrow> network_interface \<Rightarrow> ethernet_frame \<Rightarrow> mac_address
     \<Rightarrow> ('w, 'c, 'e) net_world \<Rightarrow> (network_interface \<times> ('w, 'c, 'e) net_world) option" where
  "handle_packet ext self frame dst w =
     (if dst \<noteq> if_mac self \<and> dst \<noteq> mac_broadcast then Some (self, w)
      else case frame of
        FrameArp p \<Rightarrow> handle_arp ext self p w
      | FrameIpv4 p \<Rightarrow> handle_ipv4 ext self p w
      | FrameUnknown _ _ \<Rightarrow> Some (self, w))"

definition process_rx ::
  "('w, 'c, 'e) net_ext \<Rightarrow> network_interface \<Rightarrow> bytes \<Rightarrow> ('w, 'c, 'e) net_world
     \<Rightarrow> (network_interface \<times> ('w, 'c, 'e) net_world) option" where
  "process_rx ext self packet w =
     (if length packet < 14 then Some (self, println (LogShort (length packet)) w) else do {
        dst \<leftarrow> read_mac 0 6 packet;
        src \<leftarrow> read_mac 6 12 packet;
        b12 \<leftarrow> slice_get 12 packet;
        b13 \<leftarrow> slice_get 13 packet;
        let ethertype = (from_be_bytes [b12, b13] :: u16);
        let w = (if ethertype = 0x0806 \<or> (ethertype = 0x0800 \<and> dst = net_mac ext)
                 then println (LogRx (length packet) dst src ethertype) w else w);
        parsed \<leftarrow> ethernet_new packet;
        case parsed of
          Inr pkt \<Rightarrow> handle_packet ext self pkt dst w
        | Inl _ \<Rightarrow> Some (self, println LogMalformed w) })"

text \<open>\<open>init_network_interface\<close>, whose \<open>expect\<close> panics on an error.\<close>

definition init_network_interface ::
  "('w, 'c, 'e) net_ext \<Rightarrow> ('w, 'c, 'e) net_world
     \<Rightarrow> (network_interface \<times> ('w, 'c, 'e) net_world) option" where
  "init_network_interface ext w = do {
     let interface = \<lparr> if_mac = net_mac ext, if_ipv4 = None, if_gateway = None,
                       if_subnet_mask = None, if_arp = arp_cache_new, if_dhcp = Idle \<rparr>;
     (result, interface, w) \<leftarrow> init_dhcp ext interface w;
     case result of Inl _ \<Rightarrow> None | Inr _ \<Rightarrow> Some (interface, w) }"

end
