(* ===== verification/Interface_Safety.thy ===== *)
theory Interface_Safety
  imports Interface
begin

text \<open>
  The network interface never panics: what each handler needs to return, that it returns, and
  that it keeps the interface well-formed. The driver accepting every frame and the cipher
  filling every buffer are the two hypotheses on code outside the repository.
\<close>

section \<open>Frames on the wire\<close>

text \<open>\<open>VirtIONet::send\<close> accepts every frame.\<close>

definition driver_sends :: "('w, 'c, 'e) net_ext \<Rightarrow> bool" where
  "driver_sends ext \<longleftrightarrow> (\<forall>frame w. fst (net_send ext frame w) = Inr ())"

text \<open>The bytes of a frame, padded to the Ethernet minimum of 60.\<close>

definition framed :: "network_interface \<Rightarrow> mac_address \<Rightarrow> ether_type \<Rightarrow> bytes \<Rightarrow> bytes" where
  "framed self dst t payload =
     ethernet_layout dst (if_mac self) (u16_of_ether_type t)
       (payload @ replicate (46 - length payload) 0)"

definition transmit ::
  "('w, 'c, 'e) net_ext \<Rightarrow> bytes \<Rightarrow> ('w, 'c, 'e) net_world \<Rightarrow> ('w, 'c, 'e) net_world" where
  "transmit ext frame w =
     w\<lparr>outside := snd (net_send ext frame (outside w)), wire := wire w @ [frame]\<rparr>"

lemma transmit_fields [simp]:
  "wire (transmit ext frame w) = wire w @ [frame]"
  "kernel_rng (transmit ext frame w) = kernel_rng w"
  "console (transmit ext frame w) = console w"
  by (simp_all add: transmit_def)

lemma println_fields [simp]:
  "wire (println l w) = wire w"
  "kernel_rng (println l w) = kernel_rng w"
  "outside (println l w) = outside w"
  by (simp_all add: println_def)

lemma framed_arp_update [simp]: "framed (self\<lparr>if_arp := c\<rparr>) = framed self"
  by (simp add: framed_def fun_eq_iff)

lemma send_frame_transmit:
  assumes "driver_sends ext"
  shows "send_frame ext self dst t payload w = Some (transmit ext (framed self dst t payload) w)"
proof -
  let ?n = "length payload + 14"
  have z: "replicate ?n 0 = [] @ replicate (?n - 0) (0 :: u8)" by simp
  have "max (14 + length payload) 60 - (14 + length payload) = 46 - length payload" by simp
  moreover obtain out where "net_send ext (framed self dst t payload) (outside w) = (Inr (), out)"
    using assms by (metis driver_sends_def prod.collapse)
  ultimately show ?thesis
    unfolding send_frame_def Let_def z
    by ((subst copy_range_prefix[where n = ?n], simp, simp, simp, simp, subst Option.bind_lunit)+)
      (simp add: framed_def ethernet_layout_def transmit_def)
qed

lemma send_frames_transmit:
  assumes "driver_sends ext"
  shows "send_frames ext self dst t payloads w
    = Some (fold (\<lambda>p. transmit ext (framed self dst t p)) payloads w)"
  by (induction payloads arbitrary: w) (simp_all add: send_frame_transmit[OF assms])

lemma fold_transmit_fields [simp]:
  "wire (fold (\<lambda>p. transmit ext (f p)) ps w) = wire w @ map f ps"
  "kernel_rng (fold (\<lambda>p. transmit ext (f p)) ps w) = kernel_rng w"
  "console (fold (\<lambda>p. transmit ext (f p)) ps w) = console w"
  by (induction ps arbitrary: w) simp_all

section \<open>The sender\<close>

definition arp_message ::
  "network_interface \<Rightarrow> arp_operation \<Rightarrow> ipv4_addr \<Rightarrow> mac_address \<Rightarrow> ipv4_addr \<Rightarrow> arp_packet" where
  "arp_message self oper my_ip tmac taddr =
     \<lparr> hardware_type = 1, protocol_type = 0x0800, hardware_len = 6, proto_len = 4,
       operation = oper, sender_mac = if_mac self, sender_addr = my_ip, target_mac = tmac,
       target_addr = taddr \<rparr>"

lemma arp_message_arp_update [simp]: "arp_message (self\<lparr>if_arp := c\<rparr>) = arp_message self"
  by (simp add: arp_message_def fun_eq_iff)

definition arp_frame :: "network_interface \<Rightarrow> mac_address \<Rightarrow> arp_packet \<Rightarrow> bytes" where
  "arp_frame self dst p =
     framed self dst EtherARP (arp_layout (u16_of_operation (operation p)) p)"

lemma arp_frame_arp_update [simp]: "arp_frame (self\<lparr>if_arp := c\<rparr>) = arp_frame self"
  by (simp add: arp_frame_def fun_eq_iff)

definition arp_query :: "network_interface \<Rightarrow> ipv4_addr \<Rightarrow> ipv4_addr \<Rightarrow> bytes" where
  "arp_query self my_ip target =
     arp_frame self mac_broadcast (arp_message self Request my_ip (MacAddress 0 0 0 0 0 0) target)"

lemma arp_query_arp_update [simp]: "arp_query (self\<lparr>if_arp := c\<rparr>) = arp_query self"
  by (simp add: arp_query_def fun_eq_iff)

lemma send_arp_request_transmit:
  assumes "driver_sends ext" and "if_ipv4 self = Some my_ip"
  shows "send_arp_request ext self target w = Some (transmit ext (arp_query self my_ip target) w)"
  using assms
  by (simp add: send_arp_request_def arp_serialize_layout send_frame_transmit arp_query_def
      arp_frame_def arp_message_def)

text \<open>Where a packet goes next: to its destination on the local net, else to the gateway.\<close>

definition next_hop :: "network_interface \<Rightarrow> ipv4_addr \<Rightarrow> ipv4_addr option" where
  "next_hop self dst =
     (case (if_ipv4 self, if_subnet_mask self) of
        (Some my_ip, Some netmask) \<Rightarrow>
          if u32_of_addr dst AND u32_of_addr netmask = u32_of_addr my_ip AND u32_of_addr netmask
          then Some dst else if_gateway self
      | _ \<Rightarrow> None)"

lemma addr_of_u32_inj: "addr_of_u32 a = addr_of_u32 b \<longleftrightarrow> a = b"
  by (metis u32_of_addr_of_u32)

text \<open>What sending a packet does, once its next hop and its bytes are known.\<close>

definition deliver ::
  "('w, 'c, 'e) net_ext \<Rightarrow> network_interface \<Rightarrow> ipv4_addr \<Rightarrow> bytes \<Rightarrow> ('w, 'c, 'e) net_world
     \<Rightarrow> network_interface \<times> ('w, 'c, 'e) net_world" where
  "deliver ext self hop packet w =
     (case arp_lookup (if_arp self) hop of
        Some mac \<Rightarrow> (self, transmit ext (framed self mac EtherIPV4 packet) w)
      | None \<Rightarrow>
          (let (result, cache) = arp_queue_pending hop packet (if_arp self) in
           (self\<lparr>if_arp := cache\<rparr>,
            case result of
              RequestNeeded \<Rightarrow> transmit ext (arp_query self (the (if_ipv4 self)) hop) w
            | AlreadyPending \<Rightarrow> w
            | Dropped \<Rightarrow> println (LogDropped hop) w)))"

lemma send_ipv4_deliver:
  assumes "driver_sends ext" and "ipv4_serialize packet = Some bytes"
  shows "send_ipv4 ext self dst packet w =
    (case next_hop self dst of
       None \<Rightarrow> Some (self, w)
     | Some hop \<Rightarrow> Some (deliver ext self hop bytes w))"
  using assms
  by (auto simp: send_ipv4_def next_hop_def deliver_def addr_of_u32_inj send_frame_transmit Let_def
      send_arp_request_transmit split: option.splits prod.splits queued.splits)

lemma deliver_fields:
  "if_mac (fst (deliver ext self hop packet w)) = if_mac self"
  "if_ipv4 (fst (deliver ext self hop packet w)) = if_ipv4 self"
  "if_gateway (fst (deliver ext self hop packet w)) = if_gateway self"
  "if_subnet_mask (fst (deliver ext self hop packet w)) = if_subnet_mask self"
  "if_dhcp (fst (deliver ext self hop packet w)) = if_dhcp self"
  "kernel_rng (snd (deliver ext self hop packet w)) = kernel_rng w"
  by (simp_all add: deliver_def split: option.splits prod.splits queued.splits)

lemma deliver_arp_ok:
  "arp_cache_ok (if_arp self) \<Longrightarrow> arp_cache_ok (if_arp (fst (deliver ext self hop packet w)))"
  using arp.ok_park[of "if_arp self" hop packet]
  by (auto simp: deliver_def split: option.splits prod.splits)

section \<open>What a handler may change\<close>

text \<open>
  ARP and ICMP change nothing but the ARP cache and the wire; only DHCP touches the
  configuration.
\<close>

definition keeps_config ::
  "network_interface \<Rightarrow> ('w, 'c, 'e) net_world \<Rightarrow> network_interface \<Rightarrow> ('w, 'c, 'e) net_world \<Rightarrow> bool"
  where
  "keeps_config self w self' w' \<longleftrightarrow>
     if_mac self' = if_mac self \<and> if_ipv4 self' = if_ipv4 self
     \<and> if_gateway self' = if_gateway self \<and> if_subnet_mask self' = if_subnet_mask self
     \<and> if_dhcp self' = if_dhcp self \<and> kernel_rng w' = kernel_rng w
     \<and> (arp_cache_ok (if_arp self) \<longrightarrow> arp_cache_ok (if_arp self'))"

lemma keeps_config_refl: "keeps_config self w self w"
  by (simp add: keeps_config_def)

lemma keeps_config_println [simp]:
  "keeps_config self (println l w) self' w' \<longleftrightarrow> keeps_config self w self' w'"
  "keeps_config self w self' (println l w') \<longleftrightarrow> keeps_config self w self' w'"
  by (simp_all add: keeps_config_def)

lemma keeps_config_deliver:
  "keeps_config self w (fst (deliver ext self hop packet w)) (snd (deliver ext self hop packet w))"
  by (simp add: keeps_config_def deliver_fields deliver_arp_ok)

section \<open>ARP\<close>

text \<open>The interface and the world after the sender of an ARP packet has been learned.\<close>

definition learn_sender ::
  "('w, 'c, 'e) net_ext \<Rightarrow> network_interface \<Rightarrow> arp_packet \<Rightarrow> ('w, 'c, 'e) net_world
     \<Rightarrow> network_interface \<times> ('w, 'c, 'e) net_world" where
  "learn_sender ext self p w =
     (if sender_mac p = if_mac self then (self, w)
      else (self\<lparr>if_arp := snd (arp_insert (sender_addr p) (sender_mac p) (if_arp self))\<rparr>,
            fold (\<lambda>packet. transmit ext (framed self (sender_mac p) EtherIPV4 packet))
              (parked (if_arp self) (sender_addr p)) w))"

lemma learn_sender_fields:
  "if_mac (fst (learn_sender ext self p w)) = if_mac self"
  "if_ipv4 (fst (learn_sender ext self p w)) = if_ipv4 self"
  "if_gateway (fst (learn_sender ext self p w)) = if_gateway self"
  "if_subnet_mask (fst (learn_sender ext self p w)) = if_subnet_mask self"
  "if_dhcp (fst (learn_sender ext self p w)) = if_dhcp self"
  "kernel_rng (snd (learn_sender ext self p w)) = kernel_rng w"
  "arp_cache_ok (if_arp self) \<Longrightarrow> arp_cache_ok (if_arp (fst (learn_sender ext self p w)))"
  by (simp_all add: learn_sender_def arp.ok_learn)

definition answer_arp ::
  "('w, 'c, 'e) net_ext \<Rightarrow> network_interface \<Rightarrow> arp_packet \<Rightarrow> ('w, 'c, 'e) net_world
     \<Rightarrow> ('w, 'c, 'e) net_world" where
  "answer_arp ext self p w =
     (if operation p = Request \<and> if_ipv4 self = Some (target_addr p)
      then transmit ext (arp_frame self (sender_mac p)
             (arp_message self Reply (target_addr p) (sender_mac p) (sender_addr p))) w
      else w)"

lemma handle_arp_steps:
  assumes "driver_sends ext"
  shows "handle_arp ext self p w =
    (let (self', w') = learn_sender ext self p w
     in Some (self', println (LogArp p) (answer_arp ext self p w')))"
proof -
  have frames: "arp_insert (sender_addr p) (sender_mac p) (if_arp self)
      = (parked (if_arp self) (sender_addr p),
         snd (arp_insert (sender_addr p) (sender_mac p) (if_arp self)))"
    by (simp add: prod_eq_iff arp_insert_frames)
  show ?thesis
    unfolding handle_arp_def learn_sender_def answer_arp_def
    by (subst frames)
      (auto simp: send_frames_transmit[OF assms] send_frame_transmit[OF assms] Let_def
        arp_serialize_layout arp_frame_def arp_message_def split: option.splits)
qed

lemma handle_arp_keeps:
  assumes "driver_sends ext"
  shows "\<exists>self' w'. handle_arp ext self p w = Some (self', w') \<and> keeps_config self w self' w'"
proof -
  have "kernel_rng (answer_arp ext self p v) = kernel_rng v" for v
    by (simp add: answer_arp_def)
  then show ?thesis
    by (simp add: handle_arp_steps[OF assms] keeps_config_def learn_sender_fields split: prod.split)
      (metis learn_sender_fields fst_conv snd_conv)
qed

section \<open>ICMP\<close>

text \<open>
  A message whose checksum verifies is at least two bytes long, and an echo request at least
  four: no shorter string with those first bytes sums to a multiple of 65535.
\<close>

lemma verified_length:
  assumes "internet_checksum [bs] = Some 0" and "length bs \<le> 65535"
  shows "2 \<le> length bs" and "\<lbrakk>bs ! 0 = 8; bs ! 1 = 0\<rbrakk> \<Longrightarrow> 4 \<le> length bs"
proof -
  have "checksum_small [bs]" using assms(2) by (simp add: checksum_small_def)
  then have dvd: "0 < word_sum bs" "65535 dvd word_sum bs"
    using inet.zero_iff assms(1) by auto
  have odd: "\<not> 65535 dvd 256 * k" if "0 < k" "k < 512" for k :: nat
  proof
    assume "65535 dvd 256 * k"
    then have "65535 dvd 256 * (256 * k)" by (rule dvd_mult)
    then have "65535 dvd 65535 * k + k" by simp
    then have "65535 dvd k" by (simp only: dvd_add_right_iff dvd_triv_left)
    then show False using that by (auto dest: dvd_imp_le)
  qed
  show two: "2 \<le> length bs"
  proof (rule ccontr)
    assume "\<not> 2 \<le> length bs"
    then consider "bs = []" | b where "bs = [b]" by (cases bs) (auto simp: Suc_le_eq)
    then show False
    proof cases
      case (2 b)
      then show False using dvd odd[of "unat b"] unat_byte_bound[of b] by simp
    qed (use dvd in simp)
  qed
  show "4 \<le> length bs" if "bs ! 0 = 8" "bs ! 1 = 0"
  proof (rule ccontr)
    assume "\<not> 4 \<le> length bs"
    with two that consider "bs = [8, 0]" | c where "bs = [8, 0, c]"
      by (cases bs; cases "tl bs"; cases "tl (tl bs)") (auto simp: numeral_eq_Suc Suc_le_eq)
    then show False
    proof cases
      case (2 c)
      then show False using dvd odd[of "8 + unat c"] unat_byte_bound[of c] by simp
    qed (use dvd in simp)
  qed
qed

text \<open>The message an echo request is answered with, and the packet around it.\<close>

definition echo_data :: "u16 \<Rightarrow> bytes \<Rightarrow> bytes" where
  "echo_data checksum request = [0, 0] @ to_be_bytes checksum @ drop 4 request"

lemma length_4_split: "4 \<le> length bs \<Longrightarrow> \<exists>a b c d rest. bs = a # b # c # d # rest"
  by (auto simp: numeral_eq_Suc Suc_le_length_iff)

lemma echo_packet:
  assumes "4 \<le> length request" and "length request \<le> 65515"
  obtains c k reply bytes where "internet_checksum [echo_data 0 request] = Some c"
    and "internet_checksum [echo_data c request] = Some 0"
    and "ipv4_new (echo_data c request) src dst pid ICMP = Inr reply"
    and "ipv4_serialize reply = Some bytes"
    and "\<forall>pad. ipv4_from_packet (bytes @ pad) = Some (Inr (reply\<lparr>ip_checksum := k\<rparr>))"
proof -
  have len: "length (echo_data x request) = length request" for x
    using assms(1) by (simp add: echo_data_def)
  have small: "checksum_small [echo_data x request]" for x
    using assms(2) by (simp add: checksum_small_def len)
  obtain c where c: "internet_checksum [echo_data 0 request] = Some c"
    using inet.no_panic[OF small] by blast
  have "word_sum (echo_data c request) = word_sum (echo_data 0 request) + unat c"
    by (simp add: echo_data_def word_sum_append)
  then have v: "internet_checksum [echo_data c request] = Some 0"
    using inet.sealed_verifies[OF small c small] by simp
  have "length (echo_data c request) \<le> 65515" using assms(2) by (simp add: len)
  then obtain reply where r: "ipv4_new (echo_data c request) src dst pid ICMP = Inr reply"
    by (rule ipv4_new_ok)
  then have wf: "ipv4_wf reply"
    by (rule ipv4_new_wf) (simp add: protocol_canonical_def protocol_of_u8_def)
  obtain k where k: "ipv4_serialize reply = Some (ipv4_header reply k @ ip_data reply)"
    "internet_checksum [ipv4_header reply 0] = Some k"
    "\<forall>pad. ipv4_from_packet (ipv4_header reply k @ ip_data reply @ pad)
      = Some (Inr (reply\<lparr>ip_checksum := k\<rparr>))"
    by (rule ipv4_serialize_wf[OF wf])
  then show thesis by (intro that[OF c v r k(1)]) simp
qed

lemma handle_icmp_echo:
  assumes "driver_sends ext" and "internet_checksum [ip_data p] = Some 0"
    and "ip_data p ! 0 = 8" and "ip_data p ! 1 = 0" and "length (ip_data p) \<le> 65515"
    and "if_ipv4 self = Some src"
    and "internet_checksum [echo_data 0 (ip_data p)] = Some c"
    and "ipv4_new (echo_data c (ip_data p)) src (ip_source p) (ip_id p) ICMP = Inr reply"
    and "ipv4_serialize reply = Some bytes"
  shows "handle_icmp ext self p w =
    (case next_hop self (ip_source p) of
       None \<Rightarrow> Some (self, w)
     | Some hop \<Rightarrow> Some (deliver ext self hop bytes w))"
proof -
  have "4 \<le> length (ip_data p)" using verified_length(2)[of "ip_data p"] assms by simp
  then obtain a b x y rest where bs: "ip_data p = a # b # x # y # rest"
    using length_4_split by blast
  have "a = 8" "b = 0" using assms(3,4) by (simp_all add: bs)
  note bs = bs[unfolded this]
  have "ip_dest reply = ip_source p" by (rule ipv4_new_fields[OF assms(8)])
  then show ?thesis
    using assms(2,6-9) send_ipv4_deliver[OF assms(1,9)]
    by (simp add: handle_icmp_def bs slice_get_def slice_set_def copy_range_def echo_data_def
        to_be_bytes_u16 numeral_2_eq_2 numeral_3_eq_3)
qed

lemma handle_icmp_keeps:
  assumes "driver_sends ext" and "length (ip_data p) \<le> 65515"
  shows "\<exists>self' w'. handle_icmp ext self p w = Some (self', w') \<and> keeps_config self w self' w'"
proof -
  have "checksum_small [ip_data p]" using assms(2) by (simp add: checksum_small_def)
  then obtain k where k: "internet_checksum [ip_data p] = Some k" using inet.no_panic by blast
  consider "k \<noteq> 0" | "k = 0" "\<not> (ip_data p ! 0 = 8 \<and> ip_data p ! 1 = 0)"
    | src where "k = 0" "ip_data p ! 0 = 8" "ip_data p ! 1 = 0" "if_ipv4 self = Some src"
    | "k = 0" "ip_data p ! 0 = 8" "ip_data p ! 1 = 0" "if_ipv4 self = None"
    by blast
  then show ?thesis
  proof cases
    case 1
    then show ?thesis using k by (simp add: handle_icmp_def keeps_config_refl)
  next
    case 3
    have v: "internet_checksum [ip_data p] = Some 0" using k 3 by simp
    then have "4 \<le> length (ip_data p)" using verified_length(2)[of "ip_data p"] 3 assms(2) by simp
    then obtain c q reply bytes where
      "internet_checksum [echo_data 0 (ip_data p)] = Some c"
      "ipv4_new (echo_data c (ip_data p)) src (ip_source p) (ip_id p) ICMP = Inr reply"
      "ipv4_serialize reply = Some bytes"
      using echo_packet[OF _ assms(2)] by metis
    then show ?thesis
      using handle_icmp_echo[OF assms(1) v 3(2,3) assms(2) 3(4), of c reply bytes w]
        keeps_config_deliver[of self w ext]
      by (auto simp: keeps_config_refl split: option.splits) (metis prod.collapse)
  qed (use k verified_length(1)[of "ip_data p"] assms(2) in
    \<open>auto simp: handle_icmp_def slice_get_def keeps_config_refl\<close>)
qed

section \<open>DHCP\<close>

lemma net_from_rand_ok:
  assumes "fills_buffers (net_rng ext)" and "rng_ok (kernel_rng w)"
  obtains v w' where "net_from_rand ext w = Some (Inr v, w')" and "rng_ok (kernel_rng w')"
    and "wire w' = wire w" and "console w' = console w"
proof -
  obtain buf st out where
    "get_random (net_rng ext) (LENGTH('d) div 8) (kernel_rng w) (outside w)
       = Some (Inr (LENGTH('d) div 8) :: 'c + nat, buf, st, out)" and "rng_ok st"
    using get_random_fills[OF assms] by blast
  then show thesis
    by (intro that[of "from_le_bytes buf" "w\<lparr>outside := out, kernel_rng := st\<rparr>"])
      (simp_all add: net_from_rand_def from_rand_def)
qed

text \<open>The bytes of an IPv4 packet that carries a client's DHCP message, behind any padding.\<close>

definition dhcp_packet :: "bytes \<Rightarrow> bytes \<Rightarrow> bool" where
  "dhcp_packet msg bytes \<longleftrightarrow>
     (\<exists>q v. (\<forall>pad. ipv4_from_packet (bytes @ pad) = Some (Inr q))
        \<and> ip_source q = addr_unspecified \<and> ip_dest q = addr_broadcast \<and> protocol q = UDP
        \<and> udp_from_packet q = Some (Inr v) \<and> source_port v = CLIENT_PORT
        \<and> dest_port v = SERVER_PORT \<and> udp_data v = msg)"

lemma send_dhcp_ok:
  assumes "driver_sends ext" and "fills_buffers (net_rng ext)" and "rng_ok (kernel_rng w)"
    and "length msg \<le> 65507"
  obtains bytes w' where "send_dhcp ext self msg w = Some (Inr (), w')"
    and "rng_ok (kernel_rng w')" and "dhcp_packet msg bytes"
    and "wire w' = wire w @ [framed self mac_broadcast EtherIPV4 bytes]"
    and "console w' = console w"
proof -
  obtain pid v where r: "net_from_rand ext w = Some (Inr (pid :: u16), v)"
    "rng_ok (kernel_rng v)" "wire v = wire w" "console v = console w"
    by (rule net_from_rand_ok[OF assms(2,3)])
  obtain u ub ip bytes q d where
    "udp_new CLIENT_PORT SERVER_PORT msg = Inr u"
    "udp_serialize_ipv4 u addr_unspecified addr_broadcast = Some (Inr ub)"
    "ipv4_new ub addr_unspecified addr_broadcast pid UDP = Inr ip"
    "ipv4_serialize ip = Some bytes" and
    q: "\<forall>pad. ipv4_from_packet (bytes @ pad) = Some (Inr q)" "ip_source q = addr_unspecified"
    "ip_dest q = addr_broadcast" "protocol q = UDP" "udp_from_packet q = Some (Inr d)"
    "source_port d = CLIENT_PORT" "dest_port d = SERVER_PORT" "udp_data d = msg"
    using udp_ipv4_path[OF assms(4)] by metis
  then have "send_dhcp ext self msg w
      = Some (Inr (), transmit ext (framed self mac_broadcast EtherIPV4 bytes) v)"
    by (simp add: send_dhcp_def r(1) send_frame_transmit[OF assms(1)])
  moreover have "dhcp_packet msg bytes" unfolding dhcp_packet_def using q by blast
  ultimately show thesis
    using r by (intro that[of "transmit ext (framed self mac_broadcast EtherIPV4 bytes) v"]) simp_all
qed

text \<open>
  The client's state machine without its messages: what a datagram from a server does to the
  interface.
\<close>

definition dhcp_next :: "network_interface \<Rightarrow> bytes \<Rightarrow> network_interface" where
  "dhcp_next self data =
     (case if_dhcp self of
        Idle \<Rightarrow> self
      | Selecting xid \<Rightarrow>
          (case from_offer data xid (if_mac self) of
             Some (Inr offer) \<Rightarrow> self\<lparr>if_dhcp := Requesting xid offer\<rparr>
           | _ \<Rightarrow> self)
      | Requesting xid offer \<Rightarrow>
          (case from_ack data xid (if_mac self) of
             Some (Inr ack) \<Rightarrow>
               if server_id ack = server_id offer
               then self\<lparr>if_ipv4 := Some (client_addr ack),
                         if_subnet_mask := Some (subnet_mask ack),
                         if_gateway := Some (gateway ack), if_dhcp := Idle\<rparr>
               else self
           | _ \<Rightarrow> self))"

lemma read_reply_rng [simp]: "kernel_rng (snd (read_reply r w)) = kernel_rng w"
  by (simp add: read_reply_def split: sum.split)

lemma build_request_ok:
  obtains msg where "build_request mac xid offer = Some msg" and "length msg = 300"
  by (rule that[OF build_request_layout]) (simp add: request_items_def)

lemma handle_dhcp_next:
  assumes "driver_sends ext" and "fills_buffers (net_rng ext)" and "rng_ok (kernel_rng w)"
  obtains w' where "handle_dhcp ext self d w = Some (dhcp_next self (udp_data d), w')"
    and "rng_ok (kernel_rng w')"
proof (cases "if_dhcp self")
  case Idle
  then show thesis using that assms(3) by (simp add: handle_dhcp_def dhcp_next_def)
next
  case (Selecting xid)
  obtain r where r: "from_offer (udp_data d) xid (if_mac self) = Some r"
    by (simp add: from_offer_def from_message_total)
  show thesis
  proof (cases r)
    case (Inl e)
    with Selecting r assms(3) show thesis
      by (intro that[of "snd (read_reply r w)"])
        (simp_all add: handle_dhcp_def dhcp_next_def read_reply_def split: prod.split)
  next
    case (Inr offer)
    obtain msg where m: "build_request (if_mac self) xid offer = Some msg" "length msg = 300"
      by (rule build_request_ok)
    obtain v where "send_dhcp ext self msg w = Some (Inr (), v)" "rng_ok (kernel_rng v)"
      by (rule send_dhcp_ok[OF assms, of msg self]) (use m(2) in auto)
    with Selecting r Inr m show thesis
      by (intro that[of v]) (simp_all add: handle_dhcp_def dhcp_next_def read_reply_def)
  qed
next
  case (Requesting xid offer)
  obtain r where r: "from_ack (udp_data d) xid (if_mac self) = Some r"
    by (simp add: from_ack_def from_message_total)
  show thesis
  proof (cases r)
    case (Inl e)
    with Requesting r assms(3) show thesis
      by (intro that[of "snd (read_reply r w)"])
        (simp_all add: handle_dhcp_def dhcp_next_def read_reply_def split: prod.split)
  next
    case (Inr ack)
    with Requesting r assms(3) that show thesis
      by (cases "server_id ack = server_id offer")
        (simp_all add: handle_dhcp_def dhcp_next_def read_reply_def)
  qed
qed

section \<open>Received frames\<close>

text \<open>
  The DHCP payload a received buffer delivers to the client, if it does: addressed to this
  host, an unfragmented IPv4 packet it accepts, a valid datagram between the DHCP ports.
\<close>

definition dhcp_payload :: "network_interface \<Rightarrow> bytes \<Rightarrow> bytes option" where
  "dhcp_payload self packet =
     (case (ethernet_new packet, read_mac 0 6 packet) of
        (Some (Inr (FrameIpv4 p)), Some dst) \<Rightarrow>
          if (dst = if_mac self \<or> dst = mac_broadcast) \<and> \<not> more_fragments p \<and> frag_offset p = 0
             \<and> for_us self p \<and> protocol p = UDP
          then (case udp_from_packet p of
                  Some (Inr d) \<Rightarrow>
                    if dest_port d = CLIENT_PORT \<and> source_port d = SERVER_PORT
                    then Some (udp_data d) else None
                | _ \<Rightarrow> None)
          else None
      | _ \<Rightarrow> None)"

definition rx_config :: "bytes \<Rightarrow> network_interface \<Rightarrow> network_interface" where
  "rx_config packet self =
     (case dhcp_payload self packet of None \<Rightarrow> self | Some data \<Rightarrow> dhcp_next self data)"

text \<open>The interface without its ARP cache: its configuration and the state of the exchange.\<close>

definition config :: "network_interface \<Rightarrow> network_interface" where
  "config self = self\<lparr>if_arp := arp_cache_new\<rparr>"

lemma config_iff:
  "config self = config self' \<longleftrightarrow>
     if_mac self = if_mac self' \<and> if_ipv4 self = if_ipv4 self' \<and> if_gateway self = if_gateway self'
     \<and> if_subnet_mask self = if_subnet_mask self' \<and> if_dhcp self = if_dhcp self'"
  by (cases self; cases self') (simp add: config_def)

lemma keeps_config_config: "keeps_config self w self' w' \<Longrightarrow> config self' = config self"
  by (simp add: keeps_config_def config_iff)

lemma config_fields [simp]:
  "if_mac (config self) = if_mac self" "if_ipv4 (config self) = if_ipv4 self"
  "if_gateway (config self) = if_gateway self" "if_subnet_mask (config self) = if_subnet_mask self"
  "if_dhcp (config self) = if_dhcp self"
  by (simp_all add: config_def)

lemma config_dhcp_next: "config (dhcp_next self data) = dhcp_next (config self) data"
  by (auto simp: dhcp_next_def config_def split: dhcp_state.splits option.splits sum.splits)

lemma dhcp_payload_config: "dhcp_payload (config self) packet = dhcp_payload self packet"
  unfolding dhcp_payload_def for_us_def config_fields ..

lemma config_rx_config: "config (rx_config packet self) = rx_config packet (config self)"
  by (simp add: rx_config_def dhcp_payload_config config_dhcp_next split: option.split)

lemma dhcp_next_arp [simp]: "if_arp (dhcp_next self data) = if_arp self"
  by (simp add: dhcp_next_def split: dhcp_state.split option.split sum.split)

text \<open>What the receive path needs, of the parameters, the interface and the world.\<close>

definition net_ok ::
  "('w, 'c, 'e) net_ext \<Rightarrow> network_interface \<Rightarrow> ('w, 'c, 'e) net_world \<Rightarrow> bool" where
  "net_ok ext self w \<longleftrightarrow>
     driver_sends ext \<and> fills_buffers (net_rng ext) \<and> rng_ok (kernel_rng w)
     \<and> arp_cache_ok (if_arp self)"

lemma keeps_config_net_ok: "net_ok ext self w \<Longrightarrow> keeps_config self w self' w' \<Longrightarrow> net_ok ext self' w'"
  by (simp add: net_ok_def keeps_config_def)

lemma ipv4_data_bound:
  assumes "ipv4_from_packet bs = Some (Inr p)"
  shows "length (ip_data p) \<le> 65515"
proof -
  have "ipv4_wf p" using assms ipv4_parse_sound(1) by (simp add: ipv4_from_packet_ref)
  then show ?thesis
    using unsigned_less[of "total_length p", where 'a = nat] by (simp add: ipv4_wf_def)
qed

definition ipv4_config :: "network_interface \<Rightarrow> ipv4_packet \<Rightarrow> network_interface" where
  "ipv4_config self p =
     (if \<not> more_fragments p \<and> frag_offset p = 0 \<and> for_us self p \<and> protocol p = UDP
      then (case udp_from_packet p of
              Some (Inr d) \<Rightarrow>
                if dest_port d = CLIENT_PORT \<and> source_port d = SERVER_PORT
                then dhcp_next self (udp_data d) else self
            | _ \<Rightarrow> self)
      else self)"

lemma rx_config_ipv4:
  assumes "ethernet_new packet = Some (Inr (FrameIpv4 p))" and "read_mac 0 6 packet = Some dst"
    and "dst = if_mac self \<or> dst = mac_broadcast"
  shows "rx_config packet self = ipv4_config self p"
  using assms
  by (auto simp: rx_config_def dhcp_payload_def ipv4_config_def split: option.split sum.split)

lemma handle_ipv4_ok:
  assumes "net_ok ext self w" and "length (ip_data p) \<le> 65515"
  obtains self' w' where "handle_ipv4 ext self p w = Some (self', w')" and "net_ok ext self' w'"
    and "config self' = config (ipv4_config self p)"
proof -
  from assms(1) have ok: "driver_sends ext" "fills_buffers (net_rng ext)" "rng_ok (kernel_rng w)"
    by (simp_all add: net_ok_def)
  obtain r where r: "udp_from_packet p = Some r" using udp_from_packet_ref by blast
  consider "more_fragments p \<or> frag_offset p \<noteq> 0 \<or> \<not> for_us self p"
    | "\<not> more_fragments p" "frag_offset p = 0" "for_us self p" "protocol p = ICMP"
    | d where "\<not> more_fragments p" "frag_offset p = 0" "for_us self p" "protocol p = UDP"
        "r = Inr d" "dest_port d = CLIENT_PORT" "source_port d = SERVER_PORT"
    | "\<not> more_fragments p" "frag_offset p = 0" "for_us self p" "protocol p \<noteq> ICMP"
        "protocol p = UDP \<longrightarrow> (\<forall>d. r = Inr d \<longrightarrow> \<not> (dest_port d = CLIENT_PORT \<and> source_port d = SERVER_PORT))"
    by blast
  then show thesis
  proof cases
    case 1
    then have "handle_ipv4 ext self p w = Some (self, w)" "ipv4_config self p = self"
      by (auto simp: handle_ipv4_def ipv4_config_def)
    then show thesis using that[of self w] assms(1) by simp
  next
    case 2
    obtain s v where "handle_icmp ext self p w = Some (s, v)" "keeps_config self w s v"
      using handle_icmp_keeps[OF ok(1) assms(2)] by blast
    with 2 show thesis
      using that[of s v] keeps_config_net_ok[OF assms(1)]
      by (simp add: handle_ipv4_def ipv4_config_def keeps_config_config)
  next
    case (3 d)
    obtain v where "handle_dhcp ext self d w = Some (dhcp_next self (udp_data d), v)"
      "rng_ok (kernel_rng v)" by (rule handle_dhcp_next[OF ok])
    with 3 assms(1) r show thesis
      by (intro that) (auto simp: handle_ipv4_def handle_udp_def ipv4_config_def net_ok_def)
  next
    case 4
    then have "ipv4_config self p = self"
      using r by (auto simp: ipv4_config_def split: sum.splits)
    moreover obtain v where "handle_ipv4 ext self p w = Some (self, v)" "kernel_rng v = kernel_rng w"
      using 4 r
      by (cases "protocol p"; cases r)
        (auto simp: handle_ipv4_def handle_udp_def intro: println_fields(2))
    ultimately show thesis using that[of self v] assms(1) by (simp add: net_ok_def)
  qed
qed

lemma ethernet_ipv4:
  assumes "ethernet_new packet = Some (Inr (FrameIpv4 p))"
  shows "length (ip_data p) \<le> 65515"
proof -
  have "14 \<le> length packet" using assms by (auto simp: ethernet_new_def split: if_splits)
  then obtain dst src t payload where pk: "packet = ethernet_layout dst src t payload"
    by (rule ethernet_layout_exists)
  have "ipv4_from_packet payload = Some (Inr p)"
    using assms arp_no_panic[of payload] unfolding pk ethernet_dispatch ipv4_from_packet_ref
    by (cases "ipv4_parse_ref payload"; cases "the (arp_from_slice payload)") (auto split: if_splits)
  then show ?thesis by (rule ipv4_data_bound)
qed

text \<open>The receive path up to the dispatch: it reads the destination and at most prints.\<close>

lemma process_rx_dispatch:
  assumes "14 \<le> length packet"
  obtains dst r v where "read_mac 0 6 packet = Some dst" and "ethernet_new packet = Some r"
    and "wire v = wire w" and "kernel_rng v = kernel_rng w"
    and "process_rx ext self packet w = (case r of
        Inr pkt \<Rightarrow> handle_packet ext self pkt dst v | Inl _ \<Rightarrow> Some (self, println LogMalformed v))"
proof -
  obtain dst src t payload where pk: "packet = ethernet_layout dst src t payload"
    using assms by (rule ethernet_layout_exists)
  note reads = ethernet_layout_reads[of dst src t payload, folded pk]
  obtain r where r: "ethernet_new packet = Some r" using ethernet_no_panic by blast
  let ?v = "if t = 0x0806 \<or> (t = 0x0800 \<and> dst = net_mac ext)
    then println (LogRx (length packet) dst src t) w else w"
  show thesis
  proof (rule that[of dst r ?v])
    show "process_rx ext self packet w = (case r of
        Inr pkt \<Rightarrow> handle_packet ext self pkt dst ?v | Inl _ \<Rightarrow> Some (self, println LogMalformed ?v))"
      using assms
      by (cases r) (simp_all add: process_rx_def reads r from_be_bytes_u16_pair Let_def)
  qed (simp_all add: reads r)
qed

lemma handle_packet_ok:
  assumes "net_ok ext self w" and "ethernet_new packet = Some (Inr pkt)"
    and "read_mac 0 6 packet = Some dst"
  obtains self' w' where "handle_packet ext self pkt dst w = Some (self', w')"
    and "net_ok ext self' w'" and "config self' = rx_config packet (config self)"
proof -
  have skip: "rx_config packet (config self) = config self"
    if "\<And>p. pkt = FrameIpv4 p \<Longrightarrow> dst \<noteq> if_mac self \<and> dst \<noteq> mac_broadcast"
    using that assms(2,3) by (auto simp: rx_config_def dhcp_payload_def split: ethernet_frame.split)
  consider (ignored) "dst \<noteq> if_mac self \<and> dst \<noteq> mac_broadcast \<or> (\<exists>t b. pkt = FrameUnknown t b)"
    | (arp) p where "pkt = FrameArp p" "dst = if_mac self \<or> dst = mac_broadcast"
    | (ip) p where "pkt = FrameIpv4 p" "dst = if_mac self \<or> dst = mac_broadcast"
    by (cases pkt) auto
  then show thesis
  proof cases
    case ignored
    then show thesis using that[of self w] assms(1) skip by (auto simp: handle_packet_def)
  next
    case arp
    obtain s u where "handle_arp ext self p w = Some (s, u)" "keeps_config self w s u"
      using handle_arp_keeps assms(1) by (metis net_ok_def)
    with arp show thesis
      using that[of s u] skip keeps_config_net_ok[OF assms(1)] keeps_config_config[of self w s u]
      by (auto simp: handle_packet_def)
  next
    case ip
    have "length (ip_data p) \<le> 65515" using assms(2) unfolding ip by (rule ethernet_ipv4)
    then obtain s u where "handle_ipv4 ext self p w = Some (s, u)" "net_ok ext s u"
      "config s = config (ipv4_config self p)" by (rule handle_ipv4_ok[OF assms(1)])
    with ip show thesis
      using that[of s u] rx_config_ipv4[of packet p dst self] assms(2,3)
      by (auto simp: handle_packet_def config_rx_config[symmetric])
  qed
qed

lemma process_rx_ok:
  assumes "net_ok ext self w"
  obtains self' w' where "process_rx ext self packet w = Some (self', w')"
    and "net_ok ext self' w'" and "config self' = rx_config packet (config self)"
proof (cases "length packet < 14")
  case True
  then show thesis
    using that[of self] assms
    by (simp add: process_rx_def net_ok_def rx_config_def dhcp_payload_def ethernet_new_def)
next
  case False
  then have l: "14 \<le> length packet" by simp
  obtain dst r v where r: "read_mac 0 6 packet = Some dst" "ethernet_new packet = Some r"
    "wire v = wire w" "kernel_rng v = kernel_rng w"
    "process_rx ext self packet w = (case r of
        Inr pkt \<Rightarrow> handle_packet ext self pkt dst v | Inl _ \<Rightarrow> Some (self, println LogMalformed v))"
    by (rule process_rx_dispatch[OF l])
  have v: "net_ok ext self v" using assms r(4) by (simp add: net_ok_def)
  show thesis
  proof (cases r)
    case (Inl e)
    with r v show thesis
      using that[of self "println LogMalformed v"]
      by (simp add: net_ok_def rx_config_def dhcp_payload_def)
  next
    case (Inr pkt)
    from handle_packet_ok[OF v r(2)[unfolded Inr] r(1)] obtain s u where
      "handle_packet ext self pkt dst v = Some (s, u)" "net_ok ext s u"
      "config s = rx_config packet (config self)" by blast
    with r(5) Inr show thesis using that[of s u] by simp
  qed
qed

end
