(* ===== verification/Executor.thy ===== *)
theory Executor
  imports Btree_Map
begin

text \<open>
  The cooperative executor (\<open>kernel/src/task/mod.rs\<close> and \<open>kernel/src/task/executor.rs\<close>). The
  lock-free queue of task ids and the futures are parameters: the queue as the operations the
  code calls, a future as what one poll of it does. A waker is the id of the task it wakes, since
  every waker of the executor pushes that id onto the one shared queue.
\<close>

section \<open>The queue\<close>

text \<open>\<open>ArrayQueue::new\<close>, \<open>push\<close> (true for \<open>Ok\<close>), \<open>pop\<close> and \<open>is_empty\<close>.\<close>

record ('q, 'a) queue_ops =
  q_new :: "nat \<Rightarrow> 'q"
  q_push :: "'a \<Rightarrow> 'q \<Rightarrow> bool \<times> 'q"
  q_pop :: "'q \<Rightarrow> 'a option \<times> 'q"
  q_is_empty :: "'q \<Rightarrow> bool"

text \<open>
  What its documentation promises, over the elements it holds: a bounded queue, first in first
  out, that refuses an element when it is full.
\<close>

definition fifo :: "('q, 'a) queue_ops \<Rightarrow> nat \<Rightarrow> ('q \<Rightarrow> 'a list) \<Rightarrow> bool" where
  "fifo ops cap content \<longleftrightarrow>
     content (q_new ops cap) = []
     \<and> (\<forall>q x. fst (q_push ops x q) = (length (content q) < cap)
          \<and> content (snd (q_push ops x q))
              = (if length (content q) < cap then content q @ [x] else content q))
     \<and> (\<forall>q. fst (q_pop ops q) = (case content q of [] \<Rightarrow> None | x # _ \<Rightarrow> Some x)
          \<and> content (snd (q_pop ops q)) = tl (content q))
     \<and> (\<forall>q. q_is_empty ops q = (content q = []))"

lemma fifo_push:
  assumes "fifo ops cap content"
  shows "length (content q) < cap \<Longrightarrow> \<exists>q'. q_push ops x q = (True, q') \<and> content q' = content q @ [x]"
    and "\<not> length (content q) < cap \<Longrightarrow> \<exists>q'. q_push ops x q = (False, q') \<and> content q' = content q"
  using assms unfolding fifo_def by (metis (full_types) prod.collapse)+

lemma fifo_pop:
  assumes "fifo ops cap content"
  shows "content q = [] \<Longrightarrow> \<exists>q'. q_pop ops q = (None, q') \<and> content q' = []"
    and "content q = x # xs \<Longrightarrow> \<exists>q'. q_pop ops q = (Some x, q') \<and> content q' = xs"
  using assms unfolding fifo_def by (metis (no_types) list.simps(4,5) list.sel prod.collapse)+

section \<open>Tasks\<close>

datatype poll = PollReady | PollPending

record 'f task =
  task_id :: u64
  future :: 'f

text \<open>\<open>TaskId::new\<close> on the counter \<open>NEXT_ID\<close>, whose \<open>fetch_add\<close> wraps, and \<open>Task::new\<close>.\<close>

definition task_id_new :: "u64 \<Rightarrow> u64 \<times> u64" where
  "task_id_new next_id = (next_id, next_id + 1)"

definition task_new :: "'f \<Rightarrow> u64 \<Rightarrow> 'f task \<times> u64" where
  "task_new fut next_id =
     (let (tid, next_id) = task_id_new next_id in (\<lparr> task_id = tid, future = fut \<rparr>, next_id))"

text \<open>
  One poll of a future, given its waker: the outcome, the future afterwards, the ids of the tasks
  it woke, in order, and the world. A poll that panics, or that never returns, is \<^const>\<open>None\<close>.
\<close>

type_synonym ('f, 'w) poll_fn = "u64 \<Rightarrow> 'f \<Rightarrow> 'w \<Rightarrow> (poll \<times> 'f \<times> u64 list \<times> 'w) option"

section \<open>The executor\<close>

record ('q, 'f) executor =
  tasks :: "(u64, 'f task) btree"
  task_queue :: 'q
  waker_cache :: "(u64, u64) btree"

definition wake_task :: "('q, u64) queue_ops \<Rightarrow> u64 \<Rightarrow> 'q \<Rightarrow> 'q option" where
  "wake_task ops tid q = (case q_push ops tid q of (True, q) \<Rightarrow> Some q | (False, _) \<Rightarrow> None)"

fun wake_tasks :: "('q, u64) queue_ops \<Rightarrow> u64 list \<Rightarrow> 'q \<Rightarrow> 'q option" where
  "wake_tasks ops [] q = Some q"
| "wake_tasks ops (tid # tids) q = do { q \<leftarrow> wake_task ops tid q; wake_tasks ops tids q }"

definition executor_new :: "('q, u64) queue_ops \<Rightarrow> ('q, 'f) executor" where
  "executor_new ops = \<lparr> tasks = [], task_queue = q_new ops 100, waker_cache = [] \<rparr>"

definition spawn ::
  "('q, u64) queue_ops \<Rightarrow> 'f task \<Rightarrow> ('q, 'f) executor \<Rightarrow> ('q, 'f) executor option" where
  "spawn ops t ex =
     (if bt_get (tasks ex) (task_id t) \<noteq> None then None else do {
        q \<leftarrow> wake_task ops (task_id t) (task_queue ex);
        Some (ex\<lparr>tasks := bt_insert (task_id t) t (tasks ex), task_queue := q\<rparr>) })"

text \<open>The body of the loop of \<open>run_ready_tasks\<close>, for the id that was popped.\<close>

definition cached_waker :: "u64 \<Rightarrow> (u64, u64) btree \<Rightarrow> u64 \<times> (u64, u64) btree" where
  "cached_waker tid cache =
     (case bt_get cache tid of Some wk \<Rightarrow> (wk, cache) | None \<Rightarrow> (tid, bt_insert tid tid cache))"

definition run_task ::
  "('q, u64) queue_ops \<Rightarrow> ('f, 'w) poll_fn \<Rightarrow> u64 \<Rightarrow> ('q, 'f) executor \<Rightarrow> 'w
     \<Rightarrow> (('q, 'f) executor \<times> 'w) option" where
  "run_task ops poll_fut tid ex w =
     (case bt_get (tasks ex) tid of
        None \<Rightarrow> Some (ex, w)
      | Some t \<Rightarrow>
          (let (wk, cache) = cached_waker tid (waker_cache ex)
           in do {
             (outcome, fut, wakes, w) \<leftarrow> poll_fut wk (future t) w;
             q \<leftarrow> wake_tasks ops wakes (task_queue ex);
             case outcome of
               PollReady \<Rightarrow>
                 Some (ex\<lparr>tasks := bt_remove tid (tasks ex), task_queue := q,
                          waker_cache := bt_remove tid cache\<rparr>, w)
             | PollPending \<Rightarrow>
                 Some (ex\<lparr>tasks := bt_insert tid (t\<lparr>future := fut\<rparr>) (tasks ex), task_queue := q,
                          waker_cache := cache\<rparr>, w) }))"

text \<open>Not ending is \<^const>\<open>None\<close>, as a panic is.\<close>

partial_function (option) run_ready_tasks ::
  "('q, u64) queue_ops \<Rightarrow> ('f, 'w) poll_fn \<Rightarrow> ('q, 'f) executor \<Rightarrow> 'w
     \<Rightarrow> (('q, 'f) executor \<times> 'w) option" where
  [code]: "run_ready_tasks ops poll_fut ex w =
     (case q_pop ops (task_queue ex) of
        (None, q) \<Rightarrow> Some (ex\<lparr>task_queue := q\<rparr>, w)
      | (Some tid, q) \<Rightarrow> do {
          (ex, w) \<leftarrow> run_task ops poll_fut tid (ex\<lparr>task_queue := q\<rparr>) w;
          run_ready_tasks ops poll_fut ex w })"

text \<open>\<open>sleep_if_idle\<close>: whether the processor halts, tested with interrupts disabled.\<close>

record cpu =
  interrupts_on :: bool
  halted :: bool

definition sleep_if_idle :: "('q, u64) queue_ops \<Rightarrow> ('q, 'f) executor \<Rightarrow> cpu \<Rightarrow> cpu" where
  "sleep_if_idle ops ex c =
     (let c = c\<lparr>interrupts_on := False\<rparr>
      in if q_is_empty ops (task_queue ex) then c\<lparr>interrupts_on := True, halted := True\<rparr>
         else c\<lparr>interrupts_on := True\<rparr>)"

section \<open>Waking\<close>

lemma wake_task_ok:
  assumes "fifo ops cap content"
  shows "case wake_task ops tid q of
      Some q' \<Rightarrow> length (content q) < cap \<and> content q' = content q @ [tid]
    | None \<Rightarrow> length (content q) = cap \<or> cap < length (content q)"
  using fifo_push[OF assms, of q tid]
  by (cases "length (content q) < cap") (auto simp: wake_task_def)

lemma wake_tasks_ok:
  assumes "fifo ops cap content" and "length (content q) + length tids \<le> cap"
  shows "\<exists>q'. wake_tasks ops tids q = Some q' \<and> content q' = content q @ tids"
  using assms(2)
proof (induction tids arbitrary: q)
  case (Cons tid tids)
  obtain q1 where q1: "wake_task ops tid q = Some q1" "content q1 = content q @ [tid]"
    using wake_task_ok[OF assms(1), of q tid] Cons.prems
    by (cases "wake_task ops tid q") auto
  with Cons.IH[of q1] Cons.prems show ?case by simp
qed simp

lemma wake_tasks_content:
  assumes "fifo ops cap content" and "wake_tasks ops tids q = Some q'"
  shows "content q' = content q @ tids"
  using assms(2)
proof (induction tids arbitrary: q)
  case (Cons tid tids)
  then obtain q1 where "wake_task ops tid q = Some q1" "wake_tasks ops tids q1 = Some q'"
    by (auto split: bind_splits)
  with Cons.IH wake_task_ok[OF assms(1), of q tid] show ?case by auto
qed simp

section \<open>The invariant\<close>

definition executor_ok :: "('q, 'f) executor \<Rightarrow> bool" where
  "executor_ok ex \<longleftrightarrow> bt_ok (tasks ex) \<and> bt_ok (waker_cache ex)
     \<and> (\<forall>tid t. bt_get (tasks ex) tid = Some t \<longrightarrow> task_id t = tid)
     \<and> (\<forall>tid wk. bt_get (waker_cache ex) tid = Some wk \<longrightarrow> wk = tid \<and> bt_get (tasks ex) tid \<noteq> None)"

text \<open>What a dispatch does, once the queue accepts what it wakes.\<close>

definition poll_of ::
  "('f, 'w) poll_fn \<Rightarrow> u64 \<Rightarrow> ('q, 'f) executor \<Rightarrow> 'w \<Rightarrow> (poll \<times> 'f \<times> u64 list \<times> 'w) option option" where
  "poll_of poll_fut tid ex w = map_option (\<lambda>t. poll_fut tid (future t) w) (bt_get (tasks ex) tid)"

definition wakes_of :: "('f, 'w) poll_fn \<Rightarrow> u64 \<Rightarrow> ('q, 'f) executor \<Rightarrow> 'w \<Rightarrow> u64 list" where
  "wakes_of poll_fut tid ex w =
     (case poll_of poll_fut tid ex w of Some (Some (_, _, wakes, _)) \<Rightarrow> wakes | _ \<Rightarrow> [])"

definition world_after :: "('f, 'w) poll_fn \<Rightarrow> u64 \<Rightarrow> ('q, 'f) executor \<Rightarrow> 'w \<Rightarrow> 'w" where
  "world_after poll_fut tid ex w =
     (case poll_of poll_fut tid ex w of Some (Some (_, _, _, w)) \<Rightarrow> w | _ \<Rightarrow> w)"

definition finishes :: "('f, 'w) poll_fn \<Rightarrow> u64 \<Rightarrow> ('q, 'f) executor \<Rightarrow> 'w \<Rightarrow> bool" where
  "finishes poll_fut tid ex w \<longleftrightarrow>
     (case poll_of poll_fut tid ex w of Some (Some (r, _)) \<Rightarrow> r = PollReady | _ \<Rightarrow> False)"

text \<open>The id is that of a task whose poll panics.\<close>

definition poll_panics :: "('f, 'w) poll_fn \<Rightarrow> u64 \<Rightarrow> ('q, 'f) executor \<Rightarrow> 'w \<Rightarrow> bool" where
  "poll_panics poll_fut tid ex w \<longleftrightarrow> poll_of poll_fut tid ex w = Some None"

lemmas dispatch_defs = poll_of_def wakes_of_def world_after_def finishes_def poll_panics_def

lemma cached_waker_ok:
  assumes "executor_ok ex"
  shows "fst (cached_waker tid (waker_cache ex)) = tid"
    and "bt_ok (snd (cached_waker tid (waker_cache ex)))"
    and "bt_get (snd (cached_waker tid (waker_cache ex))) = (bt_get (waker_cache ex))(tid \<mapsto> tid)"
  using assms bt_get_insert[of "waker_cache ex" tid tid] bt_ok_insert[of "waker_cache ex" tid tid]
  by (auto simp: cached_waker_def executor_ok_def fun_eq_iff split: option.splits)

lemma run_task_steps:
  assumes "executor_ok ex"
  shows "poll_panics poll_fut tid ex w \<Longrightarrow> run_task ops poll_fut tid ex w = None"
    and "wake_tasks ops (wakes_of poll_fut tid ex w) (task_queue ex) = None \<Longrightarrow>
      run_task ops poll_fut tid ex w = None"
    and "\<not> poll_panics poll_fut tid ex w \<Longrightarrow>
      wake_tasks ops (wakes_of poll_fut tid ex w) (task_queue ex) = Some q \<Longrightarrow>
      \<exists>ex'. run_task ops poll_fut tid ex w = Some (ex', world_after poll_fut tid ex w)
         \<and> executor_ok ex' \<and> task_queue ex' = q
         \<and> dom (bt_get (tasks ex')) = (if finishes poll_fut tid ex w
              then dom (bt_get (tasks ex)) - {tid} else dom (bt_get (tasks ex)))"
proof -
  obtain cache where c: "cached_waker tid (waker_cache ex) = (tid, cache)" "bt_ok cache"
    "bt_get cache = (bt_get (waker_cache ex))(tid \<mapsto> tid)"
    using cached_waker_ok[OF assms, of tid] by (metis prod.collapse)
  show "poll_panics poll_fut tid ex w \<Longrightarrow> run_task ops poll_fut tid ex w = None"
    using c(1) by (auto simp: run_task_def dispatch_defs)
  show "wake_tasks ops (wakes_of poll_fut tid ex w) (task_queue ex) = None \<Longrightarrow>
      run_task ops poll_fut tid ex w = None"
    using c(1) by (auto simp: run_task_def dispatch_defs split: option.splits bind_splits)
  assume np: "\<not> poll_panics poll_fut tid ex w"
    and q: "wake_tasks ops (wakes_of poll_fut tid ex w) (task_queue ex) = Some q"
  note ok = assms[unfolded executor_ok_def]
  show "\<exists>ex'. run_task ops poll_fut tid ex w = Some (ex', world_after poll_fut tid ex w)
         \<and> executor_ok ex' \<and> task_queue ex' = q
         \<and> dom (bt_get (tasks ex')) = (if finishes poll_fut tid ex w
              then dom (bt_get (tasks ex)) - {tid} else dom (bt_get (tasks ex)))"
  proof (cases "bt_get (tasks ex) tid")
    case None
    then show ?thesis using assms q by (simp add: run_task_def dispatch_defs)
  next
    case (Some t)
    obtain outcome fut wakes w' where p: "poll_fut tid (future t) w = Some (outcome, fut, wakes, w')"
      using np Some by (auto simp: dispatch_defs)
    have id: "task_id t = tid" using ok Some by blast
    show ?thesis
    proof (cases outcome)
      case PollReady
      then show ?thesis
        using Some p c ok q
        by (auto simp: run_task_def dispatch_defs executor_ok_def bt_ok_remove bt_get_remove)
    next
      case PollPending
      then show ?thesis
        using Some p c ok id q
        by (auto simp: run_task_def dispatch_defs executor_ok_def bt_ok_insert bt_get_insert)
    qed
  qed
qed

lemma run_task_Some:
  assumes "executor_ok ex" and "run_task ops poll_fut tid ex w = Some r"
  shows "\<not> poll_panics poll_fut tid ex w
    \<and> (\<exists>q. wake_tasks ops (wakes_of poll_fut tid ex w) (task_queue ex) = Some q)"
  using run_task_steps(1,2)[OF assms(1)] assms(2) by fastforce

section \<open>Dispatching\<close>

text \<open>The ids a run pops, in order, and the ids its polls wake, in order.\<close>

inductive dispatches ::
  "('q, u64) queue_ops \<Rightarrow> ('f, 'w) poll_fn \<Rightarrow> ('q, 'f) executor \<Rightarrow> 'w \<Rightarrow> u64 list \<Rightarrow> u64 list
     \<Rightarrow> ('q, 'f) executor \<Rightarrow> 'w \<Rightarrow> bool" for ops poll_fut where
  idle: "dispatches ops poll_fut ex w [] [] ex w"
| popped: "\<lbrakk>q_pop ops (task_queue ex) = (Some tid, q);
     run_task ops poll_fut tid (ex\<lparr>task_queue := q\<rparr>) w = Some (ex1, w1);
     dispatches ops poll_fut ex1 w1 tids wakes ex' w'\<rbrakk>
    \<Longrightarrow> dispatches ops poll_fut ex w (tid # tids)
          (wakes_of poll_fut tid (ex\<lparr>task_queue := q\<rparr>) w @ wakes) ex' w'"

lemma executor_ok_queue [simp]: "executor_ok (ex\<lparr>task_queue := q\<rparr>) \<longleftrightarrow> executor_ok ex"
  by (simp add: executor_ok_def)

lemma wakes_of_queue [simp]: "wakes_of poll_fut tid (ex\<lparr>task_queue := q\<rparr>) = wakes_of poll_fut tid ex"
  by (simp add: wakes_of_def poll_of_def fun_eq_iff)

lemma poll_panics_queue [simp]:
  "poll_panics poll_fut tid (ex\<lparr>task_queue := q\<rparr>) = poll_panics poll_fut tid ex"
  by (simp add: poll_panics_def poll_of_def fun_eq_iff)

lemma run_task_content:
  assumes "fifo ops cap content" and "executor_ok ex" and "run_task ops poll_fut tid ex w = Some (ex', w')"
  shows "content (task_queue ex') = content (task_queue ex) @ wakes_of poll_fut tid ex w"
    and "executor_ok ex'"
proof -
  obtain q where q: "\<not> poll_panics poll_fut tid ex w"
    "wake_tasks ops (wakes_of poll_fut tid ex w) (task_queue ex) = Some q"
    using run_task_Some[OF assms(2,3)] by blast
  with run_task_steps(3)[OF assms(2) q] assms(3) have "task_queue ex' = q" "executor_ok ex'" by auto
  then show "content (task_queue ex') = content (task_queue ex) @ wakes_of poll_fut tid ex w"
    "executor_ok ex'" using wake_tasks_content[OF assms(1) q(2)] by simp_all
qed

text \<open>Conservation: what was queued, then what was woken, is what was popped, then what is left.\<close>

lemma dispatches_conserve:
  assumes "dispatches ops poll_fut ex w tids wakes ex' w'" and "fifo ops cap content" and "executor_ok ex"
  shows "content (task_queue ex) @ wakes = tids @ content (task_queue ex') \<and> executor_ok ex'"
  using assms(1,3)
proof induction
  case (popped ex tid q w ex1 w1 tids wakes ex' w')
  then have "content (task_queue ex) = tid # content q"
    using fifo_pop[OF assms(2), of "task_queue ex"] by (cases "content (task_queue ex)") auto
  moreover have "content (task_queue ex1) = content q @ wakes_of poll_fut tid ex w" "executor_ok ex1"
    using run_task_content[OF assms(2) _ popped.hyps(2)] popped.prems by simp_all
  ultimately show ?case using popped.IH by simp
qed simp

lemma run_ready_dispatches:
  assumes "dispatches ops poll_fut ex w tids wakes ex' w'" and "q_pop ops (task_queue ex') = (None, q)"
  shows "run_ready_tasks ops poll_fut ex w = Some (ex'\<lparr>task_queue := q\<rparr>, w')"
  using assms
proof induction
  case (idle ex w)
  then show ?case by (subst run_ready_tasks.simps) simp
next
  case (popped ex tid q' w ex1 w1 tids wakes ex' w')
  then show ?case by (subst run_ready_tasks.simps) simp
qed

text \<open>
  Futures that do not panic and wake boundedly often: a number, computed from the world, that
  every wake decreases.
\<close>

definition wakes_bounded :: "('f, 'w) poll_fn \<Rightarrow> ('w \<Rightarrow> nat) \<Rightarrow> bool" where
  "wakes_bounded poll_fut budget \<longleftrightarrow>
     (\<forall>tid f w. case poll_fut tid f w of
        None \<Rightarrow> False
      | Some (_, _, wakes, w') \<Rightarrow> length wakes + budget w' \<le> budget w)"

lemma wakes_boundedD:
  assumes "wakes_bounded poll_fut budget"
  shows "length (wakes_of poll_fut tid ex w) + budget (world_after poll_fut tid ex w) \<le> budget w"
    and "\<not> poll_panics poll_fut tid ex w"
proof -
  have "\<exists>r f' wakes w'. poll_fut tid f w = Some (r, f', wakes, w')
      \<and> length wakes + budget w' \<le> budget w" for f
  proof -
    have "case poll_fut tid f w of None \<Rightarrow> False
        | Some (_, _, wakes, w') \<Rightarrow> length wakes + budget w' \<le> budget w"
      using assms by (simp only: wakes_bounded_def)
    then show ?thesis by (simp split: option.splits prod.splits)
  qed
  note total = this
  have "length (wakes_of poll_fut tid ex w) + budget (world_after poll_fut tid ex w) \<le> budget w
    \<and> \<not> poll_panics poll_fut tid ex w"
  proof (cases "bt_get (tasks ex) tid")
    case (Some t)
    obtain r f' wakes w' where "poll_fut tid (future t) w = Some (r, f', wakes, w')"
      "length wakes + budget w' \<le> budget w" using total by blast
    then show ?thesis using Some by (simp add: dispatch_defs)
  qed (simp add: dispatch_defs)
  then show "length (wakes_of poll_fut tid ex w) + budget (world_after poll_fut tid ex w) \<le> budget w"
    and "\<not> poll_panics poll_fut tid ex w" by simp_all
qed

lemma dispatches_all:
  assumes "fifo ops cap content" and "wakes_bounded poll_fut budget"
  shows "executor_ok ex \<Longrightarrow> length (content (task_queue ex)) + budget w \<le> cap \<Longrightarrow>
    \<exists>tids wakes ex' w'. dispatches ops poll_fut ex w tids wakes ex' w' \<and> content (task_queue ex') = []
      \<and> length wakes + budget w' \<le> budget w"
proof (induction "length (content (task_queue ex)) + budget w" arbitrary: ex w rule: less_induct)
  case less
  show ?case
  proof (cases "content (task_queue ex)")
    case Nil
    then show ?thesis using dispatches.idle by fastforce
  next
    case (Cons tid rest)
    then obtain q where q: "q_pop ops (task_queue ex) = (Some tid, q)" "content q = rest"
      using fifo_pop(2)[OF assms(1)] by blast
    let ?ex = "ex\<lparr>task_queue := q\<rparr>"
    let ?ws = "wakes_of poll_fut tid ex w" and ?w1 = "world_after poll_fut tid ?ex w"
    have b: "length ?ws + budget ?w1 \<le> budget w"
      using wakes_boundedD(1)[OF assms(2), where tid = tid and ex = ?ex and w = w] by simp
    have room: "length (content q) + length ?ws \<le> cap" using less.prems(2) Cons q(2) b by simp
    obtain ex1 where ex1: "run_task ops poll_fut tid ?ex w = Some (ex1, ?w1)" "executor_ok ex1"
      "content (task_queue ex1) = rest @ ?ws"
      using run_task_steps(3)[of ?ex poll_fut tid w ops] wake_tasks_ok[OF assms(1) room] less.prems(1) q(2)
        wakes_boundedD(2)[OF assms(2), where tid = tid and ex = ex and w = w]
      by auto
    have "length (content (task_queue ex1)) + budget ?w1 < length (content (task_queue ex)) + budget w"
      using b Cons ex1(3) by simp
    moreover have "length (content (task_queue ex1)) + budget ?w1 \<le> cap"
      using calculation less.prems(2) by simp
    ultimately obtain tids wakes ex' w' where
      "dispatches ops poll_fut ex1 ?w1 tids wakes ex' w'" "content (task_queue ex') = []"
      "length wakes + budget w' \<le> budget ?w1"
      using less.hyps[of ex1 ?w1] ex1(2) by blast
    with dispatches.popped[OF q(1) ex1(1)] b show ?thesis by fastforce
  qed
qed

section \<open>A concrete executor\<close>

text \<open>A list as the queue, and futures that count down, waking themselves until they finish.\<close>

definition list_queue :: "('a list, 'a) queue_ops" where
  "list_queue =
     \<lparr> q_new = \<lambda>_. [], q_push = \<lambda>x q. if length q < 100 then (True, q @ [x]) else (False, q),
       q_pop = \<lambda>q. case q of [] \<Rightarrow> (None, []) | x # xs \<Rightarrow> (Some x, xs), q_is_empty = \<lambda>q. q = [] \<rparr>"

definition countdown :: "(nat, nat) poll_fn" where
  "countdown tid f w =
     Some (if w = 0 \<or> f = 0 then (PollReady, 0, [], w) else (PollPending, f - 1, [tid], w - 1))"

lemma list_queue_fifo: "fifo list_queue 100 (\<lambda>q. q)"
  by (simp add: fifo_def list_queue_def split: list.split)

lemma countdown_bounded: "wakes_bounded countdown (\<lambda>w. w)"
  by (simp add: wakes_bounded_def countdown_def)

section \<open>Properties\<close>

text \<open>C25: \<open>run_ready_tasks\<close> returns, and runs everything that is ready. If no poll panics, the futures
  wake boundedly often and the queue has room, it does not panic and ends with an empty queue, having
  dispatched every task that was queued and then every task that was woken meanwhile, each once
  for each wake and in that order; finished tasks are gone with their cached wakers.\<close>

theorem ready_tasks_all_run:
  assumes "fifo ops 100 content" and "wakes_bounded poll_fut budget" and "executor_ok ex"
    and "length (content (task_queue ex)) + budget w \<le> 100"
  shows "\<exists>ex1 ex' w' wakes. run_ready_tasks ops poll_fut ex w = Some (ex', w')
    \<and> dispatches ops poll_fut ex w (content (task_queue ex) @ wakes) wakes ex1 w'
    \<and> length wakes \<le> budget w \<and> content (task_queue ex') = []
    \<and> tasks ex' = tasks ex1 \<and> executor_ok ex'"
proof -
  obtain tids wakes ex1 w' where d: "dispatches ops poll_fut ex w tids wakes ex1 w'"
    "content (task_queue ex1) = []" "length wakes + budget w' \<le> budget w"
    using dispatches_all[OF assms(1-4)] by blast
  obtain q where q: "q_pop ops (task_queue ex1) = (None, q)" "content q = []"
    using fifo_pop(1)[OF assms(1) d(2)] by blast
  have "tids = content (task_queue ex) @ wakes" "executor_ok ex1"
    using dispatches_conserve[OF d(1) assms(1,3)] d(2) by simp_all
  with d run_ready_dispatches[OF d(1) q(1)] q(2) show ?thesis by fastforce
qed

theorem ready_tasks_all_run_witness:
  "\<exists>ex' w'. run_ready_tasks list_queue countdown
      \<lparr> tasks = [(0, \<lparr> task_id = 0, future = 2 \<rparr>), (1, \<lparr> task_id = 1, future = 0 \<rparr>)],
        task_queue = [0, 1], waker_cache = [] \<rparr> 5 = Some (ex', w') \<and> task_queue ex' = []"
proof -
  let ?ex = "\<lparr> tasks = [(0, \<lparr> task_id = 0, future = 2 \<rparr>), (1, \<lparr> task_id = 1, future = 0 \<rparr>)],
    task_queue = [0, 1], waker_cache = [] \<rparr> :: (u64 list, nat) executor"
  have "executor_ok ?ex" by (auto simp: executor_ok_def bt_ok_def)
  from ready_tasks_all_run[OF list_queue_fifo countdown_bounded this, of 5] show ?thesis by auto
qed

text \<open>Spawning keeps ids unique. As long as the id counter has not wrapped and the queue has
  room, a new task is accepted without a panic, queued last, and its id differs from every id in
  use; with the queue full the kernel panics.\<close>

theorem spawn_fresh:
  assumes "fifo ops 100 content" and "executor_ok ex" and "\<forall>tid\<in>dom (bt_get (tasks ex)). tid < next_id"
    and "next_id < next_id + 1"
  shows "case task_new fut next_id of (t, next_id') \<Rightarrow>
    (case spawn ops t ex of
       Some ex' \<Rightarrow> length (content (task_queue ex)) < 100 \<and> executor_ok ex'
         \<and> bt_get (tasks ex') = (bt_get (tasks ex))(task_id t \<mapsto> t)
         \<and> bt_get (tasks ex) (task_id t) = None
         \<and> content (task_queue ex') = content (task_queue ex) @ [task_id t]
         \<and> (\<forall>tid\<in>dom (bt_get (tasks ex')). tid < next_id')
     | None \<Rightarrow> 100 \<le> length (content (task_queue ex)))"
proof -
  let ?t = "\<lparr> task_id = next_id, future = fut \<rparr>"
  note ok = assms(2)[unfolded executor_ok_def]
  have new: "bt_get (tasks ex) next_id = None" using assms(3) by (meson domIff less_irrefl)
  show ?thesis
  proof (cases "wake_task ops next_id (task_queue ex)")
    case None
    then have "100 \<le> length (content (task_queue ex))"
      using wake_task_ok[OF assms(1), of "task_queue ex" next_id] by auto
    with None new show ?thesis by (simp add: task_new_def task_id_new_def spawn_def)
  next
    case (Some q)
    have "executor_ok (ex\<lparr>tasks := bt_insert next_id ?t (tasks ex), task_queue := q\<rparr>)"
      using ok by (auto simp: executor_ok_def bt_ok_insert bt_get_insert)
    moreover have "bt_get (bt_insert next_id ?t (tasks ex)) = (bt_get (tasks ex))(next_id \<mapsto> ?t)"
      by (rule bt_get_insert) (use ok in simp)
    moreover have "\<forall>tid\<in>dom ((bt_get (tasks ex))(next_id \<mapsto> ?t)). tid < next_id + 1"
      using assms(3,4) less_trans[of _ next_id "next_id + 1"] by (simp add: ball_Un)
    moreover have "length (content (task_queue ex)) < 100" "content q = content (task_queue ex) @ [next_id]"
      using Some wake_task_ok[OF assms(1), of "task_queue ex" next_id] by simp_all
    ultimately show ?thesis using Some new by (simp add: task_new_def task_id_new_def spawn_def)
  qed
qed

theorem spawn_fresh_witness:
  "\<exists>ex'. spawn list_queue \<lparr> task_id = 0, future = (7 :: nat) \<rparr> (executor_new list_queue) = Some ex'
    \<and> executor_ok ex' \<and> task_queue ex' = [0]"
proof -
  have ok: "executor_ok (executor_new list_queue :: (u64 list, nat) executor)"
    by (simp add: executor_ok_def executor_new_def bt_ok_def)
  have e: "\<forall>tid\<in>dom (bt_get (tasks (executor_new list_queue :: (u64 list, nat) executor))). tid < 0"
    by (simp add: executor_new_def dom_def)
  have "(0 :: u64) < 0 + 1" by simp
  from spawn_fresh[OF list_queue_fifo ok e this, of 7] show ?thesis
    by (cases "spawn list_queue \<lparr> task_id = 0, future = (7 :: nat) \<rparr> (executor_new list_queue)")
      (simp_all add: task_new_def task_id_new_def executor_new_def list_queue_def)
qed

end
