(* ===== verification/Streams.thy ===== *)
theory Streams
  imports Executor "HOL-Library.Sublist"
begin

text \<open>
  The streams that carry interrupts to tasks: received bytes (\<open>kernel/src/task/serial.rs\<close>) and
  network events (\<open>kernel/src/task/network.rs\<close>), with the interrupt handlers that feed them
  (\<open>kernel/src/interrupts.rs\<close>). Both streams are the same code over a queue and one waker slot.
  Polling is a sequence of atomic steps, because an interrupt may run between any two of them.
\<close>

section \<open>The waker slot\<close>

text \<open>
  \<open>AtomicWaker::register\<close> and \<open>take\<close>; \<open>wake\<close> takes the waker and wakes it. A waker is the id of
  the task it wakes.
\<close>

record 'k waker_ops =
  aw_register :: "u64 \<Rightarrow> 'k \<Rightarrow> 'k"
  aw_take :: "'k \<Rightarrow> u64 option \<times> 'k"

definition waker_slot :: "'k waker_ops \<Rightarrow> ('k \<Rightarrow> u64 option) \<Rightarrow> bool" where
  "waker_slot aw slot \<longleftrightarrow>
     (\<forall>t k. slot (aw_register aw t k) = Some t)
     \<and> (\<forall>k. fst (aw_take aw k) = slot k \<and> slot (snd (aw_take aw k)) = None)"

section \<open>Streams\<close>

datatype stream_log = QueueFull | QueueUninitialized

text \<open>The statics of a stream, the tasks its waker has woken and the lines printed.\<close>

record ('q, 'k) stream =
  st_queue :: "'q option"
  st_waker :: 'k
  st_woken :: "u64 list"
  st_log :: "stream_log list"

definition stream_new :: "('q, 'a) queue_ops \<Rightarrow> ('q, 'k) stream \<Rightarrow> ('q, 'k) stream option" where
  "stream_new ops s =
     (case st_queue s of Some _ \<Rightarrow> None | None \<Rightarrow> Some (s\<lparr>st_queue := Some (q_new ops 100)\<rparr>))"

definition wake_slot :: "'k waker_ops \<Rightarrow> ('q, 'k) stream \<Rightarrow> ('q, 'k) stream" where
  "wake_slot aw s =
     (case aw_take aw (st_waker s) of
        (Some t, k) \<Rightarrow> s\<lparr>st_waker := k, st_woken := st_woken s @ [t]\<rparr>
      | (None, k) \<Rightarrow> s\<lparr>st_waker := k\<rparr>)"

definition add_item ::
  "('q, 'a) queue_ops \<Rightarrow> 'k waker_ops \<Rightarrow> 'a \<Rightarrow> ('q, 'k) stream \<Rightarrow> ('q, 'k) stream" where
  "add_item ops aw x s =
     (case st_queue s of
        Some q \<Rightarrow>
          (case q_push ops x q of
             (False, q) \<Rightarrow> s\<lparr>st_queue := Some q, st_log := st_log s @ [QueueFull]\<rparr>
           | (True, q) \<Rightarrow> wake_slot aw (s\<lparr>st_queue := Some q\<rparr>))
      | None \<Rightarrow> s\<lparr>st_log := st_log s @ [QueueUninitialized]\<rparr>)"

definition add_byte ::
  "('q, u8) queue_ops \<Rightarrow> 'k waker_ops \<Rightarrow> u8 \<Rightarrow> ('q, 'k) stream \<Rightarrow> ('q, 'k) stream" where
  "add_byte = add_item"

datatype network_event = QueueEvent | ConfigChange

definition add_event ::
  "('q, network_event) queue_ops \<Rightarrow> 'k waker_ops \<Rightarrow> network_event \<Rightarrow> ('q, 'k) stream
     \<Rightarrow> ('q, 'k) stream" where
  "add_event = add_item"

text \<open>\<open>poll_next\<close>, one atomic step at a time.\<close>

datatype 'a stream_poll = StreamReady 'a | StreamPending

datatype 'a poll_pc =
    PopFirst
  | RegisterWaker
  | PopAgain
  | TakeWaker 'a
  | Returned "'a stream_poll"

definition pop_item :: "('q, 'a) queue_ops \<Rightarrow> ('q, 'k) stream \<Rightarrow> ('a option \<times> ('q, 'k) stream) option" where
  "pop_item ops s = do {
     q \<leftarrow> st_queue s;
     let (x, q) = q_pop ops q;
     Some (x, s\<lparr>st_queue := Some q\<rparr>) }"

fun poll_step ::
  "('q, 'a) queue_ops \<Rightarrow> 'k waker_ops \<Rightarrow> u64 \<Rightarrow> 'a poll_pc \<Rightarrow> ('q, 'k) stream
     \<Rightarrow> ('a poll_pc \<times> ('q, 'k) stream) option" where
  "poll_step ops aw task PopFirst s = do {
     (x, s) \<leftarrow> pop_item ops s;
     Some (case x of Some x \<Rightarrow> Returned (StreamReady x) | None \<Rightarrow> RegisterWaker, s) }"
| "poll_step ops aw task RegisterWaker s =
     Some (PopAgain, s\<lparr>st_waker := aw_register aw task (st_waker s)\<rparr>)"
| "poll_step ops aw task PopAgain s = do {
     (x, s) \<leftarrow> pop_item ops s;
     Some (case x of Some x \<Rightarrow> TakeWaker x | None \<Rightarrow> Returned StreamPending, s) }"
| "poll_step ops aw task (TakeWaker x) s =
     Some (Returned (StreamReady x), s\<lparr>st_waker := snd (aw_take aw (st_waker s))\<rparr>)"
| "poll_step ops aw task (Returned r) s = Some (Returned r, s)"

text \<open>A poll that no interrupt interrupts takes at most four steps.\<close>

fun poll_steps ::
  "('q, 'a) queue_ops \<Rightarrow> 'k waker_ops \<Rightarrow> u64 \<Rightarrow> nat \<Rightarrow> 'a poll_pc \<Rightarrow> ('q, 'k) stream
     \<Rightarrow> ('a poll_pc \<times> ('q, 'k) stream) option" where
  "poll_steps ops aw task 0 pc s = Some (pc, s)"
| "poll_steps ops aw task (Suc n) pc s = do {
     (pc, s) \<leftarrow> poll_step ops aw task pc s;
     poll_steps ops aw task n pc s }"

definition poll_next ::
  "('q, 'a) queue_ops \<Rightarrow> 'k waker_ops \<Rightarrow> u64 \<Rightarrow> ('q, 'k) stream
     \<Rightarrow> ('a poll_pc \<times> ('q, 'k) stream) option" where
  "poll_next ops aw task s = poll_steps ops aw task 4 PopFirst s"

text \<open>
  The items that \<open>stream.next().await\<close> yields in a loop within one poll of the task: it goes on
  until a poll is pending, or for the given number of rounds.
\<close>

fun stream_items ::
  "('q, 'a) queue_ops \<Rightarrow> 'k waker_ops \<Rightarrow> u64 \<Rightarrow> nat \<Rightarrow> ('q, 'k) stream
     \<Rightarrow> ('a list \<times> ('q, 'k) stream) option" where
  "stream_items ops aw task 0 s = Some ([], s)"
| "stream_items ops aw task (Suc n) s = do {
     (pc, s) \<leftarrow> poll_next ops aw task s;
     case pc of
       Returned (StreamReady x) \<Rightarrow> do {
         (xs, s) \<leftarrow> stream_items ops aw task n s;
         Some (x # xs, s) }
     | _ \<Rightarrow> Some ([], s) }"

section \<open>Interrupt handlers\<close>

text \<open>
  The serial port's \<open>try_receive_byte\<close>, the network card's \<open>ack_interrupt\<close>, as the two bits the
  handler tests, and \<open>end_of_interrupt\<close>. The drain ends when the port has no byte left; not
  ending is \<^const>\<open>None\<close>.
\<close>

record 'w irq_ext =
  try_receive_byte :: "'w \<Rightarrow> u8 option \<times> 'w"
  ack_interrupt :: "'w \<Rightarrow> (bool \<times> bool) \<times> 'w"
  irq_eoi :: "'w \<Rightarrow> 'w"

partial_function (option) drain_uart ::
  "'w irq_ext \<Rightarrow> ('q, u8) queue_ops \<Rightarrow> 'k waker_ops \<Rightarrow> 'w \<Rightarrow> ('q, 'k) stream
     \<Rightarrow> ('w \<times> ('q, 'k) stream) option" where
  [code]: "drain_uart ext ops aw w s =
     (case try_receive_byte ext w of
        (None, w) \<Rightarrow> Some (w, s)
      | (Some b, w) \<Rightarrow> drain_uart ext ops aw w (add_byte ops aw b s))"

definition com1_interrupt_handler ::
  "'w irq_ext \<Rightarrow> ('q, u8) queue_ops \<Rightarrow> 'k waker_ops \<Rightarrow> 'w \<Rightarrow> ('q, 'k) stream
     \<Rightarrow> ('w \<times> ('q, 'k) stream) option" where
  "com1_interrupt_handler ext ops aw w s = do {
     (w, s) \<leftarrow> drain_uart ext ops aw w s;
     Some (irq_eoi ext w, s) }"

definition virtio_irq ::
  "'w irq_ext \<Rightarrow> ('q, network_event) queue_ops \<Rightarrow> 'k waker_ops \<Rightarrow> 'w \<Rightarrow> ('q, 'k) stream
     \<Rightarrow> 'w \<times> ('q, 'k) stream" where
  "virtio_irq ext ops aw w s =
     (let ((queue, config), w) = ack_interrupt ext w;
          s = (if queue then add_event ops aw QueueEvent s else s);
          s = (if config then add_event ops aw ConfigChange s else s)
      in (irq_eoi ext w, s))"

section \<open>Polling among interrupts\<close>

text \<open>
  A step of the poll, or an interrupt that adds an item. The trace keeps what was returned by
  the poll and what the queue accepted, in order.
\<close>

type_synonym ('q, 'k, 'a) poll_state = "'a poll_pc \<times> ('q, 'k) stream"

inductive polling ::
  "('q, 'a) queue_ops \<Rightarrow> 'k waker_ops \<Rightarrow> u64 \<Rightarrow> ('q, 'k) stream \<Rightarrow> 'a list \<Rightarrow> ('q, 'k, 'a) poll_state
     \<Rightarrow> bool" for ops aw task s0 where
  called: "polling ops aw task s0 [] (PopFirst, s0)"
| stepped: "\<lbrakk>polling ops aw task s0 xs (pc, s); poll_step ops aw task pc s = Some (pc', s')\<rbrakk>
    \<Longrightarrow> polling ops aw task s0 xs (pc', s')"
| interrupted: "polling ops aw task s0 xs (pc, s)
    \<Longrightarrow> polling ops aw task s0 (xs @ [x]) (pc, add_item ops aw x s)"

text \<open>What holds at each point: once registered, the task is in the slot or already woken.\<close>

definition armed :: "('k \<Rightarrow> u64 option) \<Rightarrow> u64 \<Rightarrow> ('q, 'k) stream \<Rightarrow> bool" where
  "armed slot task s \<longleftrightarrow> slot (st_waker s) = Some task \<or> task \<in> set (st_woken s)"

definition held :: "('q \<Rightarrow> 'a list) \<Rightarrow> ('q, 'k) stream \<Rightarrow> 'a list" where
  "held content s = (case st_queue s of Some q \<Rightarrow> content q | None \<Rightarrow> [])"

fun poll_inv ::
  "('k \<Rightarrow> u64 option) \<Rightarrow> ('q \<Rightarrow> 'a list) \<Rightarrow> u64 \<Rightarrow> 'a poll_pc \<Rightarrow> ('q, 'k) stream \<Rightarrow> bool" where
  "poll_inv slot content task PopAgain s \<longleftrightarrow> armed slot task s"
| "poll_inv slot content task (Returned StreamPending) s \<longleftrightarrow>
     armed slot task s \<and> (held content s = [] \<or> task \<in> set (st_woken s))"
| "poll_inv slot content task _ s \<longleftrightarrow> True"

fun returned :: "'a poll_pc \<Rightarrow> 'a list" where
  "returned (TakeWaker x) = [x]"
| "returned (Returned (StreamReady x)) = [x]"
| "returned _ = []"

lemma wake_slot_cases:
  assumes "waker_slot aw slot"
  obtains k where "slot k = None"
    and "wake_slot aw s = s\<lparr>st_waker := k,
           st_woken := st_woken s @ (case slot (st_waker s) of Some t \<Rightarrow> [t] | None \<Rightarrow> [])\<rparr>"
proof -
  obtain t k where tk: "aw_take aw (st_waker s) = (t, k)" by fastforce
  then have "t = slot (st_waker s)" "slot k = None"
    using assms unfolding waker_slot_def by (metis fst_conv, metis snd_conv)
  then show thesis using tk by (intro that[of k]) (auto simp: wake_slot_def split: option.split)
qed

lemma add_item_room:
  assumes "fifo ops cap content" and "waker_slot aw slot" and "st_queue s = Some q"
    and "length (content q) < cap"
  shows "\<exists>q'. st_queue (add_item ops aw x s) = Some q' \<and> content q' = content q @ [x]
    \<and> st_woken (add_item ops aw x s)
        = st_woken s @ (case slot (st_waker s) of Some t \<Rightarrow> [t] | None \<Rightarrow> [])"
proof -
  obtain q' where q': "q_push ops x q = (True, q')" "content q' = content q @ [x]"
    using fifo_push(1)[OF assms(1,4)] by blast
  obtain k where "wake_slot aw (s\<lparr>st_queue := Some q'\<rparr>) = s\<lparr>st_queue := Some q', st_waker := k,
      st_woken := st_woken s @ (case slot (st_waker s) of Some t \<Rightarrow> [t] | None \<Rightarrow> [])\<rparr>"
    by (rule wake_slot_cases[OF assms(2), of "s\<lparr>st_queue := Some q'\<rparr>"]) simp
  with q' assms(3) show ?thesis by (simp add: add_item_def)
qed

lemma add_item_full:
  assumes "fifo ops cap content" and "st_queue s = Some q" and "\<not> length (content q) < cap"
  shows "\<exists>q'. st_queue (add_item ops aw x s) = Some q' \<and> content q' = content q
    \<and> st_woken (add_item ops aw x s) = st_woken s \<and> st_waker (add_item ops aw x s) = st_waker s"
  using fifo_push(2)[OF assms(1,3), of x] assms(2) by (auto simp: add_item_def)

lemma add_item_inv:
  assumes "fifo ops cap content" and "waker_slot aw slot" and "st_queue s = Some q"
    and "poll_inv slot content task pc s"
  shows "poll_inv slot content task pc (add_item ops aw x s)"
proof (cases "length (content q) < cap")
  case True
  then obtain q' where "st_queue (add_item ops aw x s) = Some q'"
    "st_woken (add_item ops aw x s)
        = st_woken s @ (case slot (st_waker s) of Some t \<Rightarrow> [t] | None \<Rightarrow> [])"
    using add_item_room[OF assms(1-3)] by blast
  moreover from this have "task \<in> set (st_woken (add_item ops aw x s))" if "armed slot task s"
    using that by (auto simp: armed_def)
  ultimately show ?thesis
    using assms(4) by (cases "(slot, content, task, pc, s)" rule: poll_inv.cases) (auto simp: armed_def)
next
  case False
  then obtain q' where f: "st_queue (add_item ops aw x s) = Some q'" "content q' = content q"
    "st_woken (add_item ops aw x s) = st_woken s" "st_waker (add_item ops aw x s) = st_waker s"
    using add_item_full[OF assms(1,3)] by blast
  show ?thesis
    using assms(3,4) f by (cases "(slot, content, task, pc, s)" rule: poll_inv.cases)
      (auto simp: armed_def held_def)
qed

lemma pop_item_held:
  assumes "fifo ops cap content" and "st_queue s = Some q"
  obtains x s' q' where "pop_item ops s = Some (x, s')" and "st_queue s' = Some q'"
    and "s' = s\<lparr>st_queue := Some q'\<rparr>"
    and "content q = (case x of Some x \<Rightarrow> [x] | None \<Rightarrow> []) @ content q'"
    and "x = None \<longrightarrow> content q' = []"
proof (cases "content q")
  case Nil
  then obtain q' where "q_pop ops q = (None, q')" "content q' = []" using fifo_pop(1)[OF assms(1)] by blast
  then show thesis using assms(2) Nil by (intro that[of None _ q']) (simp_all add: pop_item_def)
next
  case (Cons x xs)
  then obtain q' where "q_pop ops q = (Some x, q')" "content q' = xs" using fifo_pop(2)[OF assms(1)] by blast
  then show thesis using assms(2) Cons by (intro that[of "Some x" _ q']) (simp_all add: pop_item_def)
qed

lemma poll_step_inv:
  assumes "fifo ops cap content" and "waker_slot aw slot" and "st_queue s = Some q"
    and "poll_inv slot content task pc s"
  shows "\<exists>pc' s' q'. poll_step ops aw task pc s = Some (pc', s') \<and> st_queue s' = Some q'
    \<and> poll_inv slot content task pc' s'
    \<and> returned pc @ content q = returned pc' @ content q'"
proof (cases pc)
  case PopFirst
  obtain x s' q' where "pop_item ops s = Some (x, s')" "st_queue s' = Some q'"
    "content q = (case x of Some x \<Rightarrow> [x] | None \<Rightarrow> []) @ content q'"
    by (rule pop_item_held[OF assms(1,3)])
  with PopFirst show ?thesis by (cases x) auto
next
  case RegisterWaker
  have "slot (aw_register aw task (st_waker s)) = Some task" using assms(2) by (simp add: waker_slot_def)
  with RegisterWaker assms(3) show ?thesis by (simp add: armed_def)
next
  case PopAgain
  obtain x s' q' where "pop_item ops s = Some (x, s')" "st_queue s' = Some q'"
    "s' = s\<lparr>st_queue := Some q'\<rparr>"
    "content q = (case x of Some x \<Rightarrow> [x] | None \<Rightarrow> []) @ content q'" "x = None \<longrightarrow> content q' = []"
    by (rule pop_item_held[OF assms(1,3)])
  with PopAgain assms(4) show ?thesis by (cases x) (auto simp: armed_def held_def)
next
  case (TakeWaker x)
  with assms(3) show ?thesis by simp
next
  case (Returned r)
  with assms(3,4) show ?thesis by simp
qed

text \<open>The invariant of every interleaving, with the items in order.\<close>

lemma polling_inv:
  assumes "polling ops aw task s0 xs p" and "fifo ops cap content" and "waker_slot aw slot"
    and "st_queue s0 = Some q0"
  shows "\<exists>q accepted. st_queue (snd p) = Some q \<and> poll_inv slot content task (fst p) (snd p)
    \<and> subseq accepted xs \<and> content q0 @ accepted = returned (fst p) @ content q
    \<and> (length (content q0) + length xs \<le> cap \<longrightarrow> accepted = xs)"
  using assms(1)
proof induction
  case called
  show ?case using assms(4) by simp
next
  case (stepped xs pc s pc' s')
  from stepped.IH obtain q acc where 1: "st_queue s = Some q" "poll_inv slot content task pc s"
    "subseq acc xs" "content q0 @ acc = returned pc @ content q"
    "length (content q0) + length xs \<le> cap \<longrightarrow> acc = xs" by auto
  from poll_step_inv[OF assms(2,3) 1(1,2)] stepped.hyps(2) obtain q' where
    "st_queue s' = Some q'" "poll_inv slot content task pc' s'"
    "returned pc @ content q = returned pc' @ content q'" by auto
  with 1 show ?case by auto
next
  case (interrupted xs pc s x)
  from interrupted.IH obtain q acc where 1: "st_queue s = Some q" "poll_inv slot content task pc s"
    "subseq acc xs" "content q0 @ acc = returned pc @ content q"
    "length (content q0) + length xs \<le> cap \<longrightarrow> acc = xs" by auto
  note inv = add_item_inv[OF assms(2,3) 1(1,2), of x]
  show ?case
  proof (cases "length (content q) < cap")
    case True
    then obtain q' where "st_queue (add_item ops aw x s) = Some q'" "content q' = content q @ [x]"
      using add_item_room[OF assms(2,3) 1(1)] by blast
    moreover have "subseq (acc @ [x]) (xs @ [x])" using 1(3) by simp
    ultimately show ?thesis using 1(4,5) inv by (intro exI[of _ q'] exI[of _ "acc @ [x]"]) auto
  next
    case False
    then obtain q' where "st_queue (add_item ops aw x s) = Some q'" "content q' = content q"
      using add_item_full[OF assms(2) 1(1)] by blast
    moreover have "subseq acc (xs @ [x])" using 1(3) by (rule subseq_rev_drop_many)
    moreover have "\<not> length (content q0) + length (xs @ [x]) \<le> cap"
    proof
      assume le: "length (content q0) + length (xs @ [x]) \<le> cap"
      then have "acc = xs" using 1(5) by simp
      then have "length (content q0) + length xs = length (returned pc) + length (content q)"
        using arg_cong[OF 1(4), of length] by simp
      with le False show False by simp
    qed
    ultimately show ?thesis using 1(4) inv by (intro exI[of _ q'] exI[of _ acc]) auto
  qed
qed

lemma polling_queue:
  assumes "polling ops aw task s0 xs (pc, s)" and "fifo ops cap content" and "waker_slot aw slot"
    and "st_queue s0 = Some q0"
  shows "\<exists>accepted. subseq accepted xs \<and> content q0 @ accepted = returned pc @ held content s
    \<and> (length (content q0) + length xs \<le> cap \<longrightarrow> accepted = xs)"
  using polling_inv[OF assms] by (auto simp: held_def)

section \<open>Draining the serial port\<close>

inductive uart_holds :: "'w irq_ext \<Rightarrow> 'w \<Rightarrow> u8 list \<Rightarrow> 'w \<Rightarrow> bool" for ext where
  empty: "try_receive_byte ext w = (None, w') \<Longrightarrow> uart_holds ext w [] w'"
| byte: "\<lbrakk>try_receive_byte ext w = (Some b, w1); uart_holds ext w1 bs w'\<rbrakk>
    \<Longrightarrow> uart_holds ext w (b # bs) w'"

lemma drain_uart_holds:
  "uart_holds ext w bs w' \<Longrightarrow> drain_uart ext ops aw w s = Some (w', fold (add_byte ops aw) bs s)"
proof (induction arbitrary: s rule: uart_holds.induct)
  case (empty w w')
  then show ?case by (subst drain_uart.simps) simp
next
  case (byte w b w1 bs w')
  then show ?case by (subst drain_uart.simps) simp
qed

lemma add_bytes_room:
  assumes "fifo ops cap content" and "waker_slot aw slot" and "st_queue s = Some q"
    and "length (content q) + length bs \<le> cap"
  shows "\<exists>q'. st_queue (fold (add_byte ops aw) bs s) = Some q' \<and> content q' = content q @ bs
    \<and> set (st_woken s) \<subseteq> set (st_woken (fold (add_byte ops aw) bs s))"
  using assms(3,4)
proof (induction bs arbitrary: s q)
  case (Cons b bs)
  obtain q1 where q1: "st_queue (add_byte ops aw b s) = Some q1" "content q1 = content q @ [b]"
    "set (st_woken s) \<subseteq> set (st_woken (add_byte ops aw b s))"
    using add_item_room[OF assms(1,2) Cons.prems(1), of b] Cons.prems(2) by (auto simp: add_byte_def)
  have "length (content q1) + length bs \<le> cap" using Cons.prems(2) q1(2) by simp
  from Cons.IH[OF q1(1) this] q1(2,3) show ?case by auto
qed simp

text \<open>A poll returns. Undisturbed it takes at most four steps and never panics on an
  initialized stream: it returns the oldest item, or registers the task and is pending when there
  is none.\<close>

lemma poll_next_returns:
  assumes "fifo ops 100 content" and "waker_slot aw slot" and "st_queue s = Some q"
  shows "\<exists>r s'. poll_next ops aw task s = Some (Returned r, s') \<and>
    (case content q of
       [] \<Rightarrow> r = StreamPending \<and> held content s' = [] \<and> slot (st_waker s') = Some task
     | x # xs \<Rightarrow> r = StreamReady x \<and> held content s' = xs)"
proof (cases "content q")
  case Nil
  obtain q1 where q1: "q_pop ops q = (None, q1)" "content q1 = []"
    using fifo_pop(1)[OF assms(1) Nil] by blast
  obtain q2 where q2: "q_pop ops q1 = (None, q2)" "content q2 = []"
    using fifo_pop(1)[OF assms(1) q1(2)] by blast
  have "slot (aw_register aw task (st_waker s)) = Some task" using assms(2) by (simp add: waker_slot_def)
  with Nil q1 q2 assms(3) show ?thesis
    by (simp add: poll_next_def pop_item_def held_def numeral_eq_Suc)
next
  case (Cons x xs)
  obtain q1 where "q_pop ops q = (Some x, q1)" "content q1 = xs"
    using fifo_pop(2)[OF assms(1) Cons] by blast
  with Cons assms(3) show ?thesis by (simp add: poll_next_def pop_item_def held_def numeral_eq_Suc)
qed

lemma poll_next_initialized:
  assumes "fifo ops 100 content" and "st_queue s = Some q" and "poll_next ops aw task s = Some (pc, s')"
  shows "\<exists>q'. st_queue s' = Some q'"
proof (cases "content q")
  case Nil
  obtain q1 where q1: "q_pop ops q = (None, q1)" "content q1 = []"
    using fifo_pop(1)[OF assms(1) Nil] by blast
  obtain q2 where "q_pop ops q1 = (None, q2)" using fifo_pop(1)[OF assms(1) q1(2)] by blast
  with q1 assms(2,3) show ?thesis by (auto simp: poll_next_def pop_item_def numeral_eq_Suc)
next
  case (Cons x xs)
  obtain q1 where "q_pop ops q = (Some x, q1)" using fifo_pop(2)[OF assms(1) Cons] by blast
  with assms(2,3) show ?thesis by (auto simp: poll_next_def pop_item_def numeral_eq_Suc)
qed

lemma stream_items_all:
  assumes "fifo ops 100 content" and "waker_slot aw slot" and "st_queue s = Some q"
    and "length (content q) < n"
  shows "\<exists>s'. stream_items ops aw task n s = Some (content q, s') \<and> held content s' = []
    \<and> slot (st_waker s') = Some task"
  using assms(3,4)
proof (induction n arbitrary: s q)
  case (Suc n)
  obtain r s1 where p: "poll_next ops aw task s = Some (Returned r, s1)"
    and c: "case content q of
       [] \<Rightarrow> r = StreamPending \<and> held content s1 = [] \<and> slot (st_waker s1) = Some task
     | x # xs \<Rightarrow> r = StreamReady x \<and> held content s1 = xs"
    using poll_next_returns[OF assms(1,2) Suc.prems(1)] by blast
  obtain q1 where q1: "st_queue s1 = Some q1" using poll_next_initialized[OF assms(1) Suc.prems(1) p] by blast
  show ?case
  proof (cases "content q")
    case Nil
    then show ?thesis using p c by simp
  next
    case (Cons x xs)
    then have "content q1 = xs" using c q1 by (simp add: held_def)
    then show ?thesis using Suc.IH[OF q1] Suc.prems(2) Cons p c by auto
  qed
qed simp

text \<open>A serial interrupt takes every byte the port holds, in order, acknowledges once, and
  loses none while the queue has room.\<close>

lemma com1_drains_port:
  assumes "fifo ops 100 content" and "waker_slot aw slot" and "st_queue s = Some q"
    and "uart_holds ext w bs w'" and "length (content q) + length bs \<le> 100"
  shows "\<exists>s'. com1_interrupt_handler ext ops aw w s = Some (irq_eoi ext w', s')
    \<and> held content s' = content q @ bs"
  using drain_uart_holds[OF assms(4), of ops aw s] add_bytes_room[OF assms(1-3,5)]
  by (auto simp: com1_interrupt_handler_def held_def)

text \<open>The first byte of an interrupt takes the waker, and wakes once.\<close>

lemma add_item_wakes:
  assumes "fifo ops 100 content" and "waker_slot aw slot" and "st_queue s = Some q"
    and "length (content q) < 100"
  shows "st_woken (add_item ops aw b s)
      = st_woken s @ (case slot (st_waker s) of Some t \<Rightarrow> [t] | None \<Rightarrow> [])"
    and "slot (st_waker (add_item ops aw b s)) = None"
    and "\<exists>q'. st_queue (add_item ops aw b s) = Some q' \<and> content q' = content q @ [b]"
proof -
  obtain q' where q': "q_push ops b q = (True, q')" "content q' = content q @ [b]"
    using fifo_push(1)[OF assms(1,4)] by blast
  have t: "fst (aw_take aw (st_waker s)) = slot (st_waker s)"
    "slot (snd (aw_take aw (st_waker s))) = None"
    using assms(2) by (simp_all add: waker_slot_def)
  show "st_woken (add_item ops aw b s)
      = st_woken s @ (case slot (st_waker s) of Some t \<Rightarrow> [t] | None \<Rightarrow> [])"
    and "slot (st_waker (add_item ops aw b s)) = None"
    and "\<exists>q'. st_queue (add_item ops aw b s) = Some q' \<and> content q' = content q @ [b]"
    using q' t assms(3)
    by (auto simp: add_item_def wake_slot_def split: prod.split option.split)
qed

lemma add_bytes_wake:
  assumes "fifo ops 100 content" and "waker_slot aw slot" and "st_queue s = Some q"
    and "length (content q) + length bs \<le> 100" and "bs \<noteq> []"
  shows "st_woken (fold (add_byte ops aw) bs s)
    = st_woken s @ (case slot (st_waker s) of Some t \<Rightarrow> [t] | None \<Rightarrow> [])"
  using assms(3-5)
proof (induction bs arbitrary: s q)
  case (Cons b bs)
  have room: "length (content q) < 100" using Cons.prems(2) by simp
  note w = add_item_wakes[OF assms(1,2) Cons.prems(1) room, of b, folded add_byte_def]
  obtain q1 where q1: "st_queue (add_byte ops aw b s) = Some q1" "content q1 = content q @ [b]"
    using w(3) by blast
  show ?case
  proof (cases bs)
    case Nil
    then show ?thesis using w(1) by simp
  next
    case (Cons c cs)
    then show ?thesis using Cons.IH[OF q1(1)] q1(2) Cons.prems(2) w(1,2) by simp
  qed
qed simp

section \<open>A concrete stream\<close>

definition option_slot :: "u64 option waker_ops" where
  "option_slot = \<lparr> aw_register = \<lambda>t _. Some t, aw_take = \<lambda>k. (k, None) \<rparr>"

definition empty_stream :: "('a list, u64 option) stream" where
  "empty_stream = \<lparr> st_queue = Some [], st_waker = None, st_woken = [], st_log = [] \<rparr>"

lemma option_slot_ok: "waker_slot option_slot (\<lambda>k. k)"
  by (simp add: waker_slot_def option_slot_def)

definition byte_port :: "u8 list irq_ext" where
  "byte_port = \<lparr> try_receive_byte = \<lambda>w. case w of [] \<Rightarrow> (None, []) | b # bs \<Rightarrow> (Some b, bs),
                 ack_interrupt = \<lambda>w. ((False, False), w), irq_eoi = \<lambda>w. w \<rparr>"

text \<open>A byte arrives between the first look at the queue and the registration of the waker.\<close>

lemma racing_poll:
  "polling list_queue option_slot 5 empty_stream [65 :: u8]
     (Returned (StreamReady 65), empty_stream)"
proof -
  let ?s = "empty_stream :: (u8 list, u64 option) stream"
  have "polling list_queue option_slot 5 ?s [] (RegisterWaker, ?s)"
    by (rule polling.stepped[OF polling.called])
      (simp add: pop_item_def empty_stream_def list_queue_def)
  then have "polling list_queue option_slot 5 ?s [65] (RegisterWaker, ?s\<lparr>st_queue := Some [65]\<rparr>)"
    using polling.interrupted[of list_queue option_slot 5 ?s "[]" RegisterWaker ?s 65]
    by (simp add: add_item_def empty_stream_def list_queue_def wake_slot_def option_slot_def)
  then have "polling list_queue option_slot 5 ?s [65]
      (PopAgain, ?s\<lparr>st_queue := Some [65], st_waker := Some 5\<rparr>)"
    by (rule polling.stepped) (simp add: option_slot_def)
  then have "polling list_queue option_slot 5 ?s [65]
      (TakeWaker 65, ?s\<lparr>st_queue := Some [], st_waker := Some 5\<rparr>)"
    by (rule polling.stepped) (simp add: pop_item_def empty_stream_def list_queue_def)
  then show ?thesis
    by (rule polling.stepped) (simp add: option_slot_def empty_stream_def)
qed

text \<open>A byte arrives after the poll has found nothing.\<close>

lemma late_byte:
  "polling list_queue option_slot 5 empty_stream [65 :: u8]
     (Returned StreamPending, empty_stream\<lparr>st_queue := Some [65], st_woken := [5]\<rparr>)"
proof -
  let ?s = "empty_stream :: (u8 list, u64 option) stream"
  have "polling list_queue option_slot 5 ?s [] (RegisterWaker, ?s)"
    by (rule polling.stepped[OF polling.called])
      (simp add: pop_item_def empty_stream_def list_queue_def)
  then have "polling list_queue option_slot 5 ?s [] (PopAgain, ?s\<lparr>st_waker := Some 5\<rparr>)"
    by (rule polling.stepped) (simp add: option_slot_def)
  then have "polling list_queue option_slot 5 ?s [] (Returned StreamPending, ?s\<lparr>st_waker := Some 5\<rparr>)"
    by (rule polling.stepped) (simp add: pop_item_def empty_stream_def list_queue_def)
  from polling.interrupted[OF this, of 65] show ?thesis
    by (simp add: add_item_def empty_stream_def list_queue_def wake_slot_def option_slot_def)
qed

section \<open>Properties\<close>

text \<open>C6: no wake-up is lost. However interrupts fall between the steps of a poll and after it,
  when the poll has returned pending, either the queue is still empty and the task's waker is in
  the slot for the next interrupt, or the task has been woken since the poll began.\<close>

theorem no_lost_wakeup:
  assumes "fifo ops 100 content" and "waker_slot aw slot" and "st_queue s0 = Some q0"
    and "st_woken s0 = []" and "polling ops aw task s0 xs (Returned StreamPending, s)"
  shows "held content s = [] \<and> slot (st_waker s) = Some task \<or> task \<in> set (st_woken s)"
  using polling_inv[OF assms(5,1-3)] by (auto simp: armed_def)

theorem no_lost_wakeup_witness:
  "\<exists>s :: (u8 list, u64 option) stream.
      polling list_queue option_slot 5 empty_stream [65] (Returned StreamPending, s)
    \<and> held (\<lambda>q. q) s = [65] \<and> 5 \<in> set (st_woken s)"
proof (intro exI conjI)
  let ?s = "empty_stream\<lparr>st_queue := Some [65 :: u8], st_woken := [5]\<rparr>"
  show "polling list_queue option_slot 5 empty_stream [65] (Returned StreamPending, ?s)"
    by (rule late_byte)
  show held: "held (\<lambda>q. q) ?s = [65]" by (simp add: held_def)
  have "held (\<lambda>q. q) ?s = [] \<and> st_waker ?s = Some 5 \<or> 5 \<in> set (st_woken ?s)"
    by (rule no_lost_wakeup[OF list_queue_fifo option_slot_ok _ _ late_byte])
      (simp_all add: empty_stream_def)
  then show "5 \<in> set (st_woken ?s)" unfolding held by blast
qed

text \<open>C29: items arrive in order. Through every interleaving of a poll with interrupts, the item
  the poll returns and those still queued are, in order, those queued before and those the
  interrupts added; an item is dropped only when a hundred are queued.\<close>

theorem stream_in_order:
  assumes "fifo ops 100 content" and "waker_slot aw slot" and "st_queue s0 = Some q0"
    and "polling ops aw task s0 xs (Returned r, s)"
  shows "\<exists>accepted. subseq accepted xs
    \<and> content q0 @ accepted = (case r of StreamReady x \<Rightarrow> [x] | StreamPending \<Rightarrow> []) @ held content s
    \<and> (length (content q0) + length xs \<le> 100 \<longrightarrow> accepted = xs)"
  using polling_queue[OF assms(4,1-3)] by (cases r) auto

theorem stream_in_order_witness:
  "\<exists>s :: (u8 list, u64 option) stream.
      polling list_queue option_slot 5 empty_stream [65, 66] (Returned (StreamReady 65), s)
    \<and> [65, 66] = [65] @ held (\<lambda>q. q) s"
proof -
  let ?s = "empty_stream :: (u8 list, u64 option) stream"
  let ?t = "add_item list_queue option_slot 66 ?s"
  have p: "polling list_queue option_slot 5 ?s [65, 66] (Returned (StreamReady 65), ?t)"
    using polling.interrupted[OF racing_poll, of 66] by simp
  have "\<exists>accepted. subseq accepted [65, 66 :: u8] \<and> [] @ accepted = [65] @ held (\<lambda>q. q) ?t
      \<and> (length ([] :: u8 list) + length [65, 66 :: u8] \<le> 100 \<longrightarrow> accepted = [65, 66])"
    using stream_in_order[OF list_queue_fifo option_slot_ok _ p, of "[]"] by (simp add: empty_stream_def)
  then have "[65, 66] = [65] @ held (\<lambda>q. q) ?t" by auto
  with p show ?thesis by blast
qed

end
