(* ===== verification/Network_Task.thy ===== *)
theory Network_Task
  imports Interface_Safety Streams
begin

text \<open>
  The network task (\<open>kernel/src/task/network.rs\<close>): draining the driver's receive queue and
  serving events, on top of the interface's handlers. Handlers that always return are collected
  in a locale, so that what holds of one packet is lifted to every sequence of them.
\<close>

section \<open>The task\<close>

text \<open>
  The receive side of the driver, \<open>VirtIONet::receive\<close> and \<open>recycle_rx_buffer\<close>, over the state
  of its receive queue. A packet is its bytes.
\<close>

record ('r, 'e) rx_ext =
  rx_receive :: "'r \<Rightarrow> ('e + bytes) \<times> 'r"
  rx_recycle :: "bytes \<Rightarrow> 'r \<Rightarrow> ('e + unit) \<times> 'r"

text \<open>
  The loop ends when the driver has nothing more; not ending is \<^const>\<open>None\<close>, as a panic is.
\<close>

partial_function (option) handle_queue_interrupt ::
  "('r, 'e) rx_ext \<Rightarrow> ('w, 'c, 'e) net_ext \<Rightarrow> 'r \<Rightarrow> network_interface \<Rightarrow> ('w, 'c, 'e) net_world
     \<Rightarrow> ('r \<times> network_interface \<times> ('w, 'c, 'e) net_world) option" where
  [code]: "handle_queue_interrupt rx ext r self w =
     (case rx_receive rx r of
        (Inl _, r) \<Rightarrow> Some (r, self, w)
      | (Inr packet, r) \<Rightarrow> do {
          (self, w) \<leftarrow> process_rx ext self packet w;
          case rx_recycle rx packet r of
            (Inl _, _) \<Rightarrow> None
          | (Inr _, r) \<Rightarrow> handle_queue_interrupt rx ext r self w })"

text \<open>
  The body of \<open>network_task\<close>, for the events its stream yields, in order; the stream itself,
  which the task creates first, is \<^const>\<open>stream_new\<close> and \<^const>\<open>stream_items\<close>.
\<close>

fun network_events ::
  "('r, 'e) rx_ext \<Rightarrow> ('w, 'c, 'e) net_ext \<Rightarrow> network_event list \<Rightarrow> 'r \<Rightarrow> network_interface
     \<Rightarrow> ('w, 'c, 'e) net_world \<Rightarrow> ('r \<times> network_interface \<times> ('w, 'c, 'e) net_world) option" where
  "network_events rx ext [] r self w = Some (r, self, w)"
| "network_events rx ext (QueueEvent # evts) r self w = do {
     (r, self, w) \<leftarrow> handle_queue_interrupt rx ext r self w;
     network_events rx ext evts r self w }"
| "network_events rx ext (ConfigChange # evts) r self w =
     network_events rx ext evts r self (println LogConfigChange w)"

definition network_task ::
  "('r, 'e) rx_ext \<Rightarrow> ('w, 'c, 'e) net_ext \<Rightarrow> network_event list \<Rightarrow> 'r \<Rightarrow> ('w, 'c, 'e) net_world
     \<Rightarrow> ('r \<times> network_interface \<times> ('w, 'c, 'e) net_world) option" where
  "network_task rx ext evts r w = do {
     (self, w) \<leftarrow> init_network_interface ext w;
     network_events rx ext evts r self w }"

section \<open>Handlers that always return\<close>

fun run_steps :: "('p \<Rightarrow> 's \<Rightarrow> 's option) \<Rightarrow> 'p list \<Rightarrow> 's \<Rightarrow> 's option" where
  "run_steps step [] s = Some s"
| "run_steps step (p # ps) s = do { s \<leftarrow> step p s; run_steps step ps s }"

lemma run_steps_append:
  "run_steps step (ps @ qs) s = Option.bind (run_steps step ps s) (run_steps step qs)"
  by (induction ps arbitrary: s) (simp_all add: Option.bind_assoc fun_eq_iff cong: Option.bind_cong)

locale total_handler =
  fixes ok :: "'s \<Rightarrow> bool"
    and step :: "'p \<Rightarrow> 's \<Rightarrow> 's option"
    and abs :: "'s \<Rightarrow> 'a"
    and spec :: "'p \<Rightarrow> 'a \<Rightarrow> 'a"
  assumes total_step: "ok s \<Longrightarrow> \<exists>s'. step p s = Some s' \<and> ok s' \<and> abs s' = spec p (abs s)"
begin

lemma run_refines:
  assumes "ok s"
  shows "\<exists>s'. run_steps step ps s = Some s' \<and> ok s' \<and> abs s' = fold spec ps (abs s)"
  using assms
proof (induction ps arbitrary: s)
  case (Cons p ps)
  obtain t where t: "step p s = Some t" "ok t" "abs t = spec p (abs s)"
    using total_step[OF Cons.prems] by blast
  with Cons.IH[OF t(2)] show ?case by simp
qed simp

end

definition rx_step ::
  "('w, 'c, 'e) net_ext \<Rightarrow> bytes \<Rightarrow> network_interface \<times> ('w, 'c, 'e) net_world
     \<Rightarrow> (network_interface \<times> ('w, 'c, 'e) net_world) option" where
  "rx_step ext packet s = process_rx ext (fst s) packet (snd s)"

interpretation rx: total_handler "\<lambda>s. net_ok ext (fst s) (snd s)" "rx_step ext"
  "\<lambda>s. config (fst s)" rx_config for ext
proof unfold_locales
  fix s :: "network_interface \<times> ('a, 'b, 'c) net_world" and p
  assume "net_ok ext (fst s) (snd s)"
  then show "\<exists>s'. rx_step ext p s = Some s' \<and> net_ok ext (fst s') (snd s')
      \<and> config (fst s') = rx_config p (config (fst s))"
    by (metis process_rx_ok rx_step_def fst_conv snd_conv)
qed

section \<open>Draining the queue\<close>

text \<open>
  The driver delivers a finite sequence of packets, takes each buffer back, and then reports
  that nothing is ready.
\<close>

inductive delivers :: "('r, 'e) rx_ext \<Rightarrow> 'r \<Rightarrow> bytes list \<Rightarrow> 'r \<Rightarrow> bool" for rx where
  empty: "rx_receive rx r = (Inl e, r') \<Longrightarrow> delivers rx r [] r'"
| packet: "\<lbrakk>rx_receive rx r = (Inr p, r1); rx_recycle rx p r1 = (Inr (), r2);
            delivers rx r2 ps r'\<rbrakk> \<Longrightarrow> delivers rx r (p # ps) r'"

lemma handle_queue_interrupt_runs:
  assumes "delivers rx r ps r'" and "run_steps (rx_step ext) ps (self, w) = Some (self', w')"
  shows "handle_queue_interrupt rx ext r self w = Some (r', self', w')"
  using assms
proof (induction arbitrary: self w)
  case (empty r e r')
  then show ?case by (simp add: handle_queue_interrupt.simps[of rx ext r])
next
  case (packet r p r1 r2 ps r')
  then show ?case
    by (subst handle_queue_interrupt.simps)
      (auto simp: rx_step_def split: bind_splits)
qed

section \<open>Starting the interface\<close>

lemma build_discover_ok:
  obtains msg where "build_discover mac xid = Some msg" and "length msg = 300"
  by (rule that[OF build_discover_layout]) (simp add: discover_items_def)

lemma arp_cache_new_ok: "arp_cache_ok arp_cache_new"
  by (rule arp.ok_empty)

lemma init_network_interface_ok:
  assumes "driver_sends ext" and "fills_buffers (net_rng ext)" and "rng_ok (kernel_rng w)"
  obtains xid v self w' msg bytes where "net_from_rand ext w = Some (Inr xid, v)"
    and "init_network_interface ext w = Some (self, w')"
    and "self = \<lparr> if_mac = net_mac ext, if_ipv4 = None, if_gateway = None, if_subnet_mask = None,
                  if_arp = arp_cache_new, if_dhcp = Selecting xid \<rparr>"
    and "net_ok ext self w'"
    and "build_discover (net_mac ext) xid = Some msg" and "dhcp_packet msg bytes"
    and "wire w' = wire w @ [framed self mac_broadcast EtherIPV4 bytes]"
proof -
  let ?self = "\<lparr> if_mac = net_mac ext, if_ipv4 = None, if_gateway = None,
    if_subnet_mask = None, if_arp = arp_cache_new, if_dhcp = Idle \<rparr>"
  obtain xid v where r: "net_from_rand ext w = Some (Inr (xid :: u32), v)"
    "rng_ok (kernel_rng v)" "wire v = wire w"
    by (rule net_from_rand_ok[OF assms(2,3)])
  obtain msg where m: "build_discover (net_mac ext) xid = Some msg" "length msg = 300"
    by (rule build_discover_ok)
  have l: "length msg \<le> 65507" using m(2) by simp
  obtain bytes w' where s: "send_dhcp ext ?self msg v = Some (Inr (), w')"
    "rng_ok (kernel_rng w')" "dhcp_packet msg bytes"
    "wire w' = wire v @ [framed ?self mac_broadcast EtherIPV4 bytes]"
    by (rule send_dhcp_ok[OF assms(1,2) r(2) l, of ?self])
  show thesis
  proof (rule that[of xid v "?self\<lparr>if_dhcp := Selecting xid\<rparr>" w' msg bytes])
    show "net_ok ext (?self\<lparr>if_dhcp := Selecting xid\<rparr>) w'"
      using assms s(2) by (simp add: net_ok_def arp_cache_new_ok)
  qed (use r m s in \<open>simp_all add: init_network_interface_def init_dhcp_def framed_def\<close>)
qed

end
