(* ===== verification/Dhcp_Client.thy ===== *)
theory Dhcp_Client
  imports Network_Task
begin

text \<open>
  The DHCP client as a state machine over received packets: what the exchange can do, and that
  the interface does exactly that.
\<close>

section \<open>The exchange\<close>

datatype lease =
    Discovering
  | Offered dhcp_binding
  | Leased dhcp_binding

text \<open>What a client that holds no address reads from a received buffer.\<close>

definition unbound :: "mac_address \<Rightarrow> network_interface" where
  "unbound mac = \<lparr> if_mac = mac, if_ipv4 = None, if_gateway = None, if_subnet_mask = None,
                   if_arp = arp_cache_new, if_dhcp = Selecting 0 \<rparr>"

definition reply_in ::
  "(bytes \<Rightarrow> u32 \<Rightarrow> mac_address \<Rightarrow> (dhcp_error + dhcp_binding) option)
     \<Rightarrow> mac_address \<Rightarrow> u32 \<Rightarrow> bytes \<Rightarrow> dhcp_binding option" where
  "reply_in read mac xid packet =
     (case dhcp_payload (unbound mac) packet of
        None \<Rightarrow> None
      | Some data \<Rightarrow> (case read data xid mac of Some (Inr binding) \<Rightarrow> Some binding | _ \<Rightarrow> None))"

inductive lease_step :: "mac_address \<Rightarrow> u32 \<Rightarrow> bytes \<Rightarrow> lease \<Rightarrow> lease \<Rightarrow> bool" for mac xid where
  offer: "reply_in from_offer mac xid packet = Some offer
    \<Longrightarrow> lease_step mac xid packet Discovering (Offered offer)"
| no_offer: "reply_in from_offer mac xid packet = None
    \<Longrightarrow> lease_step mac xid packet Discovering Discovering"
| ack: "\<lbrakk>reply_in from_ack mac xid packet = Some ack; server_id ack = server_id offer\<rbrakk>
    \<Longrightarrow> lease_step mac xid packet (Offered offer) (Leased ack)"
| no_ack: "(\<And>ack. reply_in from_ack mac xid packet = Some ack \<Longrightarrow> server_id ack \<noteq> server_id offer)
    \<Longrightarrow> lease_step mac xid packet (Offered offer) (Offered offer)"
| leased: "lease_step mac xid packet (Leased b) (Leased b)"

inductive_cases lease_stepE: "lease_step mac xid packet l l'"
inductive_simps lease_step_Discovering: "lease_step mac xid packet Discovering l"
inductive_simps lease_step_Offered: "lease_step mac xid packet (Offered b) l"
inductive_simps lease_step_Leased: "lease_step mac xid packet (Leased b) l"

inductive lease_trace :: "mac_address \<Rightarrow> u32 \<Rightarrow> bytes list \<Rightarrow> lease \<Rightarrow> bool" for mac xid where
  start: "lease_trace mac xid [] Discovering"
| received: "\<lbrakk>lease_trace mac xid ps l; lease_step mac xid p l l'\<rbrakk> \<Longrightarrow> lease_trace mac xid (ps @ [p]) l'"

text \<open>Where a lease comes from: an offer among the packets received, then an acknowledgement.\<close>

lemma lease_trace_offered:
  "lease_trace mac xid ps l \<Longrightarrow> l = Offered b \<Longrightarrow>
     \<exists>i < length ps. reply_in from_offer mac xid (ps ! i) = Some b"
proof (induction arbitrary: b rule: lease_trace.induct)
  case (received ps l p l')
  then show ?case
    by (auto elim!: lease_stepE simp: nth_append less_Suc_eq intro: exI[of _ "length ps"])
qed simp

lemma lease_trace_leased:
  "lease_trace mac xid ps l \<Longrightarrow> l = Leased b \<Longrightarrow>
     \<exists>i j offer. i < j \<and> j < length ps \<and> reply_in from_offer mac xid (ps ! i) = Some offer
       \<and> reply_in from_ack mac xid (ps ! j) = Some b \<and> server_id b = server_id offer"
proof (induction arbitrary: b rule: lease_trace.induct)
  case (received ps l p l')
  from received(2) show ?case
  proof cases
    case (ack b' offer)
    obtain i where "i < length ps" "reply_in from_offer mac xid (ps ! i) = Some offer"
      using lease_trace_offered[OF received(1)] ack by blast
    with ack received(4) show ?thesis
      by (intro exI[of _ i] exI[of _ "length ps"] exI[of _ offer]) (simp add: nth_append)
  next
    case (leased b')
    with received(3,4) obtain i j offer where
      "i < j" "j < length ps" "reply_in from_offer mac xid (ps ! i) = Some offer"
      "reply_in from_ack mac xid (ps ! j) = Some b" "server_id b = server_id offer" by blast
    then show ?thesis
      by (intro exI[of _ i] exI[of _ j] exI[of _ offer]) (simp add: nth_append)
  qed (use received(4) in auto)
qed simp

text \<open>A lease is reached when the first offer's server acknowledges.\<close>

lemma lease_trace_waits:
  assumes "lease_trace mac xid ps l" and "\<And>p. p \<in> set qs \<Longrightarrow> lease_step mac xid p l l"
  shows "lease_trace mac xid (ps @ qs) l"
  using assms(2)
proof (induction qs rule: rev_induct)
  case (snoc q qs)
  have "lease_trace mac xid (ps @ qs) l" using snoc by simp
  then show ?case
    using lease_trace.received[of mac xid "ps @ qs" l q l] snoc.prems by simp
qed (simp add: assms(1))

lemma lease_trace_completes:
  assumes "\<forall>p\<in>set before. reply_in from_offer mac xid p = None"
    and "reply_in from_offer mac xid o_pkt = Some offer"
    and "\<forall>p\<in>set between. \<forall>b. reply_in from_ack mac xid p = Some b \<longrightarrow> server_id b \<noteq> server_id offer"
    and "reply_in from_ack mac xid a_pkt = Some b" and "server_id b = server_id offer"
  shows "lease_trace mac xid (before @ [o_pkt] @ between @ [a_pkt] @ after) (Leased b)"
proof -
  have "lease_trace mac xid ([] @ before) Discovering"
    by (rule lease_trace_waits[OF lease_trace.start]) (use assms(1) in \<open>auto intro: lease_step.intros\<close>)
  then have "lease_trace mac xid (before @ [o_pkt]) (Offered offer)"
    using lease_trace.received lease_step.offer[OF assms(2)] by fastforce
  then have "lease_trace mac xid ((before @ [o_pkt]) @ between) (Offered offer)"
    by (rule lease_trace_waits) (use assms(3) in \<open>auto intro: lease_step.intros\<close>)
  then have "lease_trace mac xid (((before @ [o_pkt]) @ between) @ [a_pkt]) (Leased b)"
    using lease_trace.received lease_step.ack[OF assms(4,5)] by blast
  then have "lease_trace mac xid ((((before @ [o_pkt]) @ between) @ [a_pkt]) @ after) (Leased b)"
    by (rule lease_trace_waits) (rule lease_step.leased)
  then show ?thesis by simp
qed

lemma lease_step_deterministic:
  "lease_step mac xid p l a \<Longrightarrow> lease_step mac xid p l b \<Longrightarrow> a = b"
  by (auto elim!: lease_stepE)

lemma lease_trace_deterministic:
  "lease_trace mac xid ps a \<Longrightarrow> lease_trace mac xid ps b \<Longrightarrow> a = b"
proof (induction arbitrary: b rule: lease_trace.induct)
  case start
  then show ?case by (auto elim: lease_trace.cases)
next
  case (received ps l p l')
  from received(4) obtain m where "lease_trace mac xid ps m" "lease_step mac xid p m b"
    by (auto elim: lease_trace.cases)
  with received show ?case using lease_step_deterministic by blast
qed

section \<open>The interface follows it\<close>

text \<open>The configuration an interface has in each state of the exchange.\<close>

fun lease_state :: "u32 \<Rightarrow> lease \<Rightarrow> dhcp_state" where
  "lease_state xid Discovering = Selecting xid"
| "lease_state xid (Offered offer) = Requesting xid offer"
| "lease_state xid (Leased _) = Idle"

fun leased :: "lease \<Rightarrow> dhcp_binding option" where
  "leased (Leased b) = Some b"
| "leased _ = None"

definition leases :: "mac_address \<Rightarrow> u32 \<Rightarrow> lease \<Rightarrow> network_interface \<Rightarrow> bool" where
  "leases mac xid l self \<longleftrightarrow>
     if_mac self = mac \<and> if_dhcp self = lease_state xid l
     \<and> if_ipv4 self = map_option client_addr (leased l)
     \<and> if_subnet_mask self = map_option subnet_mask (leased l)
     \<and> if_gateway self = map_option gateway (leased l)"

lemma leases_config: "leases mac xid l (config self) \<longleftrightarrow> leases mac xid l self"
  by (simp add: leases_def)

lemma dhcp_payload_unbound:
  assumes "if_mac self = mac" and "if_ipv4 self = None" and "dhcp_xid (if_dhcp self) \<noteq> None"
  shows "dhcp_payload self packet = dhcp_payload (unbound mac) packet"
proof -
  have "for_us self = for_us (unbound mac)"
    using assms by (simp add: fun_eq_iff for_us_def unbound_def)
  moreover have "if_mac (unbound mac) = if_mac self" by (simp add: unbound_def assms(1))
  ultimately show ?thesis unfolding dhcp_payload_def by (simp only:)
qed

lemma rx_config_step:
  assumes "leases mac xid l self"
  shows "\<exists>l'. lease_step mac xid packet l l' \<and> leases mac xid l' (rx_config packet self)"
proof (cases l)
  case Discovering
  with assms have s: "if_mac self = mac" "if_ipv4 self = None" "if_dhcp self = Selecting xid"
    "if_subnet_mask self = None" "if_gateway self = None" by (simp_all add: leases_def)
  then have p: "dhcp_payload self packet = dhcp_payload (unbound mac) packet"
    by (intro dhcp_payload_unbound) auto
  show ?thesis
  proof (cases "reply_in from_offer mac xid packet")
    case None
    then have "rx_config packet self = self"
      by (auto simp: rx_config_def reply_in_def p dhcp_next_def s split: option.splits sum.splits)
    with None Discovering assms show ?thesis by (auto intro: lease_step.intros)
  next
    case (Some offer)
    then have "rx_config packet self = self\<lparr>if_dhcp := Requesting xid offer\<rparr>"
      by (auto simp: rx_config_def reply_in_def p dhcp_next_def s split: option.splits sum.splits)
    with Some Discovering s show ?thesis
      by (intro exI[of _ "Offered offer"]) (auto simp: leases_def intro: lease_step.intros)
  qed
next
  case (Offered offer)
  with assms have s: "if_mac self = mac" "if_ipv4 self = None" "if_dhcp self = Requesting xid offer"
    "if_subnet_mask self = None" "if_gateway self = None" by (simp_all add: leases_def)
  then have p: "dhcp_payload self packet = dhcp_payload (unbound mac) packet"
    by (intro dhcp_payload_unbound) auto
  show ?thesis
  proof (cases "\<exists>b. reply_in from_ack mac xid packet = Some b \<and> server_id b = server_id offer")
    case False
    then have "rx_config packet self = self"
      by (auto simp: rx_config_def reply_in_def p dhcp_next_def s split: option.splits sum.splits)
    with False Offered assms show ?thesis by (auto intro: lease_step.intros)
  next
    case True
    then obtain b where b: "reply_in from_ack mac xid packet = Some b" "server_id b = server_id offer"
      by blast
    then have "rx_config packet self = self\<lparr>if_ipv4 := Some (client_addr b),
        if_subnet_mask := Some (subnet_mask b), if_gateway := Some (gateway b), if_dhcp := Idle\<rparr>"
      by (auto simp: rx_config_def reply_in_def p dhcp_next_def s split: option.splits sum.splits)
    with b Offered s show ?thesis
      by (intro exI[of _ "Leased b"]) (auto simp: leases_def intro: lease_step.intros)
  qed
next
  case (Leased b)
  with assms have "if_dhcp self = Idle" by (simp add: leases_def)
  then have "rx_config packet self = self" by (simp add: rx_config_def dhcp_next_def split: option.split)
  with Leased assms show ?thesis by (auto intro: lease_step.intros)
qed

lemma rx_configs_trace:
  assumes "lease_trace mac xid qs l" and "leases mac xid l self"
  shows "\<exists>l'. lease_trace mac xid (qs @ ps) l' \<and> leases mac xid l' (fold rx_config ps self)"
proof (induction ps rule: rev_induct)
  case Nil
  show ?case using assms by auto
next
  case (snoc p ps)
  then obtain m where m: "lease_trace mac xid (qs @ ps) m" "leases mac xid m (fold rx_config ps self)"
    by blast
  obtain l' where "lease_step mac xid p m l'" "leases mac xid l' (fold rx_config (ps @ [p]) self)"
    using rx_config_step[OF m(2), of p] by auto
  then show ?case using lease_trace.received[OF m(1)] by fastforce
qed

lemma receives_trace:
  assumes "net_ok ext self w" and "lease_trace mac xid qs l" and "leases mac xid l self"
  obtains self' w' l' where "run_steps (rx_step ext) ps (self, w) = Some (self', w')"
    and "net_ok ext self' w'" and "lease_trace mac xid (qs @ ps) l'" and "leases mac xid l' self'"
proof -
  obtain s where s: "run_steps (rx_step ext) ps (self, w) = Some s" "net_ok ext (fst s) (snd s)"
    "config (fst s) = fold rx_config ps (config self)"
    using rx.run_refines[of ext "(self, w)" ps] assms(1) by auto
  obtain l' where "lease_trace mac xid (qs @ ps) l'" "leases mac xid l' (config (fst s))"
    using rx_configs_trace[of mac xid qs l "config self" ps] assms(2,3) s(3)
    by (auto simp: leases_config)
  then have "leases mac xid l' (fst s)" "lease_trace mac xid (qs @ ps) l'"
    by (simp_all only: leases_config)
  then show thesis by (intro that[of "fst s" "snd s" l']) (use s in simp_all)
qed

section \<open>Serving events\<close>

text \<open>What the driver delivers while the task serves a sequence of events.\<close>

inductive serves ::
  "('r, 'e) rx_ext \<Rightarrow> network_event list \<Rightarrow> 'r \<Rightarrow> bytes list \<Rightarrow> 'r \<Rightarrow> bool" for rx where
  finished: "serves rx [] r [] r"
| queue: "\<lbrakk>delivers rx r ps r1; serves rx evts r1 qs r'\<rbrakk> \<Longrightarrow> serves rx (QueueEvent # evts) r (ps @ qs) r'"
| config: "serves rx evts r qs r' \<Longrightarrow> serves rx (ConfigChange # evts) r qs r'"

lemma network_events_trace:
  assumes "serves rx evts r ps r'" and "net_ok ext self w"
    and "lease_trace mac xid qs l" and "leases mac xid l self"
  shows "\<exists>self' w' l'. network_events rx ext evts r self w = Some (r', self', w')
    \<and> net_ok ext self' w' \<and> lease_trace mac xid (qs @ ps) l' \<and> leases mac xid l' self'"
  using assms
proof (induction arbitrary: self w qs l)
  case finished
  then show ?case by auto
next
  case (queue r ps r1 evts qs' r')
  obtain self1 w1 l1 where 1: "run_steps (rx_step ext) ps (self, w) = Some (self1, w1)"
    "net_ok ext self1 w1" "lease_trace mac xid (qs @ ps) l1" "leases mac xid l1 self1"
    by (rule receives_trace[OF queue.prems])
  from queue.IH[OF 1(2-4)] handle_queue_interrupt_runs[OF queue.hyps(1) 1(1)] show ?case by simp
next
  case (config evts r qs' r')
  have "net_ok ext self (println LogConfigChange w)" using config.prems(1) by (simp add: net_ok_def)
  from config.IH[OF this config.prems(2,3)] show ?case by simp
qed

lemma network_task_trace:
  assumes "driver_sends ext" and "fills_buffers (net_rng ext)" and "rng_ok (kernel_rng w)"
    and "serves rx evts r ps r'"
  shows "\<exists>xid v self w' l. net_from_rand ext w = Some (Inr xid, v)
    \<and> network_task rx ext evts r w = Some (r', self, w')
    \<and> net_ok ext self w' \<and> lease_trace (net_mac ext) xid ps l \<and> leases (net_mac ext) xid l self"
proof -
  obtain xid v self w1 where i: "net_from_rand ext w = Some (Inr xid, v)"
    "init_network_interface ext w = Some (self, w1)" "net_ok ext self w1"
    "self = \<lparr> if_mac = net_mac ext, if_ipv4 = None, if_gateway = None, if_subnet_mask = None,
              if_arp = arp_cache_new, if_dhcp = Selecting xid \<rparr>"
    by (rule init_network_interface_ok[OF assms(1-3)]) blast
  have "leases (net_mac ext) xid Discovering self" by (simp add: i(4) leases_def)
  from network_events_trace[OF assms(4) i(3) lease_trace.start this] i(1,2) show ?thesis
    by (auto simp: network_task_def)
qed

section \<open>A concrete exchange\<close>

text \<open>A server's datagram in a frame, for any message that fits.\<close>

lemma dhcp_frame_exists:
  assumes "length data \<le> 65507"
  shows "\<exists>packet. dhcp_payload (unbound mac) packet = Some data"
proof -
  obtain bs q v where q: "\<forall>pad. ipv4_from_packet (bs @ pad) = Some (Inr q)" "protocol q = UDP"
    "ip_dest q = addr_broadcast"
    "udp_from_packet q = Some (Inr v)" "source_port v = SERVER_PORT" "dest_port v = CLIENT_PORT"
    "udp_data v = data" "\<not> more_fragments q" "frag_offset q = 0"
    using udp_ipv4_path[OF assms, of SERVER_PORT CLIENT_PORT addr_unspecified addr_broadcast] by metis
  then have "ipv4_from_packet bs = Some (Inr q)" by (metis append_Nil2)
  then have "ethernet_new (ethernet_layout mac_broadcast mac 0x0800 bs) = Some (Inr (FrameIpv4 q))"
    by (simp add: ethernet_dispatch)
  then show ?thesis
    using q ethernet_layout_reads(4)[of mac_broadcast mac "0x0800" bs]
    by (intro exI[of _ "ethernet_layout mac_broadcast mac 0x0800 bs"])
      (simp add: dhcp_payload_def for_us_def)
qed

text \<open>A driver over a list of waiting packets, and a host whose generator holds the captured id.\<close>

definition list_rx :: "(bytes list, unit) rx_ext" where
  "list_rx =
     \<lparr> rx_receive = \<lambda>r. case r of [] \<Rightarrow> (Inl (), []) | p # ps \<Rightarrow> (Inr p, ps),
       rx_recycle = \<lambda>_ r. (Inr (), r) \<rparr>"

definition quiet_net :: "(nat, nat, unit) net_ext" where
  "quiet_net = \<lparr> net_rng = toy_ext, net_send = \<lambda>_ w. (Inr (), w), net_mac = CLIENT_MAC \<rparr>"

definition quiet_world :: "(nat, nat, unit) net_world" where
  "quiet_world =
     \<lparr> outside = 0,
       kernel_rng = \<lparr> virtio_rng_up = False,
         rng_csprng = Some \<lparr> cs_inner = 0, cs_buf = to_le_bytes CAPTURE_XID @ replicate 28 0,
                             cs_buf_pos = 0, cs_blocks = 0 \<rparr>,
         rng_mode = Some Rdrand, rng_fallback = 0 \<rparr>,
       wire = [], console = [] \<rparr>"

lemma quiet_net_ok:
  "driver_sends quiet_net" "fills_buffers (net_rng quiet_net)" "rng_ok (kernel_rng quiet_world)"
  by (simp_all add: quiet_net_def driver_sends_def fills_buffers_def toy_ext_def quiet_world_def
      rng_ok_def csprng_ok_def)

lemma list_rx_delivers: "delivers list_rx ps ps []"
proof (induction ps)
  case Nil
  show ?case by (rule delivers.empty[of _ _ "()"]) (simp add: list_rx_def)
next
  case (Cons p ps)
  show ?case by (rule delivers.packet[OF _ _ Cons.IH]) (simp_all add: list_rx_def)
qed

lemma list_rx_serves: "serves list_rx [QueueEvent, ConfigChange] ps ps []"
  using serves.queue[OF list_rx_delivers serves.config[OF serves.finished]] by simp

lemma quiet_xid: "\<exists>v. net_from_rand quiet_net quiet_world = Some (Inr CAPTURE_XID, v)"
  by (simp add: net_from_rand_def from_rand_def get_random_def quiet_world_def quiet_net_def
      csprng_fill_buffered from_le_bytes_def to_be_bytes_def[symmetric] from_be_to_be)

lemma capture_frames:
  obtains offer_frame ack_frame where
    "reply_in from_offer CLIENT_MAC CAPTURE_XID offer_frame = Some CAPTURE_BINDING"
    and "reply_in from_ack CLIENT_MAC CAPTURE_XID ack_frame = Some CAPTURE_BINDING"
proof -
  have l: "length OFFER \<le> 65507" by (simp add: OFFER_def)
  then have "length ack_from_capture \<le> 65507" by (simp add: ack_from_capture_def)
  with l obtain p q where "dhcp_payload (unbound CLIENT_MAC) p = Some OFFER"
    "dhcp_payload (unbound CLIENT_MAC) q = Some ack_from_capture"
    using dhcp_frame_exists by metis
  then show thesis by (intro that[of p q]) (simp_all add: reply_in_def from_offer_capture from_ack_capture)
qed

section \<open>Properties\<close>

text \<open>C1: the network task never panics and never hangs on an event, whatever bytes arrive. It
  draws an exchange id, and after any sequence of events its interface is in the state that
  the exchange of that id has reached on the packets the driver delivered.\<close>

theorem network_task_follows_exchange:
  assumes "driver_sends ext" and "fills_buffers (net_rng ext)" and "rng_ok (kernel_rng w)"
    and "serves rx evts r ps r'"
  shows "\<exists>xid self w' l. network_task rx ext evts r w = Some (r', self, w')
    \<and> lease_trace (net_mac ext) xid ps l \<and> leases (net_mac ext) xid l self
    \<and> arp_cache_ok (if_arp self) \<and> rng_ok (kernel_rng w')"
  using network_task_trace[OF assms] by (auto simp: net_ok_def)

theorem network_task_follows_exchange_witness:
  "\<exists>xid self w' l. network_task list_rx quiet_net [QueueEvent, ConfigChange] [[1, 2, 3]] quiet_world
      = Some ([], self, w')
    \<and> lease_trace (net_mac quiet_net) xid [[1, 2, 3]] l \<and> leases (net_mac quiet_net) xid l self
    \<and> arp_cache_ok (if_arp self) \<and> rng_ok (kernel_rng w')"
  by (rule network_task_follows_exchange[OF quiet_net_ok list_rx_serves])

text \<open>C3: an address is never taken without the server's word. When the interface holds one, two
  of the packets received, in this order, were an offer and an acknowledgement of the client's
  own exchange from the same server, and address, mask and gateway are those acknowledged.\<close>

theorem address_was_acknowledged:
  assumes "driver_sends ext" and "fills_buffers (net_rng ext)" and "rng_ok (kernel_rng w)"
    and "serves rx evts r ps r'"
    and "network_task rx ext evts r w = Some (r'', self, w')" and "if_ipv4 self = Some addr"
  shows "\<exists>xid v i j offer b. net_from_rand ext w = Some (Inr xid, v) \<and> i < j \<and> j < length ps
    \<and> reply_in from_offer (net_mac ext) xid (ps ! i) = Some offer
    \<and> reply_in from_ack (net_mac ext) xid (ps ! j) = Some b \<and> server_id b = server_id offer
    \<and> addr = client_addr b \<and> if_subnet_mask self = Some (subnet_mask b)
    \<and> if_gateway self = Some (gateway b)"
proof -
  obtain xid v l where t: "net_from_rand ext w = Some (Inr xid, v)"
    "lease_trace (net_mac ext) xid ps l" "leases (net_mac ext) xid l self"
    using network_task_trace[OF assms(1-4)] assms(5) by auto
  then obtain b where b: "l = Leased b" "addr = client_addr b"
    "if_subnet_mask self = Some (subnet_mask b)" "if_gateway self = Some (gateway b)"
    using assms(6) by (cases l) (auto simp: leases_def)
  from lease_trace_leased[OF t(2) b(1)] t(1) b(2-4) show ?thesis by blast
qed

theorem address_was_acknowledged_witness:
  "\<exists>ps r'' self w' xid v i j offer b.
     network_task list_rx quiet_net [QueueEvent, ConfigChange] ps quiet_world = Some (r'', self, w')
     \<and> if_ipv4 self = Some (Ipv4Addr 10 0 2 15)
     \<and> net_from_rand quiet_net quiet_world = Some (Inr xid, v) \<and> i < j \<and> j < length ps
     \<and> reply_in from_offer (net_mac quiet_net) xid (ps ! i) = Some offer
     \<and> reply_in from_ack (net_mac quiet_net) xid (ps ! j) = Some b
     \<and> server_id b = server_id offer \<and> client_addr b = Ipv4Addr 10 0 2 15"
proof -
  obtain f g where fg: "reply_in from_offer CLIENT_MAC CAPTURE_XID f = Some CAPTURE_BINDING"
    "reply_in from_ack CLIENT_MAC CAPTURE_XID g = Some CAPTURE_BINDING" by (rule capture_frames)
  obtain self w' l where t: "network_task list_rx quiet_net [QueueEvent, ConfigChange] [f, g]
      quiet_world = Some ([], self, w')"
    "lease_trace CLIENT_MAC CAPTURE_XID [f, g] l" "leases CLIENT_MAC CAPTURE_XID l self"
    using network_task_trace[OF quiet_net_ok list_rx_serves, of "[f, g]"] quiet_xid
    by (auto simp: quiet_net_def)
  have "lease_trace CLIENT_MAC CAPTURE_XID [f, g] (Leased CAPTURE_BINDING)"
    using lease_trace_completes[of "[]", OF _ fg(1) _ fg(2), of "[]" "[]"] by simp
  with t(2) have "l = Leased CAPTURE_BINDING" by (rule lease_trace_deterministic)
  with t(3) have a: "if_ipv4 self = Some (Ipv4Addr 10 0 2 15)"
    by (simp add: leases_def CAPTURE_BINDING_def)
  obtain xid v i j offer b where "net_from_rand quiet_net quiet_world = Some (Inr xid, v)"
    "i < j" "j < length [f, g]" "reply_in from_offer (net_mac quiet_net) xid ([f, g] ! i) = Some offer"
    "reply_in from_ack (net_mac quiet_net) xid ([f, g] ! j) = Some b" "server_id b = server_id offer"
    "Ipv4Addr 10 0 2 15 = client_addr b"
    using address_was_acknowledged[OF quiet_net_ok list_rx_serves t(1) a] by blast
  with t(1) a show ?thesis by (intro exI[of _ "[f, g]"] exI[of _ "[]"]) metis
qed

text \<open>C2: the exchange completes. While the client is discovering, an offer followed, before any
  other acknowledgement from that server, by its acknowledgement leaves the interface with the
  acknowledged address, whatever other traffic arrives before, between and after.\<close>

theorem exchange_completes:
  assumes "net_ok ext self w" and "leases mac xid Discovering self"
    and "delivers rx r (before @ [o_pkt] @ between @ [a_pkt] @ after) r'"
    and "\<forall>p\<in>set before. reply_in from_offer mac xid p = None"
    and "reply_in from_offer mac xid o_pkt = Some offer"
    and "\<forall>p\<in>set between. \<forall>b. reply_in from_ack mac xid p = Some b \<longrightarrow> server_id b \<noteq> server_id offer"
    and "reply_in from_ack mac xid a_pkt = Some b" and "server_id b = server_id offer"
  shows "\<exists>self' w'. handle_queue_interrupt rx ext r self w = Some (r', self', w')
    \<and> if_ipv4 self' = Some (client_addr b) \<and> if_subnet_mask self' = Some (subnet_mask b)
    \<and> if_gateway self' = Some (gateway b) \<and> if_dhcp self' = Idle"
proof -
  obtain self' w' l where r: "run_steps (rx_step ext) (before @ [o_pkt] @ between @ [a_pkt] @ after)
      (self, w) = Some (self', w')"
    "lease_trace mac xid (before @ [o_pkt] @ between @ [a_pkt] @ after) l" "leases mac xid l self'"
    using receives_trace[OF assms(1) lease_trace.start assms(2)] by (metis append_Nil)
  have "l = Leased b"
    by (rule lease_trace_deterministic[OF r(2) lease_trace_completes]) (use assms in auto)
  with r(3) handle_queue_interrupt_runs[OF assms(3) r(1)] show ?thesis by (simp add: leases_def)
qed

theorem exchange_completes_witness:
  "\<exists>offer_frame ack_frame self' w'.
     handle_queue_interrupt list_rx quiet_net [[7], offer_frame, ack_frame]
       ((unbound CLIENT_MAC)\<lparr>if_dhcp := Selecting CAPTURE_XID\<rparr>) quiet_world = Some ([], self', w')
     \<and> if_ipv4 self' = Some (Ipv4Addr 10 0 2 15)"
proof -
  obtain f g where fg: "reply_in from_offer CLIENT_MAC CAPTURE_XID f = Some CAPTURE_BINDING"
    "reply_in from_ack CLIENT_MAC CAPTURE_XID g = Some CAPTURE_BINDING" by (rule capture_frames)
  let ?self = "(unbound CLIENT_MAC)\<lparr>if_dhcp := Selecting CAPTURE_XID\<rparr>"
  have ok: "net_ok quiet_net ?self quiet_world"
    using quiet_net_ok by (simp add: net_ok_def unbound_def arp_cache_new_ok)
  have l: "leases CLIENT_MAC CAPTURE_XID Discovering ?self" by (simp add: leases_def unbound_def)
  have d: "delivers list_rx [[7], f, g] ([[7]] @ [f] @ [] @ [g] @ []) []"
    using list_rx_delivers[of "[[7], f, g]"] by simp
  have n: "\<forall>p\<in>set [[7]]. reply_in from_offer CLIENT_MAC CAPTURE_XID p = None"
    by (simp add: reply_in_def dhcp_payload_def ethernet_new_def)
  have "\<exists>self' w'. handle_queue_interrupt list_rx quiet_net [[7], f, g] ?self quiet_world
      = Some ([], self', w') \<and> if_ipv4 self' = Some (client_addr CAPTURE_BINDING)"
    using exchange_completes[OF ok l d n fg(1) _ fg(2)] by auto
  then show ?thesis by (auto simp: CAPTURE_BINDING_def)
qed

end
