(* ===== verification/Traffic.thy ===== *)
theory Traffic
  imports Dhcp_Client
begin

text \<open>
  What the host puts on the wire: the discovery it starts with, its answers to ARP requests and
  to echo requests, and the packets it parks until their next hop is known. Every frame is
  described by what a receiver parses from it.
\<close>

section \<open>Reading sent frames\<close>

text \<open>A receiver sees a frame to this address with this content.\<close>

definition carries :: "bytes \<Rightarrow> mac_address \<Rightarrow> ethernet_frame \<Rightarrow> bool" where
  "carries frame dst content \<longleftrightarrow>
     read_mac 0 6 frame = Some dst \<and> ethernet_new frame = Some (Inr content) \<and> 60 \<le> length frame"

lemma framed_length: "60 \<le> length (framed self dst t payload)"
  by (simp add: framed_def ethernet_layout_def)

lemma carries_ipv4:
  assumes "\<forall>pad. ipv4_from_packet (bytes @ pad) = Some (Inr q)"
  shows "carries (framed self dst EtherIPV4 bytes) dst (FrameIpv4 q)"
  using assms framed_length[of self dst EtherIPV4 bytes]
  by (simp add: carries_def framed_def ethernet_layout_reads ethernet_dispatch)

lemma carries_arp:
  "carries (arp_frame self dst (arp_message self oper my_ip mac addr)) dst
     (FrameArp (arp_message self oper my_ip mac addr))"
proof -
  have "arp_from_slice (arp_layout (u16_of_operation oper) (arp_message self oper my_ip mac addr) @ r)
      = Some (Inr (arp_message self oper my_ip mac addr))" for r
    unfolding arp_accepts by (auto simp: arp_message_def arp_ethernet_ipv4_def)
  then have "arp_from_slice (arp_layout (u16_of_operation (operation (arp_message self oper my_ip mac addr)))
      (arp_message self oper my_ip mac addr) @ r) = Some (Inr (arp_message self oper my_ip mac addr))" for r
    by (simp add: arp_message_def)
  then show ?thesis
    using framed_length
    by (simp add: carries_def arp_frame_def framed_def ethernet_layout_reads ethernet_dispatch)
qed

lemma process_rx_accepted:
  assumes "ethernet_new packet = Some (Inr pkt)" and "read_mac 0 6 packet = Some dst"
  obtains v where "process_rx ext self packet w = handle_packet ext self pkt dst v"
    and "wire v = wire w" and "kernel_rng v = kernel_rng w"
proof -
  have "14 \<le> length packet" using assms(1) by (auto simp: ethernet_new_def split: if_splits)
  then show thesis by (rule process_rx_dispatch[of packet w ext self]) (use assms that in auto)
qed

section \<open>A host and a neighbour\<close>

definition host :: network_interface where
  "host = \<lparr> if_mac = CLIENT_MAC, if_ipv4 = Some (Ipv4Addr 10 0 2 15),
            if_gateway = Some (Ipv4Addr 10 0 2 2), if_subnet_mask = Some (Ipv4Addr 255 255 255 0),
            if_arp = arp_cache_new, if_dhcp = Idle \<rparr>"

definition neighbour :: network_interface where
  "neighbour = host\<lparr>if_mac := MacAddress 2 0 0 0 0 1, if_ipv4 := Some (Ipv4Addr 10 0 2 2)\<rparr>"

definition neighbour_request :: arp_packet where
  "neighbour_request = arp_message neighbour Request (Ipv4Addr 10 0 2 2) (MacAddress 0 0 0 0 0 0)
     (Ipv4Addr 10 0 2 15)"

lemma host_fields:
  "if_mac host = CLIENT_MAC" "if_ipv4 host = Some (Ipv4Addr 10 0 2 15)" "if_arp host = arp_cache_new"
  by (simp_all add: host_def)

lemma neighbour_request_carried:
  "carries (arp_frame neighbour mac_broadcast neighbour_request) mac_broadcast
     (FrameArp neighbour_request)"
  unfolding neighbour_request_def by (rule carries_arp)

lemma neighbour_request_fields:
  "operation neighbour_request = Request" "target_addr neighbour_request = Ipv4Addr 10 0 2 15"
  "sender_mac neighbour_request = MacAddress 2 0 0 0 0 1"
  "sender_addr neighbour_request = Ipv4Addr 10 0 2 2"
  by (simp_all add: neighbour_request_def arp_message_def neighbour_def)

lemma host_next_hop: "next_hop host (Ipv4Addr 10 0 2 2) = Some (Ipv4Addr 10 0 2 2)"
  by (simp add: next_hop_def host_def eval_simps)

lemma host_next_hop_arp [simp]: "next_hop (self\<lparr>if_arp := c\<rparr>) = next_hop self"
  by (simp add: next_hop_def fun_eq_iff split: option.split)

text \<open>The neighbour's echo request, with its checksum.\<close>

lemma echo_request_carried:
  obtains frame p where "carries frame CLIENT_MAC (FrameIpv4 p)" and "\<not> more_fragments p"
    and "frag_offset p = 0" and "ip_source p = Ipv4Addr 10 0 2 2"
    and "ip_dest p = Ipv4Addr 10 0 2 15" and "protocol p = ICMP" and "ip_data p = [8, 0, 0xF7, 0xFF]"
proof -
  have "length [8, 0, 0xF7, 0xFF :: u8] \<le> 65515" by simp
  then obtain q where q: "ipv4_new [8, 0, 0xF7, 0xFF] (Ipv4Addr 10 0 2 2) (Ipv4Addr 10 0 2 15) 1 ICMP
      = Inr q" by (rule ipv4_new_ok)
  note f = ipv4_new_fields[OF q]
  have wf: "ipv4_wf q"
    using ipv4_new_wf[OF q] by (simp add: protocol_canonical_def protocol_of_u8_def)
  obtain k where "\<forall>pad. ipv4_from_packet (ipv4_header q k @ ip_data q @ pad)
      = Some (Inr (q\<lparr>ip_checksum := k\<rparr>))"
    by (rule ipv4_serialize_wf[OF wf])
  then have "carries (framed neighbour CLIENT_MAC EtherIPV4 (ipv4_header q k @ ip_data q)) CLIENT_MAC
      (FrameIpv4 (q\<lparr>ip_checksum := k\<rparr>))"
    by (intro carries_ipv4) simp
  then show thesis by (rule that) (simp_all add: f)
qed

lemma echo_request_checksum: "internet_checksum [[8, 0, 0xF7, 0xFF]] = Some 0"
  by code_simp

section \<open>Properties\<close>

text \<open>Starting the interface puts one frame on the wire: a broadcast that carries, from the
  DHCP client port to the server port, the discover message of the exchange it has drawn.\<close>

theorem start_broadcasts_discover:
  assumes "driver_sends ext" and "fills_buffers (net_rng ext)" and "rng_ok (kernel_rng w)"
  shows "\<exists>self w' frame q d xid v. init_network_interface ext w = Some (self, w')
    \<and> wire w' = wire w @ [frame] \<and> carries frame mac_broadcast (FrameIpv4 q)
    \<and> ip_source q = addr_unspecified \<and> ip_dest q = addr_broadcast
    \<and> udp_from_packet q = Some (Inr d) \<and> source_port d = CLIENT_PORT \<and> dest_port d = SERVER_PORT
    \<and> net_from_rand ext w = Some (Inr xid, v)
    \<and> build_discover (net_mac ext) xid = Some (udp_data d) \<and> if_dhcp self = Selecting xid"
proof -
  obtain xid v self w' msg bytes where i: "net_from_rand ext w = Some (Inr xid, v)"
    "init_network_interface ext w = Some (self, w')"
    "self = \<lparr> if_mac = net_mac ext, if_ipv4 = None, if_gateway = None, if_subnet_mask = None,
              if_arp = arp_cache_new, if_dhcp = Selecting xid \<rparr>"
    "build_discover (net_mac ext) xid = Some msg" "dhcp_packet msg bytes"
    "wire w' = wire w @ [framed self mac_broadcast EtherIPV4 bytes]"
    by (rule init_network_interface_ok[OF assms]) blast
  obtain q d where q: "\<forall>pad. ipv4_from_packet (bytes @ pad) = Some (Inr q)"
    "ip_source q = addr_unspecified" "ip_dest q = addr_broadcast"
    "udp_from_packet q = Some (Inr d)" "source_port d = CLIENT_PORT" "dest_port d = SERVER_PORT"
    "udp_data d = msg"
    using i(5) unfolding dhcp_packet_def by blast
  show ?thesis
    by (intro exI[of _ self] exI[of _ w'] exI[of _ "framed self mac_broadcast EtherIPV4 bytes"]
        exI[of _ q] exI[of _ d] exI[of _ xid] exI[of _ v])
      (simp add: i(1,2,4,6) q carries_ipv4[OF q(1)], simp add: i(3))
qed

theorem start_broadcasts_discover_witness:
  "\<exists>self w' frame. init_network_interface quiet_net quiet_world = Some (self, w') \<and> wire w' = [frame]
    \<and> read_mac 0 6 frame = Some mac_broadcast"
  using start_broadcasts_discover[OF quiet_net_ok] by (auto simp: carries_def quiet_world_def)

text \<open>C22: a request for the host's address is answered. The sender is learned, the packets parked
  on it are flushed to it in order, and the last frame sent is a reply to the sender that binds
  the requested address to the host's own hardware address.\<close>

theorem arp_request_answered:
  assumes "driver_sends ext" and "arp_cache_ok (if_arp self)" and "if_ipv4 self = Some my_ip"
    and "ethernet_new packet = Some (Inr (FrameArp p))" and "read_mac 0 6 packet = Some dst"
    and "dst = if_mac self \<or> dst = mac_broadcast"
    and "operation p = Request" and "target_addr p = my_ip" and "sender_mac p \<noteq> if_mac self"
  shows "\<exists>self' w' frame reply. process_rx ext self packet w = Some (self', w')
    \<and> wire w' = wire w
        @ map (framed self (sender_mac p) EtherIPV4) (parked (if_arp self) (sender_addr p)) @ [frame]
    \<and> carries frame (sender_mac p) (FrameArp reply) \<and> operation reply = Reply
    \<and> sender_mac reply = if_mac self \<and> sender_addr reply = my_ip
    \<and> target_mac reply = sender_mac p \<and> target_addr reply = sender_addr p
    \<and> arp_lookup (if_arp self') (sender_addr p) = Some (sender_mac p)
    \<and> parked (if_arp self') (sender_addr p) = []"
proof -
  obtain v where v: "process_rx ext self packet w = handle_packet ext self (FrameArp p) dst v"
    "wire v = wire w" by (rule process_rx_accepted[OF assms(4,5)])
  let ?reply = "arp_message self Reply my_ip (sender_mac p) (sender_addr p)"
  have "process_rx ext self packet w = handle_arp ext self p v"
    using assms(6) v(1) by (auto simp: handle_packet_def)
  then obtain self' w' where r: "process_rx ext self packet w = Some (self', w')"
    and w': "wire w' = wire w
        @ map (framed self (sender_mac p) EtherIPV4) (parked (if_arp self) (sender_addr p))
        @ [arp_frame self (sender_mac p) ?reply]"
    and s: "if_arp self' = snd (arp_insert (sender_addr p) (sender_mac p) (if_arp self))"
    using assms(3,7,8,9) v(2)
    by (simp add: handle_arp_steps[OF assms(1)] learn_sender_def answer_arp_def)
  show ?thesis
    using r w' carries_arp[of self "sender_mac p" Reply my_ip "sender_mac p" "sender_addr p"]
    by (intro exI[of _ self'] exI[of _ w'] exI[of _ "arp_frame self (sender_mac p) ?reply"]
        exI[of _ ?reply])
      (simp add: arp_message_def s arp_insert_lookup[OF assms(2)] arp_insert_parked[OF assms(2)])
qed

theorem arp_request_answered_witness:
  "\<exists>self' w' frame reply. process_rx quiet_net host
      (arp_frame neighbour mac_broadcast neighbour_request) quiet_world = Some (self', w')
    \<and> wire w' = [frame] \<and> carries frame (MacAddress 2 0 0 0 0 1) (FrameArp reply)
    \<and> operation reply = Reply \<and> sender_mac reply = CLIENT_MAC
    \<and> sender_addr reply = Ipv4Addr 10 0 2 15"
proof -
  let ?packet = "arp_frame neighbour mac_broadcast neighbour_request"
  have "wire quiet_world = []" by (simp add: quiet_world_def)
  moreover have "ethernet_new ?packet = Some (Inr (FrameArp neighbour_request))"
    "read_mac 0 6 ?packet = Some mac_broadcast" "MacAddress 2 0 0 0 0 1 \<noteq> CLIENT_MAC"
    using neighbour_request_carried by (simp_all add: carries_def CLIENT_MAC_def)
  ultimately show ?thesis
    using arp_request_answered[OF quiet_net_ok(1), of host "Ipv4Addr 10 0 2 15" ?packet
        neighbour_request mac_broadcast quiet_world]
    by (auto simp: neighbour_request_fields host_fields arp_cache_new_ok arp.empty_waiting)
qed

text \<open>C23: an echo request to the host is answered with exactly one frame: to the hardware address
  of the next hop towards the requester, from the host's address, with the request's identifier
  and data unchanged, marked as a reply, and with both checksums valid.\<close>

theorem echo_request_answered:
  assumes "driver_sends ext" and "if_ipv4 self = Some my_ip"
    and "ethernet_new packet = Some (Inr (FrameIpv4 p))" and "read_mac 0 6 packet = Some dst"
    and "dst = if_mac self \<or> dst = mac_broadcast"
    and "\<not> more_fragments p" and "frag_offset p = 0" and "ip_dest p = my_ip" and "protocol p = ICMP"
    and "internet_checksum [ip_data p] = Some 0" and "ip_data p ! 0 = 8" and "ip_data p ! 1 = 0"
    and "next_hop self (ip_source p) = Some hop" and "arp_lookup (if_arp self) hop = Some mac"
  shows "\<exists>w' frame reply c. process_rx ext self packet w = Some (self, w')
    \<and> wire w' = wire w @ [frame] \<and> carries frame mac (FrameIpv4 reply)
    \<and> ip_source reply = my_ip \<and> ip_dest reply = ip_source p \<and> protocol reply = ICMP
    \<and> ip_id reply = ip_id p \<and> ip_data reply = [0, 0] @ to_be_bytes (c :: u16) @ drop 4 (ip_data p)
    \<and> internet_checksum [ip_data reply] = Some 0"
proof -
  obtain v where v: "process_rx ext self packet w = handle_packet ext self (FrameIpv4 p) dst v"
    "wire v = wire w" by (rule process_rx_accepted[OF assms(3,4)])
  have l: "length (ip_data p) \<le> 65515" by (rule ethernet_ipv4[OF assms(3)])
  then have "4 \<le> length (ip_data p)" using verified_length(2) assms(10-12) by simp
  then obtain c k reply bytes where e: "internet_checksum [echo_data 0 (ip_data p)] = Some c"
    "internet_checksum [echo_data c (ip_data p)] = Some 0"
    "ipv4_new (echo_data c (ip_data p)) my_ip (ip_source p) (ip_id p) ICMP = Inr reply"
    "ipv4_serialize reply = Some bytes"
    "\<forall>pad. ipv4_from_packet (bytes @ pad) = Some (Inr (reply\<lparr>ip_checksum := k\<rparr>))"
    by (rule echo_packet[OF _ l])
  note f = ipv4_new_fields[OF e(3)]
  have "for_us self p" using assms(2,8) by (simp add: for_us_def)
  then have "process_rx ext self packet w = handle_icmp ext self p v"
    using assms(5-7,9) v(1) by (auto simp: handle_packet_def handle_ipv4_def)
  then have r: "process_rx ext self packet w
      = Some (self, transmit ext (framed self mac EtherIPV4 bytes) v)"
    using handle_icmp_echo[OF assms(1,10-12) l assms(2) e(1,3,4), of v] assms(13,14)
    by (simp add: deliver_def)
  show ?thesis
    by (intro exI[of _ "transmit ext (framed self mac EtherIPV4 bytes) v"]
        exI[of _ "framed self mac EtherIPV4 bytes"] exI[of _ "reply\<lparr>ip_checksum := k\<rparr>"] exI[of _ c])
      (use r v(2) f e(2) carries_ipv4[of bytes "reply\<lparr>ip_checksum := k\<rparr>"] e(5) in
        \<open>simp add: echo_data_def\<close>)
qed

theorem echo_request_answered_witness:
  "\<exists>packet w' frame reply. process_rx quiet_net
      (host\<lparr>if_arp := snd (arp_insert (Ipv4Addr 10 0 2 2) (MacAddress 2 0 0 0 0 1) arp_cache_new)\<rparr>)
      packet quiet_world
    = Some (host\<lparr>if_arp := snd (arp_insert (Ipv4Addr 10 0 2 2) (MacAddress 2 0 0 0 0 1) arp_cache_new)\<rparr>,
        w') \<and> wire w' = [frame] \<and> carries frame (MacAddress 2 0 0 0 0 1) (FrameIpv4 reply)
    \<and> ip_dest reply = Ipv4Addr 10 0 2 2 \<and> internet_checksum [ip_data reply] = Some 0"
proof -
  let ?cache = "snd (arp_insert (Ipv4Addr 10 0 2 2) (MacAddress 2 0 0 0 0 1) arp_cache_new)"
  obtain packet p where p: "carries packet CLIENT_MAC (FrameIpv4 p)" "\<not> more_fragments p"
    "frag_offset p = 0" "ip_source p = Ipv4Addr 10 0 2 2" "ip_dest p = Ipv4Addr 10 0 2 15"
    "protocol p = ICMP" "ip_data p = [8, 0, 0xF7, 0xFF]"
    by (rule echo_request_carried)
  have a: "arp_lookup ?cache (Ipv4Addr 10 0 2 2) = Some (MacAddress 2 0 0 0 0 1)"
    by (simp add: arp_insert_lookup arp_cache_new_ok)
  have "\<exists>w' frame reply c. process_rx quiet_net (host\<lparr>if_arp := ?cache\<rparr>) packet quiet_world
      = Some (host\<lparr>if_arp := ?cache\<rparr>, w') \<and> wire w' = wire quiet_world @ [frame]
    \<and> carries frame (MacAddress 2 0 0 0 0 1) (FrameIpv4 reply)
    \<and> ip_source reply = Ipv4Addr 10 0 2 15 \<and> ip_dest reply = ip_source p \<and> protocol reply = ICMP
    \<and> ip_id reply = ip_id p \<and> ip_data reply = [0, 0] @ to_be_bytes (c :: u16) @ drop 4 (ip_data p)
    \<and> internet_checksum [ip_data reply] = Some 0"
    by (rule echo_request_answered[OF quiet_net_ok(1), where dst = CLIENT_MAC and p = p
          and hop = "Ipv4Addr 10 0 2 2"])
      (use p a host_next_hop echo_request_checksum in \<open>auto simp: carries_def host_fields\<close>)
  then show ?thesis using p(4) by (auto simp: quiet_world_def)
qed

text \<open>C24: a packet whose next hop is not resolved yet is not lost. Unless its queue is full it is
  parked, and the next ARP packet from that hop puts it on the wire, addressed to the hop's
  hardware address and parsed by the receiver as the packet that was sent.\<close>

theorem parked_packet_delivered:
  assumes "driver_sends ext" and "arp_cache_ok (if_arp self)" and "ipv4_wf packet"
    and "next_hop self dst = Some hop" and "arp_lookup (if_arp self) hop = None"
    and "\<forall>bytes. fst (arp_queue_pending hop bytes (if_arp self)) \<noteq> Dropped"
    and "sender_addr p = hop" and "sender_mac p \<noteq> if_mac self"
  shows "\<exists>self1 w1 self2 w2 frame c. send_ipv4 ext self dst packet w = Some (self1, w1)
    \<and> handle_arp ext self1 p w1 = Some (self2, w2)
    \<and> frame \<in> set (drop (length (wire w1)) (wire w2))
    \<and> carries frame (sender_mac p) (FrameIpv4 (packet\<lparr>ip_checksum := c\<rparr>))
    \<and> arp_lookup (if_arp self2) hop = Some (sender_mac p)"
proof -
  obtain c where c: "ipv4_serialize packet = Some (ipv4_header packet c @ ip_data packet)"
    "\<forall>pad. ipv4_from_packet (ipv4_header packet c @ ip_data packet @ pad)
      = Some (Inr (packet\<lparr>ip_checksum := c\<rparr>))"
    by (rule ipv4_serialize_wf[OF assms(3)])
  let ?bytes = "ipv4_header packet c @ ip_data packet"
  obtain self1 w1 where 1: "deliver ext self hop ?bytes w = (self1, w1)" by fastforce
  then have s1: "if_arp self1 = snd (arp_queue_pending hop ?bytes (if_arp self))"
    "if_mac self1 = if_mac self"
    using assms(5) by (auto simp: deliver_def split: prod.splits)
  have q: "?bytes \<in> set (parked (if_arp self1) hop)"
    using assms(6) by (simp add: s1 arp_queue_parked[OF assms(2)])
  have ok: "arp_cache_ok (if_arp self1)" unfolding s1 by (rule arp.ok_park[OF assms(2)])
  obtain self2 w2 where 2: "handle_arp ext self1 p w1 = Some (self2, w2)"
    and w2: "\<exists>rest. wire w2 = wire w1
        @ map (framed self1 (sender_mac p) EtherIPV4) (parked (if_arp self1) hop) @ rest"
    and s2: "if_arp self2 = snd (arp_insert hop (sender_mac p) (if_arp self1))"
    using assms(7,8)
    by (simp add: handle_arp_steps[OF assms(1)] learn_sender_def answer_arp_def s1(2))
  have "framed self1 (sender_mac p) EtherIPV4 ?bytes \<in> set (drop (length (wire w1)) (wire w2))"
    using w2 q by auto
  moreover have "carries (framed self1 (sender_mac p) EtherIPV4 ?bytes) (sender_mac p)
      (FrameIpv4 (packet\<lparr>ip_checksum := c\<rparr>))"
    by (rule carries_ipv4) (use c(2) in simp)
  moreover have "send_ipv4 ext self dst packet w = Some (self1, w1)"
    using send_ipv4_deliver[OF assms(1) c(1)] assms(4) 1 by simp
  ultimately show ?thesis
    using 2 s2 arp_insert_lookup[OF ok] by (metis fun_upd_same)
qed

theorem parked_packet_delivered_witness:
  "\<exists>packet self1 w1 self2 w2 frame c.
     send_ipv4 quiet_net host (Ipv4Addr 10 0 2 2) packet quiet_world = Some (self1, w1)
     \<and> handle_arp quiet_net self1 neighbour_request w1 = Some (self2, w2)
     \<and> frame \<in> set (drop (length (wire w1)) (wire w2))
     \<and> carries frame (MacAddress 2 0 0 0 0 1) (FrameIpv4 (packet\<lparr>ip_checksum := c\<rparr>))"
proof -
  obtain q where q: "ipv4_new [1] (Ipv4Addr 10 0 2 15) (Ipv4Addr 10 0 2 2) 1 UDP = Inr q"
    by (rule ipv4_new_ok[of "[1]"]) auto
  have wf: "ipv4_wf q"
    using ipv4_new_wf[OF q] by (simp add: protocol_canonical_def protocol_of_u8_def)
  have n: "arp_lookup (if_arp host) (Ipv4Addr 10 0 2 2) = None" by (simp add: host_def arp.empty_lookup)
  have d: "\<forall>bytes. fst (arp_queue_pending (Ipv4Addr 10 0 2 2) bytes (if_arp host)) \<noteq> Dropped"
    by (simp add: host_def arp_queue_pending_def arp_cache_new_def pending_addresses_def
        MAX_PENDING_ADDRESSES_def bt_entries_def)
  have "sender_mac neighbour_request \<noteq> if_mac host"
    by (simp add: neighbour_request_fields host_def CLIENT_MAC_def)
  moreover have "arp_cache_ok (if_arp host)" by (simp add: host_fields arp_cache_new_ok)
  ultimately show ?thesis
    using parked_packet_delivered[OF quiet_net_ok(1) _ wf host_next_hop n d
        neighbour_request_fields(4), of quiet_world]
    unfolding neighbour_request_fields by blast
qed

text \<open>A frame for another hardware address leaves no trace: nothing is sent, learned or
  changed.\<close>

theorem foreign_frame_ignored:
  assumes "14 \<le> length packet" and "read_mac 0 6 packet = Some dst"
    and "dst \<noteq> if_mac self" and "dst \<noteq> mac_broadcast"
  shows "\<exists>w'. process_rx ext self packet w = Some (self, w') \<and> wire w' = wire w
    \<and> kernel_rng w' = kernel_rng w"
  by (rule process_rx_dispatch[OF assms(1), of w ext self])
    (use assms in \<open>auto simp: handle_packet_def split: sum.split\<close>)

theorem foreign_frame_ignored_witness:
  "\<exists>w'. process_rx quiet_net (unbound CLIENT_MAC)
      (ethernet_layout (MacAddress 2 0 0 0 0 1) CLIENT_MAC 0x0806 [1, 2, 3]) quiet_world
      = Some (unbound CLIENT_MAC, w') \<and> wire w' = [] \<and> kernel_rng w' = kernel_rng quiet_world"
  using foreign_frame_ignored[OF _ ethernet_layout_reads(4), of "MacAddress 2 0 0 0 0 1" CLIENT_MAC
      "0x0806" "[1, 2, 3]" "unbound CLIENT_MAC" quiet_net quiet_world]
  by (simp add: unbound_def CLIENT_MAC_def mac_broadcast_def quiet_world_def ethernet_layout_def)

end
