(* ===== verification/Pci.thy ===== *)
theory Pci
  imports Bytes
begin

text \<open>
  PCI configuration space over the legacy ports (\<open>kernel/src/pci.rs\<close> and the PCI accessors
  of \<open>kernel/src/acpi_handling.rs\<close>): the address word, the reads and writes, and the walk
  over every bus, device and function that the device drivers probe with. The ports belong to
  the processor and are parameters.
\<close>

section \<open>The code\<close>

text \<open>\<open>Port<T>::write\<close> and \<open>Port<T>::read\<close> on the outside world \<open>'w\<close>.\<close>

record 'w port_io =
  out8 :: "u16 \<Rightarrow> u8 \<Rightarrow> 'w \<Rightarrow> 'w"
  out16 :: "u16 \<Rightarrow> u16 \<Rightarrow> 'w \<Rightarrow> 'w"
  out32 :: "u16 \<Rightarrow> u32 \<Rightarrow> 'w \<Rightarrow> 'w"
  in8 :: "u16 \<Rightarrow> 'w \<Rightarrow> u8 \<times> 'w"
  in16 :: "u16 \<Rightarrow> 'w \<Rightarrow> u16 \<times> 'w"
  in32 :: "u16 \<Rightarrow> 'w \<Rightarrow> u32 \<times> 'w"

definition pci_config_address :: "u8 \<Rightarrow> u8 \<Rightarrow> u8 \<Rightarrow> u8 \<Rightarrow> u32" where
  "pci_config_address bus device function offset =
     push_bit 31 1 OR push_bit 16 (ucast bus) OR push_bit 11 (ucast device)
       OR push_bit 8 (ucast function) OR (ucast offset AND 0xfc)"

definition pci_read_u32 ::
  "'w port_io \<Rightarrow> u8 \<Rightarrow> u8 \<Rightarrow> u8 \<Rightarrow> u8 \<Rightarrow> 'w \<Rightarrow> u32 \<times> 'w" where
  "pci_read_u32 io bus device function offset w =
     (let address = pci_config_address bus device function offset in
      in32 io 0xCFC (out32 io 0xCF8 address w))"

definition pci_write_u32 ::
  "'w port_io \<Rightarrow> u8 \<Rightarrow> u8 \<Rightarrow> u8 \<Rightarrow> u8 \<Rightarrow> u32 \<Rightarrow> 'w \<Rightarrow> 'w" where
  "pci_write_u32 io bus device function offset val w =
     (let address = pci_config_address bus device function offset in
      out32 io 0xCFC val (out32 io 0xCF8 address w))"

text \<open>
  The identification of a function, as \<open>virtio_drivers\<close> takes it. The header type is the
  masked byte that \<open>HeaderType::from\<close> converts.
\<close>

record device_function_info =
  vendor_id :: u16
  device_id :: u16
  class_code :: u8
  subclass_code :: u8
  prog_if :: u8
  revision :: u8
  header_type :: u8

definition virtio_type_at ::
  "'w port_io \<Rightarrow> (device_function_info \<Rightarrow> 't option) \<Rightarrow> u8 \<Rightarrow> u8 \<Rightarrow> u8 \<Rightarrow> 'w \<Rightarrow> 't option \<times> 'w" where
  "virtio_type_at io virtio_device_type bus device function w =
     (let (device_vendor, w) = pci_read_u32 io bus device function 0 w;
          (class_revision, w) = pci_read_u32 io bus device function 8 w;
          (bist_type_latency_cache, w) = pci_read_u32 io bus device function 12 w
      in (virtio_device_type
            \<lparr> vendor_id = ucast device_vendor, device_id = ucast (drop_bit 16 device_vendor),
              class_code = ucast (drop_bit 24 class_revision),
              subclass_code = ucast (drop_bit 16 class_revision),
              prog_if = ucast (drop_bit 8 class_revision), revision = ucast class_revision,
              header_type = ucast (drop_bit 16 bist_type_latency_cache) AND 0x7f \<rparr>, w))"

record device_function =
  df_bus :: u8
  df_device :: u8
  df_function :: u8

definition read_word :: "'w port_io \<Rightarrow> device_function \<Rightarrow> u8 \<Rightarrow> 'w \<Rightarrow> u32 \<times> 'w" where
  "read_word io df register_offset w =
     pci_read_u32 io (df_bus df) (df_device df) (df_function df) register_offset w"

definition write_word :: "'w port_io \<Rightarrow> device_function \<Rightarrow> u8 \<Rightarrow> u32 \<Rightarrow> 'w \<Rightarrow> 'w" where
  "write_word io df register_offset data w =
     pci_write_u32 io (df_bus df) (df_device df) (df_function df) register_offset data w"

text \<open>The three nested loops over \<open>0..=255\<close>, \<open>0..32\<close> and \<open>0..8\<close>, in the order they run.\<close>

definition pci_functions :: "device_function list" where
  "pci_functions =
     concat (map (\<lambda>bus. concat (map (\<lambda>device. map (\<lambda>function.
       \<lparr> df_bus = of_nat bus, df_device = of_nat device, df_function = of_nat function \<rparr>)
       [0..<8]) [0..<32])) [0..<256])"

datatype pci_line =
    VirtioHeading
  | BarLine nat u32
  | FunctionLine device_function u32 u32

fun read_bars :: "'w port_io \<Rightarrow> device_function \<Rightarrow> nat list \<Rightarrow> 'w \<Rightarrow> pci_line list \<times> 'w" where
  "read_bars io df [] w = ([], w)"
| "read_bars io df (bar # bars) w =
     (let (v, w) = pci_read_u32 io (df_bus df) (df_device df) (df_function df)
            (0x10 + of_nat bar * 4) w;
          (rest, w) = read_bars io df bars w
      in (BarLine bar v # rest, w))"

definition report_function :: "'w port_io \<Rightarrow> device_function \<Rightarrow> 'w \<Rightarrow> pci_line list \<times> 'w" where
  "report_function io df w =
     (let (id0, w) = pci_read_u32 io (df_bus df) (df_device df) (df_function df) 0 w;
          vendor = id0 AND 0xffff
      in if vendor \<noteq> 0xffff then
           (let (id1, w) = pci_read_u32 io (df_bus df) (df_device df) (df_function df) 0 w;
                dev_id = drop_bit 16 id1 AND 0xffff;
                (bars, w) = (if vendor = 0x1af4
                  then apfst (Cons VirtioHeading) (read_bars io df [0..<6] w) else ([], w))
            in (bars @ [FunctionLine df vendor dev_id], w))
         else ([], w))"

fun report_all :: "'w port_io \<Rightarrow> device_function list \<Rightarrow> 'w \<Rightarrow> pci_line list \<times> 'w" where
  "report_all io [] w = ([], w)"
| "report_all io (df # dfs) w =
     (let (ls, w) = report_function io df w; (rest, w) = report_all io dfs w in (ls @ rest, w))"

definition enumerate_pci :: "'w port_io \<Rightarrow> 'w \<Rightarrow> pci_line list \<times> 'w" where
  "enumerate_pci io w = report_all io pci_functions w"

section \<open>The ACPI handler's accessors\<close>

record pci_address =
  segment :: u16
  pa_bus :: u8
  pa_device :: u8
  pa_function :: u8

definition pci_address_to_u32 :: "pci_address \<Rightarrow> u16 \<Rightarrow> u32" where
  "pci_address_to_u32 address offset =
     0x80000000 OR push_bit 16 (ucast (pa_bus address)) OR push_bit 11 (ucast (pa_device address))
       OR push_bit 8 (ucast (pa_function address)) OR (ucast offset AND 0xFC)"

text \<open>The port accessors.\<close>

definition read_io_u8 :: "'w port_io \<Rightarrow> u16 \<Rightarrow> 'w \<Rightarrow> u8 \<times> 'w" where
  "read_io_u8 io port w = in8 io port w"

definition read_io_u16 :: "'w port_io \<Rightarrow> u16 \<Rightarrow> 'w \<Rightarrow> u16 \<times> 'w" where
  "read_io_u16 io port w = in16 io port w"

definition read_io_u32 :: "'w port_io \<Rightarrow> u16 \<Rightarrow> 'w \<Rightarrow> u32 \<times> 'w" where
  "read_io_u32 io port w = in32 io port w"

definition write_io_u8 :: "'w port_io \<Rightarrow> u16 \<Rightarrow> u8 \<Rightarrow> 'w \<Rightarrow> 'w" where
  "write_io_u8 io port val w = out8 io port val w"

definition write_io_u16 :: "'w port_io \<Rightarrow> u16 \<Rightarrow> u16 \<Rightarrow> 'w \<Rightarrow> 'w" where
  "write_io_u16 io port val w = out16 io port val w"

definition write_io_u32 :: "'w port_io \<Rightarrow> u16 \<Rightarrow> u32 \<Rightarrow> 'w \<Rightarrow> 'w" where
  "write_io_u32 io port val w = out32 io port val w"

lemmas io_defs = read_io_u8_def read_io_u16_def read_io_u32_def write_io_u8_def write_io_u16_def
  write_io_u32_def

text \<open>The configuration space of a function, which panics outside segment 0.\<close>

definition acpi_read_pci_u8 :: "'w port_io \<Rightarrow> pci_address \<Rightarrow> u16 \<Rightarrow> 'w \<Rightarrow> (u8 \<times> 'w) option" where
  "acpi_read_pci_u8 io address offset w =
     (if segment address \<noteq> 0 then None
      else Some (read_io_u8 io (0xCFC + offset mod 4)
                   (write_io_u32 io 0xCF8 (pci_address_to_u32 address offset) w)))"

definition acpi_read_pci_u16 :: "'w port_io \<Rightarrow> pci_address \<Rightarrow> u16 \<Rightarrow> 'w \<Rightarrow> (u16 \<times> 'w) option" where
  "acpi_read_pci_u16 io address offset w =
     (if segment address \<noteq> 0 then None
      else Some (read_io_u16 io (0xCFC + offset mod 4)
                   (write_io_u32 io 0xCF8 (pci_address_to_u32 address offset) w)))"

definition acpi_read_pci_u32 :: "'w port_io \<Rightarrow> pci_address \<Rightarrow> u16 \<Rightarrow> 'w \<Rightarrow> (u32 \<times> 'w) option" where
  "acpi_read_pci_u32 io address offset w =
     (if segment address \<noteq> 0 then None
      else Some (read_io_u32 io (0xCFC + offset mod 4)
                   (write_io_u32 io 0xCF8 (pci_address_to_u32 address offset) w)))"

definition acpi_write_pci_u8 :: "'w port_io \<Rightarrow> pci_address \<Rightarrow> u16 \<Rightarrow> u8 \<Rightarrow> 'w \<Rightarrow> 'w option" where
  "acpi_write_pci_u8 io address offset val w =
     (if segment address \<noteq> 0 then None
      else Some (write_io_u8 io (0xCFC + offset mod 4) val
                   (write_io_u32 io 0xCF8 (pci_address_to_u32 address offset) w)))"

definition acpi_write_pci_u16 :: "'w port_io \<Rightarrow> pci_address \<Rightarrow> u16 \<Rightarrow> u16 \<Rightarrow> 'w \<Rightarrow> 'w option" where
  "acpi_write_pci_u16 io address offset val w =
     (if segment address \<noteq> 0 then None
      else Some (write_io_u16 io (0xCFC + offset mod 4) val
                   (write_io_u32 io 0xCF8 (pci_address_to_u32 address offset) w)))"

definition acpi_write_pci_u32 :: "'w port_io \<Rightarrow> pci_address \<Rightarrow> u16 \<Rightarrow> u32 \<Rightarrow> 'w \<Rightarrow> 'w option" where
  "acpi_write_pci_u32 io address offset val w =
     (if segment address \<noteq> 0 then None
      else Some (write_io_u32 io (0xCFC + offset mod 4) val
                   (write_io_u32 io 0xCF8 (pci_address_to_u32 address offset) w)))"

text \<open>The operations that are \<open>unimplemented!()\<close>: each panics.\<close>

definition nanos_since_boot :: "u64 option" where "nanos_since_boot = None"

definition stall :: "u64 \<Rightarrow> 'w \<Rightarrow> 'w option" where "stall microseconds w = None"

definition acpi_sleep :: "u64 \<Rightarrow> 'w \<Rightarrow> 'w option" where "acpi_sleep milliseconds w = None"

definition create_mutex :: "'w \<Rightarrow> ('h \<times> 'w) option" where "create_mutex w = None"

definition acquire :: "'h \<Rightarrow> u16 \<Rightarrow> 'w \<Rightarrow> (('e + unit) \<times> 'w) option" where "acquire mutex timeout w = None"

definition release :: "'h \<Rightarrow> 'w \<Rightarrow> 'w option" where "release mutex w = None"

section \<open>The address word\<close>

lemma or_low:
  fixes x y :: nat
  assumes "y < 2 ^ n"
  shows "push_bit n x OR y = x * 2 ^ n + y"
proof -
  have "\<not> bit (push_bit n x) k \<or> \<not> bit y k" for k
  proof (cases "k < n")
    case True
    then show ?thesis by (simp add: bit_push_bit_iff)
  next
    case False
    then have "y < 2 ^ k"
      using assms by (meson leI less_le_trans one_le_numeral power_increasing)
    then show ?thesis by (simp add: bit_iff_odd)
  qed
  then have "push_bit n x + y = push_bit n x OR y" by (rule disjunctive_add)
  then show ?thesis by (simp add: push_bit_eq_mult)
qed

lemma unat_push_bit:
  fixes w :: "'a::len word"
  assumes "unat w * 2 ^ n < 2 ^ LENGTH('a)"
  shows "unat (push_bit n w) = push_bit n (unat w)"
  unfolding unsigned_push_bit_eq
  by (rule take_bit_nat_eq_self) (use assms in \<open>simp add: push_bit_eq_mult\<close>)

lemma and_fc: "(x :: nat) AND 0xfc = x mod 256 div 4 * 4"
proof -
  have "x AND 0xfc = push_bit 2 (take_bit 6 (drop_bit 2 x))"
  proof (rule bit_eqI)
    fix n
    have "(0xfc :: nat) = push_bit 2 (mask 6)" by (simp add: push_bit_eq_mult mask_eq_exp_minus_1)
    then show "bit (x AND 0xfc) n \<longleftrightarrow> bit (push_bit 2 (take_bit 6 (drop_bit 2 x))) n"
      by (auto simp only: bit_and_iff bit_push_bit_iff bit_take_bit_iff bit_drop_bit_eq
          bit_mask_iff comp_def le_add_diff_inverse) simp_all
  qed
  also have "\<dots> = x div 4 mod 64 * 4"
    by (simp add: push_bit_eq_mult take_bit_eq_mod drop_bit_eq_div)
  finally show ?thesis using mod_mult2_eq[of x 4 64] by simp
qed

text \<open>The fields do not overlap: the word is their sum.\<close>

lemma config_address_sum:
  assumes "unat device < 32" and "unat function < 8"
  shows "unat (pci_config_address bus device function offset)
    = 2 ^ 31 + unat bus * 65536 + unat device * 2048 + unat function * 256
      + unat offset div 4 * 4"
proof -
  have b: "unat bus < 256" "unat offset < 256" by (rule unat_byte_bound)+
  have u: "unat (ucast w :: u32) = unat w" for w :: u8
    by (simp add: unsigned_ucast_eq take_bit_nat_eq_self less_trans[OF unat_byte_bound])
  have low: "unat (ucast offset AND 0xfc :: u32) = unat offset div 4 * 4"
    using b by (simp add: unsigned_and_eq u and_fc)
  have f: "unat (push_bit 8 (ucast function :: u32)) = push_bit 8 (unat function)"
    using assms by (subst unat_push_bit) (simp_all add: u)
  have d: "unat (push_bit 11 (ucast device :: u32)) = push_bit 11 (unat device)"
    using assms by (subst unat_push_bit) (simp_all add: u)
  have s: "unat (push_bit 16 (ucast bus :: u32)) = push_bit 16 (unat bus)"
    using b by (subst unat_push_bit) (simp_all add: u)
  have t: "unat (push_bit 31 1 :: u32) = push_bit 31 1" by simp
  have top: "2147483648 OR y = 2147483648 + y" if "y < 2147483648" for y :: nat
    using or_low[of y 31 1] that by simp
  have l: "unat offset div 4 * 4 < 256" using b by linarith
  show ?thesis
    unfolding pci_config_address_def unsigned_or_eq low f d s t
    using b l assms by (simp add: or_low top)
qed

text \<open>The valid functions, and that the walk visits each of them once.\<close>

definition df_valid :: "device_function \<Rightarrow> bool" where
  "df_valid df \<longleftrightarrow> unat (df_device df) < 32 \<and> unat (df_function df) < 8"

lemma pci_functions_set: "df \<in> set pci_functions \<longleftrightarrow> df_valid df"
proof
  assume "df \<in> set pci_functions"
  then obtain b d f where "d < 32" "f < 8"
    "df = \<lparr> df_bus = of_nat b, df_device = of_nat d, df_function = of_nat f \<rparr>"
    by (auto simp: pci_functions_def)
  then show "df_valid df" by (simp add: df_valid_def unat_of_nat_small)
next
  assume v: "df_valid df"
  have "df = \<lparr> df_bus = of_nat (unat (df_bus df)), df_device = of_nat (unat (df_device df)),
      df_function = of_nat (unat (df_function df)) \<rparr>"
    by (cases df) simp
  moreover have "unat (df_bus df) < 256" by (rule unat_byte_bound)
  ultimately have "\<exists>b\<in>{0..<256}. \<exists>d\<in>{0..<32}. \<exists>f\<in>{0..<8}.
      df = \<lparr> df_bus = of_nat b, df_device = of_nat d, df_function = of_nat f \<rparr>"
    using v by (intro bexI[of _ "unat (df_bus df)"] bexI[of _ "unat (df_device df)"]
        bexI[of _ "unat (df_function df)"]) (auto simp: df_valid_def)
  then show "df \<in> set pci_functions" by (simp add: pci_functions_def image_iff)
qed

section \<open>Probing\<close>

text \<open>
  A walk over the functions whose body may return early, as the two VirtIO drivers are
  brought up: \<open>Some\<close> is a return from the whole walk.
\<close>

fun probe_functions ::
  "(device_function \<Rightarrow> 's \<Rightarrow> ('r option \<times> 's) option) \<Rightarrow> device_function list \<Rightarrow> 's
     \<Rightarrow> ('r option \<times> 's) option" where
  "probe_functions body [] s = Some (None, s)"
| "probe_functions body (df # dfs) s = do {
     (r, s) \<leftarrow> body df s;
     case r of Some v \<Rightarrow> Some (Some v, s) | None \<Rightarrow> probe_functions body dfs s }"

lemma probe_functions_cong:
  assumes "\<And>df s. df \<in> set dfs \<Longrightarrow> body df s = body' df s"
  shows "probe_functions body dfs s = probe_functions body' dfs s"
  using assms
proof (induction dfs arbitrary: s)
  case (Cons df dfs)
  then show ?case by (auto split: option.splits bind_splits)
qed simp

lemma digits_unique:
  fixes a b m r s :: nat
  assumes "r < m" and "s < m"
  shows "a * m + r = b * m + s \<longleftrightarrow> a = b \<and> r = s"
  using assms by (metis div_less div_mult_self3 mod_less mod_mult_self3 add_cancel_left_right not_less0)

lemma config_address_digits:
  assumes "df_valid df"
  shows "unat (pci_config_address (df_bus df) (df_device df) (df_function df) p)
    = 2 ^ 31 + (((unat (df_bus df) * 32 + unat (df_device df)) * 8 + unat (df_function df)) * 64
        + unat p div 4) * 4"
  using assms config_address_sum[of "df_device df" "df_function df" "df_bus df" p]
  by (simp add: df_valid_def)

section \<open>Properties\<close>

text \<open>Configuration addresses are exact. Over the functions that exist the address word
  determines the bus, the device, the function and the dword.\<close>

theorem pci_address_exact:
  assumes "df_valid x" and "df_valid y"
  shows "pci_config_address (df_bus x) (df_device x) (df_function x) p
      = pci_config_address (df_bus y) (df_device y) (df_function y) q
    \<longleftrightarrow> x = y \<and> unat p div 4 = unat q div 4"
proof -
  have b: "unat v div 4 < 64" for v :: u8 using unat_byte_bound[of v] by linarith
  have v: "unat (df_device x) < 32" "unat (df_device y) < 32" "unat (df_function x) < 8"
    "unat (df_function y) < 8"
    using assms by (simp_all add: df_valid_def)
  have "pci_config_address (df_bus x) (df_device x) (df_function x) p
      = pci_config_address (df_bus y) (df_device y) (df_function y) q
    \<longleftrightarrow> (((unat (df_bus x) * 32 + unat (df_device x)) * 8 + unat (df_function x)) * 64
          + unat p div 4)
      = (((unat (df_bus y) * 32 + unat (df_device y)) * 8 + unat (df_function y)) * 64
          + unat q div 4)"
    unfolding word_unat_eq_iff config_address_digits[OF assms(1)] config_address_digits[OF assms(2)]
    by arith
  also have "\<dots> \<longleftrightarrow> x = y \<and> unat p div 4 = unat q div 4"
    unfolding digits_unique[OF b b] digits_unique[OF v(3,4)] digits_unique[OF v(1,2)]
    by (cases x; cases y) (auto simp: word_unat_eq_iff)
  finally show ?thesis .
qed

theorem pci_address_exact_witness:
  "pci_config_address 0 3 0 0x3C \<noteq> pci_config_address 0 3 1 0x3C"
  using pci_address_exact[of "\<lparr> df_bus = 0, df_device = 3, df_function = 0 \<rparr>"
      "\<lparr> df_bus = 0, df_device = 3, df_function = 1 \<rparr>" "0x3C" "0x3C"]
  by (simp add: df_valid_def)

text \<open>The ACPI handler addresses the same dword as the drivers do, and refuses every
  segment but the first. An offset beyond the 256-byte configuration space wraps around to
  its low byte.\<close>

theorem acpi_address_agrees:
  "pci_address_to_u32 a offset
      = pci_config_address (pa_bus a) (pa_device a) (pa_function a) (ucast offset)
    \<and> acpi_read_pci_u32 io a offset w =
      (if segment a \<noteq> 0 then None
       else Some (in32 io (0xCFC + offset mod 4) (out32 io 0xCF8
              (pci_config_address (pa_bus a) (pa_device a) (pa_function a) (ucast offset)) w)))"
proof -
  have "unat ((ucast offset :: u32) AND 0xFC) = unat offset mod 256 div 4 * 4"
    using unsigned_less[of offset, where 'a = nat]
    by (simp add: unsigned_and_eq unsigned_ucast_eq take_bit_nat_eq_self and_fc)
  moreover have "unat (ucast (ucast offset :: u8) AND 0xFC :: u32) = unat offset mod 256 div 4 * 4"
  proof -
    have "unat (ucast (v :: u8) AND 0xFC :: u32) = unat v mod 256 div 4 * 4" for v
      using unat_byte_bound[of v]
      by (simp add: unsigned_and_eq unsigned_ucast_eq take_bit_nat_eq_self and_fc)
    from this[of "ucast offset"] show ?thesis
      by (simp only: unsigned_ucast_eq) (simp add: take_bit_eq_mod)
  qed
  ultimately have "(ucast offset :: u32) AND 0xFC = ucast (ucast offset :: u8) AND 0xFC"
    by (intro unat_eqI) (simp only:)
  then show ?thesis
    by (simp only: pci_address_to_u32_def pci_config_address_def acpi_read_pci_u32_def io_defs) simp
qed

end
