(* ===== verification/Timers.thy ===== *)
theory Timers
  imports Executor
begin

text \<open>
  Sleeping tasks (\<open>kernel/src/task/time.rs\<close>) and the clock that wakes them (\<open>now_ms\<close> and
  \<open>tick\<close> of \<open>kernel/src/time.rs\<close>). The timers are a map from a deadline and the id of the sleeper
  to its waker; a waker pushes the id of its task onto the executor's queue.
\<close>

section \<open>The clock\<close>

definition TICK_HZ :: u32 where "TICK_HZ = 1000"

definition now_ms :: "u64 \<Rightarrow> u64 option" where
  "now_ms ticks = do { t \<leftarrow> mul_chk ticks 1000; Some (t div ucast TICK_HZ) }"

section \<open>Timers\<close>

type_synonym timers = "(u64 \<times> u64, u64) btree"

definition next_id :: "u64 \<Rightarrow> u64 \<times> u64" where
  "next_id counter = (counter, counter + 1)"

function expire :: "('q, u64) queue_ops \<Rightarrow> u64 \<Rightarrow> timers \<Rightarrow> 'q \<Rightarrow> (timers \<times> 'q) option" where
  "expire ops now timers q =
     (case bt_first timers of
        None \<Rightarrow> Some (timers, q)
      | Some (key, wk) \<Rightarrow>
          if fst key > now then Some (timers, q)
          else do {
            q \<leftarrow> wake_task ops wk q;
            expire ops now (bt_remove key timers) q })"
  by pat_completeness auto
termination
  by (relation "measure (\<lambda>(_, _, timers, _). length timers)") (auto elim!: bt_first.elims)

declare expire.simps [simp del]

definition next_deadline :: "timers \<Rightarrow> u64 option" where
  "next_deadline timers = map_option (\<lambda>(key, _). fst key) (bt_first timers)"

record time_task =
  deadline_ms :: u64
  sleeper_id :: u64

definition time_task_new :: "u64 \<Rightarrow> u64 \<Rightarrow> u64 \<Rightarrow> (time_task \<times> u64) option" where
  "time_task_new duration_ms ticks counter = do {
     now \<leftarrow> now_ms ticks;
     deadline \<leftarrow> add_chk now duration_ms;
     let (tid, counter) = next_id counter;
     Some (\<lparr> deadline_ms = deadline, sleeper_id = tid \<rparr>, counter) }"

definition time_task_poll :: "time_task \<Rightarrow> u64 \<Rightarrow> u64 \<Rightarrow> timers \<Rightarrow> (poll \<times> timers) option" where
  "time_task_poll self wk ticks timers = do {
     now \<leftarrow> now_ms ticks;
     if now \<ge> deadline_ms self
     then Some (PollReady, bt_remove (deadline_ms self, sleeper_id self) timers)
     else Some (PollPending, bt_insert (deadline_ms self, sleeper_id self) wk timers) }"

definition time_task_drop :: "time_task \<Rightarrow> timers \<Rightarrow> timers" where
  "time_task_drop self timers = bt_remove (deadline_ms self, sleeper_id self) timers"

definition tick ::
  "('q, u64) queue_ops \<Rightarrow> u64 \<Rightarrow> timers \<Rightarrow> 'q \<Rightarrow> (u64 \<times> timers \<times> 'q) option" where
  "tick ops ticks timers q = do {
     let ticks = ticks + 1;
     now \<leftarrow> now_ms ticks;
     (timers, q) \<leftarrow> expire ops now timers q;
     Some (ticks, timers, q) }"

section \<open>Expiry\<close>

lemma now_ms_ticks:
  assumes "unat ticks * 1000 < 2 ^ 64"
  shows "now_ms ticks = Some ticks"
proof -
  have "mul_chk ticks 1000 = Some (ticks * 1000)" using assms by (simp add: mul_chk_def)
  moreover have "ticks * 1000 div (1000 :: u64) = ticks"
    using assms by (simp add: word_unat_eq_iff unat_div unat_word_ariths)
  ultimately show ?thesis by (simp add: now_ms_def TICK_HZ_def)
qed

text \<open>The sleepers that are due, in the order of their deadlines.\<close>

definition due :: "u64 \<Rightarrow> timers \<Rightarrow> timers" where
  "due now timers = takeWhile (\<lambda>(key, _). fst key \<le> now) (bt_entries timers)"

lemma expire_due:
  assumes "fifo ops cap content" and "bt_ok timers"
    and "length (content q) + length (due now timers) \<le> cap"
  shows "\<exists>q'. expire ops now timers q = Some (drop (length (due now timers)) timers, q')
    \<and> content q' = content q @ map snd (due now timers)"
  using assms(2,3)
proof (induction timers arbitrary: q)
  case Nil
  then show ?case by (simp add: expire.simps due_def bt_entries_def)
next
  case (Cons e timers)
  obtain key wk where e: "e = (key, wk)" by fastforce
  show ?case
  proof (cases "fst key \<le> now")
    case False
    then show ?thesis by (subst expire.simps) (simp add: e due_def bt_entries_def not_le)
  next
    case True
    then have d: "due now (e # timers) = e # due now timers" by (simp add: e due_def bt_entries_def)
    then obtain q1 where q1: "wake_task ops wk q = Some q1" "content q1 = content q @ [wk]"
      using wake_task_ok[OF assms(1), of q wk] Cons.prems(2)
      by (cases "wake_task ops wk q") auto
    have ok: "bt_ok timers" using Cons.prems(1) by (simp add: bt_ok_def)
    moreover have "length (content q1) + length (due now timers) \<le> cap"
      using Cons.prems(2) d q1(2) by simp
    ultimately obtain q' where "expire ops now timers q1 = Some (drop (length (due now timers)) timers, q')"
      "content q' = content q1 @ map snd (due now timers)"
      using Cons.IH by blast
    with True q1 d show ?thesis by (subst expire.simps) (simp add: e)
  qed
qed

lemma due_split:
  assumes "bt_ok timers"
  shows "due now timers = filter (\<lambda>(key, _). fst key \<le> now) timers"
    and "drop (length (due now timers)) timers = filter (\<lambda>(key, _). now < fst key) timers"
proof -
  have late: "now < fst k'" if "bt_ok ((k, v) # t)" "now < fst k" "(k', v') \<in> set t"
    for k k' :: "u64 \<times> u64" and v v' t
  proof -
    have "k < k'" using that(1,3) by force
    then show ?thesis using that(2) by (auto simp: less_prod_def)
  qed
  from assms show "due now timers = filter (\<lambda>(key, _). fst key \<le> now) timers"
  proof (induction timers)
    case (Cons e t)
    obtain k v where e: "e = (k, v)" by fastforce
    have "filter (\<lambda>(key, _). fst key \<le> now) t = []" if "now < fst k"
      using late[OF Cons.prems[unfolded e] that] by (fastforce simp: filter_empty_conv)
    with Cons e show ?case by (cases "fst k \<le> now") (auto simp: due_def bt_entries_def not_le)
  qed (simp add: due_def bt_entries_def)
  from assms show "drop (length (due now timers)) timers = filter (\<lambda>(key, _). now < fst key) timers"
  proof (induction timers)
    case (Cons e t)
    obtain k v where e: "e = (k, v)" by fastforce
    have "filter (\<lambda>(key, _). now < fst key) t = t" if "now < fst k"
      using late[OF Cons.prems[unfolded e] that] by (auto simp: filter_id_conv)
    with Cons e show ?case by (cases "fst k \<le> now") (auto simp: due_def bt_entries_def not_le)
  qed (simp add: due_def bt_entries_def)
qed

lemma bt_filter:
  assumes "bt_ok t"
  shows "bt_ok (filter (\<lambda>(k, _). P k) t)"
    and "bt_get (filter (\<lambda>(k, _). P k) t) k = (if P k then bt_get t k else None)"
proof -
  show "bt_ok (filter (\<lambda>(k, _). P k) t)"
    using assms unfolding bt_ok_def by (induction t) auto
  show "bt_get (filter (\<lambda>(k, _). P k) t) k = (if P k then bt_get t k else None)"
    by (induction t) auto
qed

lemma length_bt_insert: "length (bt_insert k v t) \<le> Suc (length t)"
  by (induction k v t rule: bt_insert.induct) auto

lemma bt_remove_absent: "bt_get t k = None \<Longrightarrow> bt_remove k t = t"
  by (induction k t rule: bt_remove.induct) (auto split: if_splits)

lemma filter_lengths: "length (filter P xs) + length (filter (\<lambda>x. \<not> P x) xs) = length xs"
  by (induction xs) auto

text \<open>One tick: it wakes the sleepers whose deadline has come, in order, and removes only them.\<close>

lemma tick_due:
  assumes "fifo ops cap content" and "bt_ok timers" and "(unat ticks + 1) * 1000 < 2 ^ 64"
    and "length (content q) + length timers \<le> cap"
  shows "\<exists>timers' q'. tick ops ticks timers q = Some (ticks + 1, timers', q') \<and> bt_ok timers'
    \<and> bt_get timers' = (\<lambda>k. if fst k \<le> ticks + 1 then None else bt_get timers k)
    \<and> content q' = content q @ map snd (filter (\<lambda>(key, _). fst key \<le> ticks + 1) timers)
    \<and> length (content q') + length timers' = length (content q) + length timers"
proof -
  let ?now = "ticks + 1"
  note d = due_split[OF assms(2), of ?now]
  have "unat ?now = unat ticks + 1" using assms(3) by (simp add: unat_word_ariths)
  then have now: "now_ms ?now = Some ?now" using assms(3) by (intro now_ms_ticks) simp
  have "length (due ?now timers) \<le> length timers" by (simp add: d(1))
  then have "length (content q) + length (due ?now timers) \<le> cap" using assms(4) by linarith
  then obtain q' where q': "expire ops ?now timers q = Some (drop (length (due ?now timers)) timers, q')"
    "content q' = content q @ map snd (due ?now timers)"
    using expire_due[OF assms(1,2)] by blast
  let ?rest = "filter (\<lambda>(key, _). ?now < fst key) timers"
  have "?rest = filter (\<lambda>x. \<not> (case x of (key, _) \<Rightarrow> fst key \<le> ?now)) timers"
    by (rule filter_cong) (auto simp: not_le)
  then have "length (content q') + length ?rest = length (content q) + length timers"
    using filter_lengths[of "\<lambda>(key, _). fst key \<le> ?now" timers] by (simp add: q'(2) d(1))
  moreover have "bt_get ?rest = (\<lambda>k. if fst k \<le> ?now then None else bt_get timers k)"
    using bt_filter(2)[OF assms(2), of "\<lambda>k. ?now < fst k"] by (auto simp: fun_eq_iff)
  ultimately show ?thesis
    using now q' d bt_filter(1)[OF assms(2), of "\<lambda>k. ?now < fst k"]
    by (simp add: tick_def Let_def)
qed

fun tick_times ::
  "('q, u64) queue_ops \<Rightarrow> nat \<Rightarrow> u64 \<Rightarrow> timers \<Rightarrow> 'q \<Rightarrow> (u64 \<times> timers \<times> 'q) option" where
  "tick_times ops 0 ticks timers q = Some (ticks, timers, q)"
| "tick_times ops (Suc n) ticks timers q = do {
     (ticks, timers, q) \<leftarrow> tick_times ops n ticks timers q;
     tick ops ticks timers q }"

lemma tick_times_due:
  assumes "fifo ops cap content" and "bt_ok timers"
    and "length (content q) + length timers \<le> cap" and "(unat ticks + n) * 1000 < 2 ^ 64"
  shows "\<exists>timers' q'. tick_times ops n ticks timers q = Some (ticks + of_nat n, timers', q')
    \<and> bt_ok timers' \<and> length (content q') + length timers' = length (content q) + length timers
    \<and> bt_get timers' = (\<lambda>k. if 0 < n \<and> fst k \<le> ticks + of_nat n then None else bt_get timers k)
    \<and> (\<forall>k wk. bt_get timers k = Some wk \<and> 0 < n \<and> fst k \<le> ticks + of_nat n \<longrightarrow> wk \<in> set (content q'))"
  using assms(4)
proof (induction n)
  case (Suc n)
  then obtain tm qm where m: "tick_times ops n ticks timers q = Some (ticks + of_nat n, tm, qm)"
    "bt_ok tm" "length (content qm) + length tm = length (content q) + length timers"
    "bt_get tm = (\<lambda>k. if 0 < n \<and> fst k \<le> ticks + of_nat n then None else bt_get timers k)"
    "\<forall>k wk. bt_get timers k = Some wk \<and> 0 < n \<and> fst k \<le> ticks + of_nat n \<longrightarrow> wk \<in> set (content qm)"
    by auto
  have u: "unat (ticks + of_nat n) = unat ticks + n"
    using Suc.prems by (simp add: unat_word_ariths unat_of_nat_small)
  have step: "ticks + of_nat n + 1 = ticks + of_nat (Suc n)" by simp
  obtain t' q' where t': "tick ops (ticks + of_nat n) tm qm = Some (ticks + of_nat (Suc n), t', q')"
    "bt_ok t'" "bt_get t' = (\<lambda>k. if fst k \<le> ticks + of_nat (Suc n) then None else bt_get tm k)"
    "content q' = content qm @ map snd (filter (\<lambda>(key, _). fst key \<le> ticks + of_nat (Suc n)) tm)"
    "length (content q') + length t' = length (content qm) + length tm"
    using tick_due[OF assms(1) m(2), of "ticks + of_nat n" qm, unfolded step] assms(3) m(3) u Suc.prems
    by auto
  have le: "x \<le> ticks + of_nat (Suc n)" if "x \<le> ticks + of_nat n" for x :: u64
  proof -
    have "unat (ticks + of_nat (Suc n)) = unat ticks + Suc n"
      using Suc.prems by (simp add: unat_word_ariths unat_of_nat_small)
    then show ?thesis using that u by (simp add: word_le_nat_alt)
  qed
  have woken: "wk \<in> set (content q')"
    if "bt_get timers k = Some wk" "fst k \<le> ticks + of_nat (Suc n)" for k wk
  proof (cases "bt_get tm k")
    case None
    then have "wk \<in> set (content qm)" using that(1) m(4,5) by (cases k) (auto split: if_splits)
    then show ?thesis using t'(4) by simp
  next
    case (Some wk')
    then have "(k, wk) \<in> set tm"
      using that(1) m(4) bt_entries_get[OF m(2), of k wk] by (auto simp: bt_entries_def split: if_splits)
    then show ?thesis using that(2) t'(4) by force
  qed
  have get: "bt_get t' = (\<lambda>k. if 0 < Suc n \<and> fst k \<le> ticks + of_nat (Suc n) then None else bt_get timers k)"
    using le by (auto simp: t'(3) m(4) fun_eq_iff)
  have "tick_times ops (Suc n) ticks timers q = Some (ticks + of_nat (Suc n), t', q')"
    using m(1) t'(1) by simp
  moreover have "length (content q') + length t' = length (content q) + length timers"
    using m(3) t'(5) by (rule trans[rotated])
  ultimately show ?case using t'(2) get woken by blast
qed (simp add: assms(2))

section \<open>Properties\<close>

text \<open>A tick wakes exactly the sleepers whose deadline has come, in the order of their
  deadlines, and removes exactly them; the others keep their wakers. The loop ends by itself, and
  with room in the queue it never panics.\<close>

theorem tick_wakes_exactly_due:
  assumes "fifo ops 100 content" and "bt_ok timers" and "(unat ticks + 1) * 1000 < 2 ^ 64"
    and "length (content q) + length timers \<le> 100"
  shows "\<exists>timers' q'. tick ops ticks timers q = Some (ticks + 1, timers', q') \<and> bt_ok timers'
    \<and> (\<forall>k. bt_get timers' k = (if fst k \<le> ticks + 1 then None else bt_get timers k))
    \<and> content q' = content q @ map snd (filter (\<lambda>(key, _). fst key \<le> ticks + 1) (bt_entries timers))"
  using tick_due[OF assms] by (auto simp: bt_entries_def)

theorem tick_wakes_exactly_due_witness:
  "\<exists>timers' q'. tick list_queue 9 [((5, 1), 40), ((10, 0), 41), ((11, 2), 42)] [7]
      = Some (10, timers', q') \<and> bt_get timers' (11, 2) = Some 42 \<and> q' = [7, 40, 41]"
proof -
  have "bt_ok [((5, 1), 40), ((10, 0), 41), ((11, 2), 42 :: u64) :: (u64 \<times> u64) \<times> u64]" by simp
  from tick_wakes_exactly_due[OF list_queue_fifo this, of 9 "[7]"] show ?thesis
    by (auto simp: bt_entries_def)
qed

text \<open>C27: a sleeper wakes on time. A task that sleeps for \<open>d\<close> milliseconds is pending and keeps
  its waker through every one of the next \<open>d - 1\<close> ticks; the tick of its deadline wakes it, and
  then it is ready.\<close>

theorem sleeper_wakes_on_time:
  assumes "fifo ops 100 content" and "bt_ok timers" and "time_task_new d ticks counter = Some (t, counter')"
    and "(unat ticks + unat d) * 1000 < 2 ^ 64" and "0 < d"
    and "length (content q) + length timers < 100"
  shows "\<exists>timers1. time_task_poll t wk ticks timers = Some (PollPending, timers1)
    \<and> (\<forall>k < unat d. \<exists>timers' q' timers''. tick_times ops k ticks timers1 q = Some (ticks + of_nat k, timers', q')
         \<and> bt_get timers' (deadline_ms t, sleeper_id t) = Some wk
         \<and> time_task_poll t wk (ticks + of_nat k) timers' = Some (PollPending, timers''))
    \<and> (\<exists>timers' q'. tick_times ops (unat d) ticks timers1 q = Some (ticks + d, timers', q')
         \<and> wk \<in> set (content q') \<and> bt_get timers' (deadline_ms t, sleeper_id t) = None
         \<and> time_task_poll t wk (ticks + d) timers' = Some (PollReady, timers'))"
proof -
  let ?key = "(deadline_ms t, sleeper_id t)"
  have now: "now_ms ticks = Some ticks" using assms(4) by (intro now_ms_ticks) simp
  then have t: "deadline_ms t = ticks + d"
    using assms(3) by (auto simp: time_task_new_def add_chk_def next_id_def split: if_splits)
  have u: "unat (ticks + of_nat k) = unat ticks + k" if "k \<le> unat d" for k
    using that assms(4) by (simp add: unat_word_ariths unat_of_nat_small)
  have ud: "unat (ticks + d) = unat ticks + unat d" using u[of "unat d"] by simp
  have lt: "ticks + of_nat k < ticks + d" if "k < unat d" for k
    using that u[of k] ud by (simp add: word_less_nat_alt)
  have nk: "now_ms (ticks + of_nat k) = Some (ticks + of_nat k)" if "k \<le> unat d" for k
    using that u[of k] assms(4) by (intro now_ms_ticks) simp
  have pos: "0 < unat d" using assms(5) by (simp add: word_less_nat_alt)
  let ?t1 = "bt_insert ?key wk timers"
  have p1: "time_task_poll t wk ticks timers = Some (PollPending, ?t1)"
    using now lt[of 0] pos by (simp add: time_task_poll_def t not_le)
  have ok1: "bt_ok ?t1" "bt_get ?t1 = (bt_get timers)(?key \<mapsto> wk)"
    by (rule bt_ok_insert[OF assms(2)], rule bt_get_insert[OF assms(2)])
  have room: "length (content q) + length ?t1 \<le> 100"
    using assms(6) length_bt_insert[of ?key wk timers] by linarith
  note run = tick_times_due[OF assms(1) ok1(1) room]
  have before: "\<exists>timers' q' timers''.
      tick_times ops k ticks ?t1 q = Some (ticks + of_nat k, timers', q') \<and> bt_get timers' ?key = Some wk
      \<and> time_task_poll t wk (ticks + of_nat k) timers' = Some (PollPending, timers'')"
    if "k < unat d" for k
  proof -
    have "(unat ticks + k) * 1000 < 2 ^ 64" using that assms(4) by simp
    from run[OF this] obtain timers' q' where
      "tick_times ops k ticks ?t1 q = Some (ticks + of_nat k, timers', q')"
      "bt_get timers' = (\<lambda>x. if 0 < k \<and> fst x \<le> ticks + of_nat k then None else bt_get ?t1 x)"
      by blast
    then show ?thesis using lt[OF that] nk[of k] that by (simp add: ok1(2)[unfolded t] t time_task_poll_def not_le)
  qed
  from run[OF assms(4)] obtain timers' q' where r:
    "tick_times ops (unat d) ticks ?t1 q = Some (ticks + d, timers', q')"
    "bt_get timers' = (\<lambda>k. if 0 < unat d \<and> fst k \<le> ticks + d then None else bt_get ?t1 k)"
    "\<forall>k wk'. bt_get ?t1 k = Some wk' \<and> 0 < unat d \<and> fst k \<le> ticks + d \<longrightarrow> wk' \<in> set (content q')"
    by auto
  have e: "tick_times ops (unat d) ticks ?t1 q = Some (ticks + d, timers', q')"
    "bt_get timers' ?key = None" "wk \<in> set (content q')"
    using r(1) r(2)[THEN fun_cong, of ?key] r(3)[rule_format, of ?key wk] pos
    by (simp_all add: ok1(2)[unfolded t] t)
  have "time_task_poll t wk (ticks + d) timers' = Some (PollReady, timers')"
    using nk[of "unat d"] bt_remove_absent[OF e(2)] by (simp add: time_task_poll_def t)
  with e have "\<exists>timers' q'. tick_times ops (unat d) ticks ?t1 q = Some (ticks + d, timers', q')
      \<and> wk \<in> set (content q') \<and> bt_get timers' ?key = None
      \<and> time_task_poll t wk (ticks + d) timers' = Some (PollReady, timers')" by blast
  with p1 before show ?thesis by (intro exI[of _ ?t1]) simp
qed

theorem sleeper_wakes_on_time_witness:
  "\<exists>timers1 timers' q'. time_task_poll \<lparr> deadline_ms = 8, sleeper_id = 0 \<rparr> 3 5 []
      = Some (PollPending, timers1)
    \<and> tick_times list_queue 3 5 timers1 [] = Some (8, timers', q') \<and> 3 \<in> set q'
    \<and> time_task_poll \<lparr> deadline_ms = 8, sleeper_id = 0 \<rparr> 3 8 timers' = Some (PollReady, timers')"
proof -
  have n: "time_task_new 3 5 0 = Some (\<lparr> deadline_ms = 8, sleeper_id = 0 \<rparr>, 1)"
    by (simp add: time_task_new_def now_ms_def TICK_HZ_def mul_chk_def add_chk_def next_id_def)
  from sleeper_wakes_on_time[OF list_queue_fifo bt_ok_simps(1) n, of "[]" 3] show ?thesis by auto
qed

end
