(* ===== verification/Apic.thy ===== *)
theory Apic
  imports Pci Timers
begin

text \<open>
  Interrupt routing and the timer hardware: what the kernel keeps of the ACPI tables
  (\<open>kernel/src/acpi_handling.rs\<close>), the local APIC registers and the I/O APIC
  (\<open>kernel/src/apic.rs\<close>), and the calibration and programming of the timer
  (\<open>kernel/src/time.rs\<close>). Model-specific registers, memory-mapped registers, the legacy
  interrupt controllers and the I/O APIC driver are parameters over the outside world.
\<close>

section \<open>ACPI tables\<close>

record io_apic_info =
  ioapic_id :: u8
  phys_addr :: u32
  gsi_base :: u32

record iso =
  isa_irq :: u8
  iso_gsi :: u32
  iso_flags :: u16

text \<open>The entries of the interrupt table, with the fields the code reads.\<close>

datatype madt_entry =
    MadtIoApic u8 u32 u32
  | MadtIso u8 u32 u16
  | MadtOther

text \<open>The statics \<open>IO_APICS\<close>, \<open>ISOS\<close>, \<open>LAPIC_BASE\<close> and \<open>OFFSET\<close>, each set once.\<close>

record platform =
  io_apics :: "io_apic_info list option"
  isos :: "iso list option"
  lapic_base :: "u64 option"
  mem_offset :: "u64 option"

definition call_once :: "'a \<Rightarrow> 'a option \<Rightarrow> 'a option" where
  "call_once v cell = (case cell of None \<Rightarrow> Some v | Some old \<Rightarrow> Some old)"

fun collect_madt ::
  "madt_entry list \<Rightarrow> iso list \<Rightarrow> io_apic_info list \<Rightarrow> iso list \<times> io_apic_info list" where
  "collect_madt [] is as = (is, as)"
| "collect_madt (MadtIoApic a b c # es) is as =
     collect_madt es is (as @ [\<lparr> ioapic_id = a, phys_addr = b, gsi_base = c \<rparr>])"
| "collect_madt (MadtIso a b c # es) is as =
     collect_madt es (is @ [\<lparr> isa_irq = a, iso_gsi = b, iso_flags = c \<rparr>]) as"
| "collect_madt (MadtOther # es) is as = collect_madt es is as"

text \<open>The entries are \<^const>\<open>None\<close> when a table the code expects is missing.\<close>

definition init_acpi :: "madt_entry list option \<Rightarrow> platform \<Rightarrow> platform option" where
  "init_acpi madt p = do {
     entries \<leftarrow> madt;
     let (is, as) = collect_madt entries [] [];
     Some (p\<lparr>io_apics := call_once as (io_apics p), isos := call_once is (isos p)\<rparr>) }"

definition isa_irq_to_gsi :: "platform \<Rightarrow> u8 \<Rightarrow> u32 option" where
  "isa_irq_to_gsi p irq = do {
     is \<leftarrow> isos p;
     Some (case find (\<lambda>i. isa_irq i = irq) is of Some i \<Rightarrow> iso_gsi i | None \<Rightarrow> ucast irq) }"

text \<open>
  The handler that the table reader accesses memory through: the physical address at the offset
  of the mapping, at any width, and a region of it, which is never the null pointer.
\<close>

record physical_mapping =
  physical_start :: u64
  virtual_start :: u64
  region_length :: u64
  mapped_length :: u64

definition acpi_virt :: "platform \<Rightarrow> u64 \<Rightarrow> u64 option" where
  "acpi_virt p address = do { off \<leftarrow> mem_offset p; add_chk off address }"

definition map_physical_region :: "platform \<Rightarrow> u64 \<Rightarrow> u64 \<Rightarrow> physical_mapping option" where
  "map_physical_region p physical_address len = do {
     v \<leftarrow> acpi_virt p physical_address;
     if v = 0 then None
     else Some \<lparr> physical_start = physical_address, virtual_start = v, region_length = len,
                 mapped_length = len \<rparr> }"

text \<open>Everything stays mapped at the offset, so there is nothing to undo.\<close>

definition unmap_physical_region :: "physical_mapping \<Rightarrow> 'w \<Rightarrow> 'w" where
  "unmap_physical_region region w = w"

definition acpi_read_mem ::
  "platform \<Rightarrow> (u64 \<Rightarrow> 'w \<Rightarrow> 'a::len word \<times> 'w) \<Rightarrow> u64 \<Rightarrow> 'w \<Rightarrow> ('a word \<times> 'w) option" where
  "acpi_read_mem p read_volatile address w = do {
     v \<leftarrow> acpi_virt p address;
     Some (read_volatile v w) }"

definition acpi_write_mem ::
  "platform \<Rightarrow> (u64 \<Rightarrow> 'a::len word \<Rightarrow> 'w \<Rightarrow> 'w) \<Rightarrow> u64 \<Rightarrow> 'a word \<Rightarrow> 'w \<Rightarrow> 'w option" where
  "acpi_write_mem p write_volatile address val w = do {
     v \<leftarrow> acpi_virt p address;
     Some (write_volatile v val w) }"

section \<open>The local APIC\<close>

text \<open>A redirection entry is what the code sets in it; the last field is the two trigger flags.\<close>

record rte =
  rte_vector :: u8
  rte_dest :: u8
  rte_level_low :: bool

record 'w apic_ext =
  msr_read :: "u32 \<Rightarrow> 'w \<Rightarrow> u64 \<times> 'w"
  msr_write :: "u32 \<Rightarrow> u64 \<Rightarrow> 'w \<Rightarrow> 'w"
  pics_disable :: "u8 \<Rightarrow> u8 \<Rightarrow> 'w \<Rightarrow> 'w"
  mmio_read :: "u64 \<Rightarrow> 'w \<Rightarrow> u32 \<times> 'w"
  mmio_write :: "u64 \<Rightarrow> u32 \<Rightarrow> 'w \<Rightarrow> 'w"
  ioapic_init :: "u64 \<Rightarrow> u8 \<Rightarrow> 'w \<Rightarrow> 'w"
  ioapic_set_entry :: "u64 \<Rightarrow> u8 \<Rightarrow> rte \<Rightarrow> 'w \<Rightarrow> 'w"
  ioapic_enable_irq :: "u64 \<Rightarrow> u8 \<Rightarrow> 'w \<Rightarrow> 'w"

definition IA32_APIC_BASE_MSR :: u32 where "IA32_APIC_BASE_MSR = 0x1B"
definition GLOBAL_APIC_ENABLE_BIT :: u64 where "GLOBAL_APIC_ENABLE_BIT = push_bit 11 1"
definition LAPIC_PHYS_ADDR :: u64 where "LAPIC_PHYS_ADDR = 0xFEE00000"
definition PIC_1_OFFSET :: u8 where "PIC_1_OFFSET = 32"
definition PIC_2_OFFSET :: u8 where "PIC_2_OFFSET = PIC_1_OFFSET + 8"
definition REG_LAPIC_ID :: u64 where "REG_LAPIC_ID = 0x020"
definition REG_EOI :: u64 where "REG_EOI = 0x0B0"
definition REG_SPURIOUS :: u64 where "REG_SPURIOUS = 0x0F0"

definition read_register :: "'w apic_ext \<Rightarrow> platform \<Rightarrow> u64 \<Rightarrow> 'w \<Rightarrow> (u32 \<times> 'w) option" where
  "read_register ext p offset w = do {
     base \<leftarrow> lapic_base p;
     addr \<leftarrow> add_chk base offset;
     Some (mmio_read ext addr w) }"

definition write_register :: "'w apic_ext \<Rightarrow> platform \<Rightarrow> u64 \<Rightarrow> u32 \<Rightarrow> 'w \<Rightarrow> 'w option" where
  "write_register ext p offset val w = do {
     base \<leftarrow> lapic_base p;
     addr \<leftarrow> add_chk base offset;
     Some (mmio_write ext addr val w) }"

definition enable :: "'w apic_ext \<Rightarrow> platform \<Rightarrow> 'w \<Rightarrow> 'w option" where
  "enable ext p = write_register ext p REG_SPURIOUS (0x100 OR 0xFF)"

definition end_of_interrupt :: "'w apic_ext \<Rightarrow> platform \<Rightarrow> 'w \<Rightarrow> 'w option" where
  "end_of_interrupt ext p = write_register ext p REG_EOI 0"

definition lapic_id :: "'w apic_ext \<Rightarrow> platform \<Rightarrow> 'w \<Rightarrow> (u8 \<times> 'w) option" where
  "lapic_id ext p w = do {
     (v, w) \<leftarrow> read_register ext p REG_LAPIC_ID w;
     Some (ucast (drop_bit 24 v), w) }"

section \<open>Routing\<close>

definition route_pci_interrupt ::
  "'w apic_ext \<Rightarrow> platform \<Rightarrow> u8 \<Rightarrow> u8 \<Rightarrow> 'w \<Rightarrow> 'w option" where
  "route_pci_interrupt ext p gsi vector w = do {
     as \<leftarrow> io_apics p;
     info \<leftarrow> slice_get 0 as;
     off \<leftarrow> mem_offset p;
     ioapic_addr \<leftarrow> add_chk (ucast (phys_addr info)) off;
     let entry = \<lparr> rte_vector = vector, rte_dest = 0, rte_level_low = True \<rparr>;
     idx \<leftarrow> sub_chk gsi (ucast (gsi_base info));
     let w = ioapic_set_entry ext ioapic_addr idx entry w;
     Some (ioapic_enable_irq ext ioapic_addr idx w) }"

definition route_interrupt ::
  "'w apic_ext \<Rightarrow> platform \<Rightarrow> u8 \<Rightarrow> u8 \<Rightarrow> 'w \<Rightarrow> 'w option" where
  "route_interrupt ext p gsi vector w = do {
     as \<leftarrow> io_apics p;
     info \<leftarrow> slice_get 0 as;
     off \<leftarrow> mem_offset p;
     ioapic_addr \<leftarrow> add_chk (ucast (phys_addr info)) off;
     let entry = \<lparr> rte_vector = vector, rte_dest = 0, rte_level_low = False \<rparr>;
     idx \<leftarrow> sub_chk gsi (ucast (gsi_base info));
     let w = ioapic_set_entry ext ioapic_addr idx entry w;
     Some (ioapic_enable_irq ext ioapic_addr idx w) }"

definition init_apic :: "'w apic_ext \<Rightarrow> platform \<Rightarrow> 'w \<Rightarrow> (platform \<times> 'w) option" where
  "init_apic ext p w = do {
     let (reg, w) = msr_read ext IA32_APIC_BASE_MSR w;
     let reg = reg OR GLOBAL_APIC_ENABLE_BIT;
     let w = msr_write ext IA32_APIC_BASE_MSR reg w;
     let w = pics_disable ext PIC_1_OFFSET PIC_2_OFFSET w;
     base \<leftarrow> (case lapic_base p of
                Some base \<Rightarrow> Some base
              | None \<Rightarrow> do { off \<leftarrow> mem_offset p; add_chk LAPIC_PHYS_ADDR off });
     let p = p\<lparr>lapic_base := Some base\<rparr>;
     w \<leftarrow> enable ext p w;
     (_, w) \<leftarrow> lapic_id ext p w;
     as \<leftarrow> io_apics p;
     info \<leftarrow> slice_get 0 as;
     off \<leftarrow> mem_offset p;
     ioapic_addr \<leftarrow> add_chk (ucast (phys_addr info)) off;
     let w = ioapic_init ext ioapic_addr 32 w;
     gsi \<leftarrow> isa_irq_to_gsi p 4;
     w \<leftarrow> route_interrupt ext p (ucast gsi) 36 w;
     Some (p, w) }"

section \<open>The timer\<close>

definition LVT_TIMER :: u64 where "LVT_TIMER = 0x320"
definition INITIAL_COUNT :: u64 where "INITIAL_COUNT = 0x380"
definition CURRENT_COUNT :: u64 where "CURRENT_COUNT = 0x390"
definition DIVIDE_CONFIG :: u64 where "DIVIDE_CONFIG = 0x3E0"
definition DIVIDE_BY_16 :: u32 where "DIVIDE_BY_16 = 3"
definition LVT_MASKED :: u32 where "LVT_MASKED = push_bit 16 1"
definition LVT_PERIODIC :: u32 where "LVT_PERIODIC = push_bit 17 1"
definition PIT_FREQ :: u32 where "PIT_FREQ = 1193182"
definition CALIBRATION_MS :: u32 where "CALIBRATION_MS = 10"
definition TIMER_VECTOR :: u8 where "TIMER_VECTOR = 0x40"

text \<open>The polling loop; not ending is \<^const>\<open>None\<close>.\<close>

partial_function (option) await_pit :: "'w port_io \<Rightarrow> 'w \<Rightarrow> 'w option" where
  [code]: "await_pit io w =
     (let (v, w) = in8 io 0x61 w in if v AND 0x20 = 0 then await_pit io w else Some w)"

definition calibrate :: "'w port_io \<Rightarrow> 'w apic_ext \<Rightarrow> platform \<Rightarrow> 'w \<Rightarrow> (u32 \<times> 'w) option" where
  "calibrate io ext p w = do {
     let (v, w) = in8 io 0x61 w;
     let w = out8 io 0x61 (v AND 0xFC) w;
     let w = out8 io 0x43 0xB0 w;
     counts \<leftarrow> mul_chk PIT_FREQ CALIBRATION_MS;
     let divisor = (ucast (counts div 1000) :: u16);
     let w = out8 io 0x42 (ucast divisor) w;
     let w = out8 io 0x42 (ucast (drop_bit 8 divisor)) w;
     w \<leftarrow> write_register ext p DIVIDE_CONFIG DIVIDE_BY_16 w;
     w \<leftarrow> write_register ext p LVT_TIMER LVT_MASKED w;
     let (v, w) = in8 io 0x61 w;
     let w = out8 io 0x61 (v OR 0x01) w;
     w \<leftarrow> write_register ext p INITIAL_COUNT 0xFFFFFFFF w;
     w \<leftarrow> await_pit io w;
     (remaining, w) \<leftarrow> read_register ext p CURRENT_COUNT w;
     w \<leftarrow> write_register ext p INITIAL_COUNT 0 w;
     let (v, w) = in8 io 0x61 w;
     let w = out8 io 0x61 (v AND 0xFE) w;
     elapsed \<leftarrow> sub_chk 0xFFFFFFFF remaining;
     scaled \<leftarrow> mul_chk (ucast elapsed :: u64) 1000;
     Some (ucast (scaled div ucast CALIBRATION_MS), w) }"

text \<open>A reload count of zero fails the assertion.\<close>

definition init_timer :: "'w port_io \<Rightarrow> 'w apic_ext \<Rightarrow> platform \<Rightarrow> 'w \<Rightarrow> 'w option" where
  "init_timer io ext p w = do {
     (hz, w) \<leftarrow> calibrate io ext p w;
     let count = hz div TICK_HZ;
     if count = 0 then None else do {
     w \<leftarrow> write_register ext p DIVIDE_CONFIG DIVIDE_BY_16 w;
     w \<leftarrow> write_register ext p LVT_TIMER (ucast TIMER_VECTOR OR LVT_PERIODIC) w;
     write_register ext p INITIAL_COUNT count w } }"

text \<open>The timer's interrupt: the clock's tick, then the end of the interrupt.\<close>

definition timer_interrupt_handler ::
  "('q, u64) queue_ops \<Rightarrow> 'w apic_ext \<Rightarrow> platform \<Rightarrow> u64 \<Rightarrow> timers \<Rightarrow> 'q \<Rightarrow> 'w
     \<Rightarrow> (u64 \<times> timers \<times> 'q \<times> 'w) option" where
  "timer_interrupt_handler ops ext p ticks timers q w = do {
     (ticks, timers, q) \<leftarrow> tick ops ticks timers q;
     w \<leftarrow> end_of_interrupt ext p w;
     Some (ticks, timers, q, w) }"

section \<open>Tables\<close>

text \<open>What the tables say: the first I/O APIC, and the first override of an ISA interrupt.\<close>

fun first_io_apic :: "madt_entry list \<Rightarrow> io_apic_info option" where
  "first_io_apic [] = None"
| "first_io_apic (MadtIoApic a b c # es) = Some \<lparr> ioapic_id = a, phys_addr = b, gsi_base = c \<rparr>"
| "first_io_apic (e # es) = first_io_apic es"

fun gsi_of :: "madt_entry list \<Rightarrow> u8 \<Rightarrow> u32" where
  "gsi_of [] irq = ucast irq"
| "gsi_of (MadtIso a b c # es) irq = (if a = irq then b else gsi_of es irq)"
| "gsi_of (e # es) irq = gsi_of es irq"

lemma collect_first_io_apic:
  "slice_get 0 (snd (collect_madt es is as))
     = (case as of [] \<Rightarrow> first_io_apic es | a # _ \<Rightarrow> Some a)"
  by (induction es "is" as rule: collect_madt.induct)
    (auto simp: slice_get_def nth_append split: list.splits)

lemma collect_gsi_of:
  "(case find (\<lambda>i. isa_irq i = irq) (fst (collect_madt es is as)) of
      Some i \<Rightarrow> iso_gsi i | None \<Rightarrow> ucast irq)
   = (case find (\<lambda>i. isa_irq i = irq) is of Some i \<Rightarrow> iso_gsi i | None \<Rightarrow> gsi_of es irq)"
proof (induction es "is" as rule: collect_madt.induct)
  case (3 a b c es "is" as)
  have "find P (xs @ [x]) = (case find P xs of Some y \<Rightarrow> Some y | None \<Rightarrow> if P x then Some x else None)"
    for P :: "iso \<Rightarrow> bool" and xs x
    by (induction xs) auto
  then show ?case using 3 by (auto split: option.splits)
qed (auto split: option.splits)

text \<open>The accessors reach the byte that a mapping of a region around it reaches.\<close>

lemma acpi_mapping_agrees:
  assumes "map_physical_region p start len = Some m" and "unat d < unat len"
    and "unat (virtual_start m) + unat d < 2 ^ 64" and "unat start + unat d < 2 ^ 64"
  shows "acpi_read_mem p rd (start + d) w = Some (rd (virtual_start m + d) w)"
proof -
  obtain off where off: "mem_offset p = Some off" "add_chk off start = Some (virtual_start m)"
    using assms(1) by (auto simp: map_physical_region_def acpi_virt_def split: if_splits bind_splits)
  then have v: "virtual_start m = off + start" "unat (virtual_start m) = unat off + unat start"
    using add_chk_unat[OF off(2)] by (auto simp: add_chk_def split: if_splits)
  have "unat (start + d) = unat start + unat d" using assms(4) by (simp add: unat_word_ariths)
  then have "unat off + unat (start + d) < 2 ^ LENGTH(64)" using assms(3) v(2) by simp
  then have "add_chk off (start + d) = Some (virtual_start m + d)"
    unfolding v(1) by (simp only: add_chk_Some add.assoc)
  then show ?thesis using off(1) by (simp add: acpi_read_mem_def acpi_virt_def)
qed

lemma init_acpi_tables:
  assumes "init_acpi (Some es) p0 = Some p" and "io_apics p0 = None" and "isos p0 = None"
  shows "isa_irq_to_gsi p irq = Some (gsi_of es irq)"
    and "\<exists>as. io_apics p = Some as \<and> slice_get 0 as = first_io_apic es"
    and "lapic_base p = lapic_base p0" and "mem_offset p = mem_offset p0"
  using assms collect_gsi_of[of irq es "[]" "[]"] collect_first_io_apic[of es "[]" "[]"]
  by (auto simp: init_acpi_def isa_irq_to_gsi_def call_once_def split: prod.splits)

section \<open>Registers\<close>

lemma register_access:
  assumes "lapic_base p = Some base" and "unat base + 0x3E0 < 2 ^ 64" and "unat r \<le> 0x3E0"
  shows "read_register ext p r w = Some (mmio_read ext (base + r) w)"
    and "write_register ext p r v w = Some (mmio_write ext (base + r) v w)"
  using assms by (simp_all add: read_register_def write_register_def add_chk_def)

section \<open>Calibration\<close>

text \<open>The output line of the counter is high at some later poll of the port.\<close>

inductive pit_expires :: "'w port_io \<Rightarrow> 'w \<Rightarrow> 'w \<Rightarrow> bool" for io where
  high: "\<lbrakk>in8 io 0x61 w = (v, w'); v AND 0x20 \<noteq> 0\<rbrakk> \<Longrightarrow> pit_expires io w w'"
| low: "\<lbrakk>in8 io 0x61 w = (v, w1); v AND 0x20 = 0; pit_expires io w1 w'\<rbrakk> \<Longrightarrow> pit_expires io w w'"

lemma await_pit_expires: "pit_expires io w w' \<Longrightarrow> await_pit io w = Some w'"
proof (induction rule: pit_expires.induct)
  case (high w v w')
  then show ?case by (subst await_pit.simps) simp
next
  case (low w v w1 w')
  then show ?case by (subst await_pit.simps) simp
qed

text \<open>The counts of ten milliseconds, scaled to a second.\<close>

lemma calibrated_hz:
  fixes remaining :: u32
  assumes "0xFFFFFFFF - unat remaining \<le> 42949672"
  shows "sub_chk 0xFFFFFFFF remaining = Some (0xFFFFFFFF - remaining)"
    and "mul_chk (ucast (0xFFFFFFFF - remaining) :: u64) 1000
      = Some (ucast (0xFFFFFFFF - remaining) * 1000)"
    and "unat (ucast ((ucast (0xFFFFFFFF - remaining) * 1000 :: u64) div ucast CALIBRATION_MS) :: u32)
      = (0xFFFFFFFF - unat remaining) * 100"
proof -
  let ?e = "0xFFFFFFFF - remaining :: u32"
  have r: "unat remaining \<le> 0xFFFFFFFF" using unsigned_less[of remaining, where 'a = nat] by simp
  then show "sub_chk 0xFFFFFFFF remaining = Some ?e" by (simp add: sub_chk_def)
  have e: "unat ?e = 0xFFFFFFFF - unat remaining"
    using r by (subst unat_sub) (simp_all add: word_le_nat_alt)
  then have u: "unat (ucast ?e :: u64) = 0xFFFFFFFF - unat remaining"
    by (simp add: unsigned_ucast_eq take_bit_nat_eq_self)
  then show "mul_chk (ucast ?e :: u64) 1000 = Some (ucast ?e * 1000)"
    using assms by (simp add: mul_chk_def)
  have "unat (ucast ?e * 1000 :: u64) = (0xFFFFFFFF - unat remaining) * 1000"
    using u assms by (simp add: unat_word_ariths)
  then show "unat (ucast ((ucast ?e * 1000 :: u64) div ucast CALIBRATION_MS) :: u32)
      = (0xFFFFFFFF - unat remaining) * 100"
    using assms by (simp add: unsigned_ucast_eq unat_div CALIBRATION_MS_def take_bit_nat_eq_self)
qed

text \<open>
  The machine when the calibration starts to wait: both counters are programmed and running. What
  it relies on is that the one expires at some later poll, and that the other has then counted down
  by at least ten and by fewer than about 43 million.
\<close>

definition timers_programmed :: "'w port_io \<Rightarrow> 'w apic_ext \<Rightarrow> u64 \<Rightarrow> 'w \<Rightarrow> 'w" where
  "timers_programmed io ext base w =
     (let (v, w) = in8 io 0x61 w;
          w = out8 io 0x61 (v AND 0xFC) w;
          w = out8 io 0x43 0xB0 w;
          w = out8 io 0x42 (ucast (11931 :: u16)) w;
          w = out8 io 0x42 (ucast (drop_bit 8 (11931 :: u16))) w;
          w = mmio_write ext (base + DIVIDE_CONFIG) DIVIDE_BY_16 w;
          w = mmio_write ext (base + LVT_TIMER) LVT_MASKED w;
          (v, w) = in8 io 0x61 w;
          w = out8 io 0x61 (v OR 0x01) w
      in mmio_write ext (base + INITIAL_COUNT) 0xFFFFFFFF w)"

definition elapsed_at :: "'w apic_ext \<Rightarrow> u64 \<Rightarrow> 'w \<Rightarrow> nat" where
  "elapsed_at ext base w = 0xFFFFFFFF - unat (fst (mmio_read ext (base + CURRENT_COUNT) w))"

definition timers_run :: "'w port_io \<Rightarrow> 'w apic_ext \<Rightarrow> u64 \<Rightarrow> 'w \<Rightarrow> bool" where
  "timers_run io ext base w \<longleftrightarrow>
     (\<exists>w'. pit_expires io (timers_programmed io ext base w) w'
        \<and> 10 \<le> elapsed_at ext base w' \<and> elapsed_at ext base w' \<le> 42949672)"

lemma calibrate_result:
  assumes "lapic_base p = Some base" and "unat base + 0x3E0 < 2 ^ 64"
    and "pit_expires io (timers_programmed io ext base w) w1" and "elapsed_at ext base w1 \<le> 42949672"
  shows "\<exists>hz w3. calibrate io ext p w = Some (hz, w3) \<and> unat hz = elapsed_at ext base w1 * 100"
proof -
  note access = register_access[OF assms(1,2)]
  have m: "mul_chk PIT_FREQ CALIBRATION_MS = Some 11931820"
    by (simp add: mul_chk_def PIT_FREQ_def CALIBRATION_MS_def)
  have d: "(ucast ((11931820 :: u32) div 1000) :: u16) = 11931" by simp
  note hz = calibrated_hz[OF assms(4)[unfolded elapsed_at_def], folded elapsed_at_def]
  have await: "await_pit io (timers_programmed io ext base w) = Some w1" by (rule await_pit_expires[OF assms(3)])
  show ?thesis
    using await unfolding calibrate_def timers_programmed_def split_def Let_def m
    by (simp add: access d hz DIVIDE_CONFIG_def LVT_TIMER_def INITIAL_COUNT_def
        CURRENT_COUNT_def[THEN arg_cong[where f = unat]])
qed

section \<open>Setting up the APICs\<close>

lemma init_apic_outcome:
  assumes "init_acpi (Some es) p0 = Some p"
    and "io_apics p0 = None" and "isos p0 = None" and "lapic_base p0 = None"
    and "mem_offset p0 = Some off" and "unat off + 2 ^ 33 < 2 ^ 64"
  shows "first_io_apic es = None \<Longrightarrow> init_apic ext p w = None"
    and "first_io_apic es = Some info \<Longrightarrow>
      \<exists>w1. init_apic ext p w =
        (if (ucast (gsi_of es 4) :: u8) < ucast (gsi_base info) then None
         else Some (p\<lparr>lapic_base := Some (0xFEE00000 + off)\<rparr>,
           ioapic_enable_irq ext (ucast (phys_addr info) + off) (ucast (gsi_of es 4) - ucast (gsi_base info))
             (ioapic_set_entry ext (ucast (phys_addr info) + off)
               (ucast (gsi_of es 4) - ucast (gsi_base info))
               \<lparr> rte_vector = 36, rte_dest = 0, rte_level_low = False \<rparr> w1)))"
proof -
  note tables = init_acpi_tables[OF assms(1-3)]
  obtain as where as: "io_apics p = Some as" "slice_get 0 as = first_io_apic es"
    using tables(2) by blast
  have p: "lapic_base p = None" "mem_offset p = Some off" using tables(3,4) assms(4,5) by simp_all
  have b: "add_chk LAPIC_PHYS_ADDR off = Some (0xFEE00000 + off)"
    "unat (0xFEE00000 + off) = 0xFEE00000 + unat off"
    using assms(6) by (simp_all add: add_chk_def LAPIC_PHYS_ADDR_def unat_word_ariths)
  let ?p = "p\<lparr>lapic_base := Some (0xFEE00000 + off)\<rparr>"
  note access = register_access[of ?p "0xFEE00000 + off", OF _ _]
  have gsi: "isa_irq_to_gsi ?p 4 = Some (gsi_of es 4)"
    using tables(1)[of 4] by (simp add: isa_irq_to_gsi_def)
  note defs = init_apic_def enable_def lapic_id_def access REG_SPURIOUS_def REG_LAPIC_ID_def
    split_def Let_def
  show "init_apic ext p w = None" if "first_io_apic es = None"
    using as p b assms(6) that by (simp add: defs)
  have "unat (ucast (phys_addr info) :: u64) < 2 ^ 32"
    using unsigned_less[of "phys_addr info", where 'a = nat]
    by (simp add: unsigned_ucast_eq take_bit_nat_eq_self)
  then have "add_chk (ucast (phys_addr info)) off = Some (ucast (phys_addr info) + off)"
    using assms(6) by (simp add: add_chk_def)
  then show "\<exists>w1. init_apic ext p w =
      (if (ucast (gsi_of es 4) :: u8) < ucast (gsi_base info) then None
       else Some (?p, ioapic_enable_irq ext (ucast (phys_addr info) + off)
           (ucast (gsi_of es 4) - ucast (gsi_base info))
         (ioapic_set_entry ext (ucast (phys_addr info) + off)
           (ucast (gsi_of es 4) - ucast (gsi_base info))
           \<lparr> rte_vector = 36, rte_dest = 0, rte_level_low = False \<rparr> w1)))"
    if "first_io_apic es = Some info"
    using as p b assms(6) that gsi
    by (auto simp: defs route_interrupt_def sub_chk_def word_less_nat_alt)
qed

lemma init_timer_outcome:
  assumes "lapic_base p = Some base" and "unat base + 0x3E0 < 2 ^ 64"
    and "pit_expires io (timers_programmed io ext base w) w1"
    and "10 \<le> elapsed_at ext base w1" and "elapsed_at ext base w1 \<le> 42949672"
  shows "\<exists>w3. init_timer io ext p w = Some (mmio_write ext (base + INITIAL_COUNT)
        (of_nat (elapsed_at ext base w1 div 10))
        (mmio_write ext (base + LVT_TIMER) (ucast TIMER_VECTOR OR LVT_PERIODIC)
          (mmio_write ext (base + DIVIDE_CONFIG) DIVIDE_BY_16 w3)))"
proof -
  let ?e = "elapsed_at ext base w1"
  obtain hz w3 where c: "calibrate io ext p w = Some (hz, w3)" and hz: "unat hz = ?e * 100"
    using calibrate_result[OF assms(1-3,5)] by blast
  have "unat (hz div TICK_HZ) = ?e div 10" using hz by (simp add: unat_div TICK_HZ_def)
  then have "hz div TICK_HZ = of_nat (?e div 10)" and "hz div TICK_HZ \<noteq> 0"
    using assms(4)
    by (metis of_nat_unat ucast_id, metis div_greater_zero_iff less_numeral_extra(3) unsigned_0
        zero_less_numeral)
  then show ?thesis
    using c
    by (auto simp: init_timer_def DIVIDE_CONFIG_def LVT_TIMER_def INITIAL_COUNT_def
        register_access(2)[OF assms(1,2)])
qed

section \<open>Properties\<close>

text \<open>C40: the serial port's interrupt is routed by the tables. With the tables read into fresh
  statics, setting up the APICs maps the local registers, and leaves IRQ 4 - through its first
  override, if there is one - enabled on the first I/O APIC as vector 36, edge triggered, on
  core 0. It panics exactly when there is no I/O APIC or the interrupt's number lies below that
  controller's base, both taken as bytes; a second controller is never used.\<close>

theorem com1_interrupt_routed:
  assumes "init_acpi (Some es) p0 = Some p"
    and "io_apics p0 = None" and "isos p0 = None" and "lapic_base p0 = None"
    and "mem_offset p0 = Some off" and "unat off + 2 ^ 33 < 2 ^ 64"
  shows "case first_io_apic es of
      None \<Rightarrow> init_apic ext p w = None
    | Some info \<Rightarrow>
        (let gsi = ucast (gsi_of es 4) :: u8; low = ucast (gsi_base info) :: u8;
             addr = ucast (phys_addr info) + off
         in if gsi < low then init_apic ext p w = None
            else \<exists>w1. init_apic ext p w = Some (p\<lparr>lapic_base := Some (0xFEE00000 + off)\<rparr>,
              ioapic_enable_irq ext addr (gsi - low) (ioapic_set_entry ext addr (gsi - low)
                \<lparr> rte_vector = 36, rte_dest = 0, rte_level_low = False \<rparr> w1)))"
proof (cases "first_io_apic es")
  case None
  then show ?thesis using init_apic_outcome(1)[OF assms] by simp
next
  case (Some info)
  from init_apic_outcome(2)[OF assms Some, of ext w] show ?thesis by (auto simp: Some Let_def)
qed

text \<open>Hardware that records nothing: the counter has run out and 1000 counts have passed.\<close>

definition still_apic :: "unit apic_ext" where
  "still_apic = \<lparr> msr_read = \<lambda>_ w. (0, w), msr_write = \<lambda>_ _ w. w, pics_disable = \<lambda>_ _ w. w,
     mmio_read = \<lambda>_ w. (0xFFFFFC17, w), mmio_write = \<lambda>_ _ w. w, ioapic_init = \<lambda>_ _ w. w,
     ioapic_set_entry = \<lambda>_ _ _ w. w, ioapic_enable_irq = \<lambda>_ _ w. w \<rparr>"

definition fresh_platform :: platform where
  "fresh_platform = \<lparr> io_apics = None, isos = None, lapic_base = None, mem_offset = Some 0x1000 \<rparr>"

theorem com1_interrupt_routed_witness:
  "\<exists>p. init_acpi (Some [MadtOther, MadtIso 4 11 0, MadtIoApic 1 0xFEC00000 8]) fresh_platform = Some p
    \<and> init_apic still_apic p () = Some (p\<lparr>lapic_base := Some 0xFEE01000\<rparr>, ())"
proof -
  let ?es = "[MadtOther, MadtIso 4 11 0, MadtIoApic 1 0xFEC00000 8]"
  obtain p where p: "init_acpi (Some ?es) fresh_platform = Some p"
    by (simp add: init_acpi_def)
  show ?thesis
    using com1_interrupt_routed[OF p, of "0x1000" still_apic "()"] p
    by (simp add: fresh_platform_def Let_def word_less_nat_alt)
qed

text \<open>The timer is started at a thousand interrupts a second. When the counter of the
  calibration expires, and the local timer has counted down at least ten and fewer than about
  43 million in those ten milliseconds, the calibration returns and the timer is left periodic
  on its vector with a tenth of the measured counts as its period, which is one millisecond.\<close>

theorem timer_starts:
  assumes "lapic_base p = Some base" and "unat base + 0x3E0 < 2 ^ 64" and "timers_run io ext base w"
  shows "\<exists>w1 w3. pit_expires io (timers_programmed io ext base w) w1
    \<and> init_timer io ext p w = Some (mmio_write ext (base + INITIAL_COUNT)
        (of_nat (elapsed_at ext base w1 div 10))
        (mmio_write ext (base + LVT_TIMER) (ucast TIMER_VECTOR OR LVT_PERIODIC)
          (mmio_write ext (base + DIVIDE_CONFIG) DIVIDE_BY_16 w3)))"
proof -
  obtain w1 where "pit_expires io (timers_programmed io ext base w) w1" "10 \<le> elapsed_at ext base w1"
    "elapsed_at ext base w1 \<le> 42949672"
    using assms(3) unfolding timers_run_def by blast
  with init_timer_outcome[OF assms(1,2) this] show ?thesis by blast
qed

text \<open>
  A machine with the two counters: the one of the calibration runs when its gate is opened and
  expires at the third poll, and a poll takes five hundred counts of the local timer. Its
  configuration space has a network card at \<open>00:00.0\<close>, with interrupt line 11.
\<close>

record pc_world =
  cfg_addr :: u32
  pit_left :: "nat option"
  lapic_count :: u32

definition pc_ports :: "pc_world port_io" where
  "pc_ports = \<lparr> out8 = \<lambda>port v w. if port = 0x61 then w\<lparr>pit_left := if v AND 1 = 0 then None else Some 2\<rparr> else w,
     out16 = \<lambda>_ _ w. w, out32 = \<lambda>port v w. if port = 0xCF8 then w\<lparr>cfg_addr := v\<rparr> else w,
     in8 = \<lambda>_ w. (case pit_left w of None \<Rightarrow> (0, w) | Some 0 \<Rightarrow> (0x20, w)
       | Some (Suc n) \<Rightarrow> (0, w\<lparr>pit_left := Some n, lapic_count := lapic_count w - 500\<rparr>)),
     in16 = \<lambda>_ w. (0, w),
     in32 = \<lambda>_ w. (if cfg_addr w = 0x80000000 then 0x10411AF4
       else if cfg_addr w = 0x8000003C then 11 else 0xFFFFFFFF, w) \<rparr>"

definition pc_apic :: "u64 \<Rightarrow> pc_world apic_ext" where
  "pc_apic base = \<lparr> msr_read = \<lambda>_ w. (0, w), msr_write = \<lambda>_ _ w. w, pics_disable = \<lambda>_ _ w. w,
     mmio_read = \<lambda>addr w. (if addr = base + CURRENT_COUNT then lapic_count w else 0, w),
     mmio_write = \<lambda>addr v w. if addr = base + INITIAL_COUNT then w\<lparr>lapic_count := v\<rparr> else w,
     ioapic_init = \<lambda>_ _ w. w, ioapic_set_entry = \<lambda>_ _ _ w. w, ioapic_enable_irq = \<lambda>_ _ w. w \<rparr>"

lemma pc_timers_run: "timers_run pc_ports (pc_apic base) base w"
proof -
  let ?w = "timers_programmed pc_ports (pc_apic base) base w"
  have w: "pit_left ?w = Some 2" "lapic_count ?w = 0xFFFFFFFF"
    by (simp_all add: timers_programmed_def pc_ports_def pc_apic_def split_def Let_def DIVIDE_CONFIG_def
        LVT_TIMER_def INITIAL_COUNT_def)
  let ?w1 = "?w\<lparr>pit_left := Some (Suc 0), lapic_count := lapic_count ?w - 500\<rparr>"
  let ?w2 = "?w\<lparr>pit_left := Some 0, lapic_count := lapic_count ?w - 500 - 500\<rparr>"
  have poll: "in8 pc_ports 0x61 v = (case pit_left v of None \<Rightarrow> (0, v) | Some 0 \<Rightarrow> (0x20, v)
      | Some (Suc n) \<Rightarrow> (0, v\<lparr>pit_left := Some n, lapic_count := lapic_count v - 500\<rparr>))" for v
    by (simp add: pc_ports_def)
  have "pit_expires pc_ports ?w2 ?w2" by (rule pit_expires.high[of _ _ "0x20"]) (simp_all add: poll)
  then have "pit_expires pc_ports ?w1 ?w2" by (rule pit_expires.low[where v = 0, rotated 2]) (simp_all add: poll)
  then have "pit_expires pc_ports ?w ?w2"
    by (rule pit_expires.low[where v = 0, rotated 2]) (simp_all add: poll w(1) numeral_2_eq_2)
  moreover have "elapsed_at (pc_apic base) base v = 0xFFFFFFFF - unat (lapic_count v)" for v
    by (simp add: elapsed_at_def pc_apic_def)
  then have "elapsed_at (pc_apic base) base ?w2 = 1000" by (simp add: w(2))
  ultimately show ?thesis unfolding timers_run_def by force
qed

theorem timer_starts_witness:
  "\<exists>w'. init_timer pc_ports (pc_apic 0xFEE01000) (fresh_platform\<lparr>lapic_base := Some 0xFEE01000\<rparr>)
      \<lparr> cfg_addr = 0, pit_left = None, lapic_count = 0 \<rparr> = Some w'"
  using timer_starts[OF _ _ pc_timers_run, of "fresh_platform\<lparr>lapic_base := Some 0xFEE01000\<rparr>" "0xFEE01000"]
  by auto

end
