(* ===== verification/Devices.thy ===== *)
theory Devices
  imports Apic Rng
begin

text \<open>
  Bringing up the VirtIO devices: the network card (\<open>kernel/src/network/device.rs\<close>) and the
  entropy source with the generator seeded from it (\<open>init_virtio_rng\<close> and
  \<open>init_entropy\<close> of \<open>kernel/src/rng.rs\<close>). The transport and the two drivers are those of
  \<open>virtio_drivers\<close>; they are parameters that act on the outside world, in which an
  installed driver lives. Of the driver statics the model keeps whether they are set.
\<close>

section \<open>The code\<close>

datatype ('i, 't) device_err =
    FailedInit 'i
  | VirtioError 't

datatype virtio_device =
    DeviceNetwork
  | DeviceEntropySource
  | DeviceOther nat

record ('w, 't, 'i, 'e) dev_ext =
  device_type_of :: "device_function_info \<Rightarrow> virtio_device option"
  transport_new :: "device_function \<Rightarrow> 'w \<Rightarrow> ('e + 't) \<times> 'w"
  net_new :: "'t \<Rightarrow> nat \<Rightarrow> 'w \<Rightarrow> ('i + unit) \<times> 'w"
  net_enable_interrupts :: "'w \<Rightarrow> 'w"
  rng_new :: "'t \<Rightarrow> 'w \<Rightarrow> ('i + unit) \<times> 'w"
  rng_enable_interrupts :: "'w \<Rightarrow> 'w"

definition init_net_from_df ::
  "('w, 't, 'i, 'e) dev_ext \<Rightarrow> device_function \<Rightarrow> bool \<times> 'w
     \<Rightarrow> (('i, 'e) device_err + unit) \<times> bool \<times> 'w" where
  "init_net_from_df ext df = (\<lambda>(up, w).
     (case transport_new ext df w of
        (Inr transport, w) \<Rightarrow>
          (case net_new ext transport 16384 w of
             (Inr _, w) \<Rightarrow> (Inr (), True, net_enable_interrupts ext w)
           | (Inl err, w) \<Rightarrow> (Inl (FailedInit err), up, w))
      | (Inl err, w) \<Rightarrow> (Inl (VirtioError err), up, w)))"

definition VIRTIO_NET_VECTOR :: u8 where "VIRTIO_NET_VECTOR = 0x60"

text \<open>One round of the walk; \<open>Some ()\<close> is the early return.\<close>

definition probe_net ::
  "'w port_io \<Rightarrow> 'w apic_ext \<Rightarrow> platform \<Rightarrow> ('w, 't, 'i, 'e) dev_ext \<Rightarrow> device_function
     \<Rightarrow> bool \<times> 'w \<Rightarrow> (unit option \<times> bool \<times> 'w) option" where
  "probe_net io apic p ext df = (\<lambda>(up, w).
     (let (ty, w) = virtio_type_at io (device_type_of ext) (df_bus df) (df_device df) (df_function df) w
      in if ty \<noteq> Some DeviceNetwork then Some (None, up, w)
         else (case init_net_from_df ext df (up, w) of
             (Inr _, up, w) \<Rightarrow> do {
               let (pci_reg, w) = pci_read_u32 io (df_bus df) (df_device df) (df_function df) 0x3C w;
               w \<leftarrow> route_pci_interrupt apic p (ucast (pci_reg AND 0xff)) VIRTIO_NET_VECTOR w;
               Some (Some (), up, w) }
           | (Inl _, up, w) \<Rightarrow> Some (None, up, w))))"

definition init_virtio_net_pci ::
  "'w port_io \<Rightarrow> 'w apic_ext \<Rightarrow> platform \<Rightarrow> ('w, 't, 'i, 'e) dev_ext \<Rightarrow> bool \<times> 'w
     \<Rightarrow> (bool \<times> bool \<times> 'w) option" where
  "init_virtio_net_pci io apic p ext s =
     (if fst s then Some (True, s)
      else do {
        (r, s) \<leftarrow> probe_functions (probe_net io apic p ext) pci_functions s;
        Some (r = Some (), s) })"

definition init_rng_from_df ::
  "('w, 't, 'i, 'e) dev_ext \<Rightarrow> device_function \<Rightarrow> bool \<times> 'w
     \<Rightarrow> (('i, 'e) device_err + unit) \<times> bool \<times> 'w" where
  "init_rng_from_df ext df = (\<lambda>(up, w).
     (case transport_new ext df w of
        (Inr transport, w) \<Rightarrow>
          (case rng_new ext transport w of
             (Inr _, w) \<Rightarrow> (Inr (), True, rng_enable_interrupts ext w)
           | (Inl err, w) \<Rightarrow> (Inl (FailedInit err), up, w))
      | (Inl err, w) \<Rightarrow> (Inl (VirtioError err), up, w)))"

definition probe_rng ::
  "'w port_io \<Rightarrow> ('w, 't, 'i, 'e) dev_ext \<Rightarrow> device_function
     \<Rightarrow> bool \<times> 'w \<Rightarrow> (unit option \<times> bool \<times> 'w) option" where
  "probe_rng io ext df = (\<lambda>(up, w).
     (let (ty, w) = virtio_type_at io (device_type_of ext) (df_bus df) (df_device df) (df_function df) w
      in if ty \<noteq> Some DeviceEntropySource then Some (None, up, w)
         else (case init_rng_from_df ext df (up, w) of
             (Inr _, s) \<Rightarrow> Some (Some (), s)
           | (Inl _, s) \<Rightarrow> Some (None, s))))"

definition init_virtio_rng ::
  "'w port_io \<Rightarrow> ('w, 't, 'i, 'e) dev_ext \<Rightarrow> bool \<times> 'w \<Rightarrow> (bool \<times> bool \<times> 'w) option" where
  "init_virtio_rng io ext s =
     (if fst s then Some (True, s)
      else do {
        (r, s) \<leftarrow> probe_functions (probe_rng io ext) pci_functions s;
        Some (r = Some (), s) })"

definition init_entropy ::
  "'w port_io \<Rightarrow> ('w, 't, 'i, 'e) dev_ext \<Rightarrow> ('w, 'c) rng_ext \<Rightarrow> 'c rng_state \<Rightarrow> 'w
     \<Rightarrow> (entropy_mode \<times> 'c rng_state \<times> 'w) option" where
  "init_entropy io dev ext st w = do {
     (_, up, w) \<leftarrow> init_virtio_rng io dev (virtio_rng_up st, w);
     let st = st\<lparr>virtio_rng_up := up\<rparr>;
     let (r, w) = gather_seed ext up w;
     let (st, mode) =
       (case r of
          Some (seed, mode) \<Rightarrow>
            (st\<lparr>rng_csprng := call_once (csprng_new ext seed) (rng_csprng st)\<rparr>, mode)
        | None \<Rightarrow> (st, Insecure));
     let st = st\<lparr>rng_mode := call_once mode (rng_mode st)\<rparr>;
     mode \<leftarrow> rng_mode st;
     Some (mode, st, w) }"

section \<open>Probing\<close>

text \<open>
  What the two walks promise: a round looks at the type of its function, does nothing more
  unless that is the wanted one, and builds a transport for no other function.
\<close>

locale typed_probe =
  fixes io :: "'w port_io" and wanted :: virtio_device
    and body :: "('w, 't, 'i, 'e) dev_ext \<Rightarrow> device_function \<Rightarrow> bool \<times> 'w
      \<Rightarrow> (unit option \<times> bool \<times> 'w) option"
  assumes skips: "fst (virtio_type_at io (device_type_of ext) (df_bus df) (df_device df)
      (df_function df) w) \<noteq> Some wanted
    \<Longrightarrow> body (ext\<lparr>transport_new := f\<rparr>) df (up, w) = body ext df (up, w)"
    and own: "f df = transport_new ext df
    \<Longrightarrow> body (ext\<lparr>transport_new := f\<rparr>) df s = body ext df s"
    and installs: "body ext df s = Some (r, s') \<Longrightarrow> fst s' \<longleftrightarrow> fst s \<or> r \<noteq> None"
begin

lemma walk_touches_wanted:
  assumes "\<forall>df w. df \<in> set dfs
    \<and> fst (virtio_type_at io (device_type_of ext) (df_bus df) (df_device df) (df_function df) w)
        = Some wanted
    \<longrightarrow> f df = transport_new ext df"
  shows "probe_functions (body (ext\<lparr>transport_new := f\<rparr>)) dfs s = probe_functions (body ext) dfs s"
proof (rule probe_functions_cong)
  fix df and s :: "bool \<times> 'w"
  assume df: "df \<in> set dfs"
  obtain up w where s: "s = (up, w)" by fastforce
  show "body (ext\<lparr>transport_new := f\<rparr>) df s = body ext df s"
  proof (cases "f df = transport_new ext df")
    case True
    then show ?thesis by (rule own)
  next
    case False
    then show ?thesis using assms df s by (auto intro!: skips)
  qed
qed

lemma walk_installs:
  "probe_functions (body ext) dfs s = Some (r, s') \<Longrightarrow> fst s' \<longleftrightarrow> fst s \<or> r \<noteq> None"
proof (induction dfs arbitrary: s)
  case (Cons df dfs)
  obtain r1 s1 where b: "body ext df s = Some (r1, s1)"
    using Cons.prems by (cases "body ext df s") auto
  then show ?case using Cons.prems Cons.IH[of s1] installs[OF b] by (cases r1) auto
qed simp

end

lemma fst_let_type:
  "(let (ty, w) = x in g ty w) = g (fst x) (snd x)"
  by (cases x) simp

interpretation net_probe: typed_probe io DeviceNetwork "probe_net io apic p"
proof
  fix ext :: "('a, 'b, 'c, 'd) dev_ext" and df :: device_function and f up w
  assume "fst (virtio_type_at io (device_type_of ext) (df_bus df) (df_device df) (df_function df) w)
    \<noteq> Some DeviceNetwork"
  then show "probe_net io apic p (ext\<lparr>transport_new := f\<rparr>) df (up, w) = probe_net io apic p ext df (up, w)"
    by (simp add: probe_net_def fst_let_type)
next
  fix ext :: "('a, 'b, 'c, 'd) dev_ext" and df :: device_function and f s
  assume "f df = transport_new ext df"
  then have df: "init_net_from_df (ext\<lparr>transport_new := f\<rparr>) df = init_net_from_df ext df"
    by (simp add: init_net_from_df_def fun_eq_iff split: prod.splits sum.splits)
  show "probe_net io apic p (ext\<lparr>transport_new := f\<rparr>) df s = probe_net io apic p ext df s"
    unfolding probe_net_def df by simp
next
  fix ext :: "('a, 'b, 'c, 'd) dev_ext" and df :: device_function and r s s'
  assume "probe_net io apic p ext df s = Some (r, s')"
  then show "fst s' \<longleftrightarrow> fst s \<or> r \<noteq> None"
    by (auto simp: probe_net_def init_net_from_df_def split: prod.splits if_splits sum.splits bind_splits)
qed

interpretation rng_probe: typed_probe io DeviceEntropySource "probe_rng io"
proof
  fix ext :: "('a, 'b, 'c, 'd) dev_ext" and df :: device_function and f up w
  assume "fst (virtio_type_at io (device_type_of ext) (df_bus df) (df_device df) (df_function df) w)
    \<noteq> Some DeviceEntropySource"
  then show "probe_rng io (ext\<lparr>transport_new := f\<rparr>) df (up, w) = probe_rng io ext df (up, w)"
    by (simp add: probe_rng_def fst_let_type)
next
  fix ext :: "('a, 'b, 'c, 'd) dev_ext" and df :: device_function and f s
  assume "f df = transport_new ext df"
  then have df: "init_rng_from_df (ext\<lparr>transport_new := f\<rparr>) df = init_rng_from_df ext df"
    by (simp add: init_rng_from_df_def fun_eq_iff split: prod.splits sum.splits)
  show "probe_rng io (ext\<lparr>transport_new := f\<rparr>) df s = probe_rng io ext df s"
    unfolding probe_rng_def df by simp
next
  fix ext :: "('a, 'b, 'c, 'd) dev_ext" and df :: device_function and r s s'
  assume "probe_rng io ext df s = Some (r, s')"
  then show "fst s' \<longleftrightarrow> fst s \<or> r \<noteq> None"
    by (auto simp: probe_rng_def init_rng_from_df_def split: prod.splits if_splits sum.splits)
qed

section \<open>The network card\<close>

lemma probe_net_routes:
  assumes "probe_net io apic p ext df s = Some (Some (), s')"
  shows "\<exists>w1 w2. fst (virtio_type_at io (device_type_of ext) (df_bus df) (df_device df)
        (df_function df) w1) = Some DeviceNetwork
    \<and> route_pci_interrupt apic p
        (ucast (fst (pci_read_u32 io (df_bus df) (df_device df) (df_function df) 0x3C w2) AND 0xff))
        VIRTIO_NET_VECTOR (snd (pci_read_u32 io (df_bus df) (df_device df) (df_function df) 0x3C w2))
      = Some (snd s')"
proof -
  obtain up w where s: "s = (up, w)" by fastforce
  let ?ty = "virtio_type_at io (device_type_of ext) (df_bus df) (df_device df) (df_function df)"
  have ty: "fst (?ty w) = Some DeviceNetwork"
    using assms by (auto simp: probe_net_def s fst_let_type split: if_splits)
  obtain r up' w' where i: "init_net_from_df ext df (up, snd (?ty w)) = (r, up', w')"
    by (metis prod_cases3)
  let ?read = "pci_read_u32 io (df_bus df) (df_device df) (df_function df) 0x3C w'"
  have "route_pci_interrupt apic p (ucast (fst ?read AND 0xff)) VIRTIO_NET_VECTOR (snd ?read)
      = Some (snd s')"
    using assms by (cases r) (auto simp: probe_net_def s fst_let_type ty i split: bind_splits)
  then show ?thesis using ty by blast
qed

lemma route_pci_interrupt_first:
  assumes "route_pci_interrupt apic p gsi vector w = Some w'"
  shows "\<exists>info as off. io_apics p = Some (info # as) \<and> mem_offset p = Some off
    \<and> w' = ioapic_enable_irq apic (ucast (phys_addr info) + off) (gsi - ucast (gsi_base info))
        (ioapic_set_entry apic (ucast (phys_addr info) + off) (gsi - ucast (gsi_base info))
           \<lparr> rte_vector = vector, rte_dest = 0, rte_level_low = True \<rparr> w)"
proof -
  obtain as off where a: "io_apics p = Some as" "mem_offset p = Some off" "0 < length as"
    using assms by (auto simp: route_pci_interrupt_def slice_get_def split: bind_splits if_splits)
  then obtain info as' where "as = info # as'" by (cases as) auto
  then show ?thesis
    using assms a
    by (auto simp: route_pci_interrupt_def slice_get_def add_chk_def sub_chk_def Let_def
        split: if_splits)
qed

lemma probe_functions_last:
  "probe_functions body dfs s = Some (Some v, s')
     \<Longrightarrow> \<exists>df s1. df \<in> set dfs \<and> body df s1 = Some (Some v, s')"
proof (induction dfs arbitrary: s)
  case (Cons df dfs)
  obtain r1 s1 where "body df s = Some (r1, s1)" using Cons.prems by (cases "body df s") auto
  then show ?case using Cons.prems Cons.IH[of s1] by (cases r1) auto
qed simp

section \<open>Entropy\<close>

lemma probe_rng_total: "\<exists>r s'. probe_rng io ext df s = Some (r, s')"
  by (auto simp: probe_rng_def split: prod.splits sum.splits)

lemma probe_total:
  assumes "\<And>df s. \<exists>r s'. body df s = Some (r, s')"
  shows "\<exists>r s'. probe_functions body dfs s = Some (r, s')"
proof (induction dfs arbitrary: s)
  case (Cons df dfs)
  obtain r s' where "body df s = Some (r, s')" using assms by blast
  then show ?case using Cons.IH[of s'] by (cases r) auto
qed simp

lemma init_virtio_rng_total: "\<exists>r up w'. init_virtio_rng io ext s = Some (r, up, w')"
proof (cases "fst s")
  case True
  then have "init_virtio_rng io ext s = Some (True, True, snd s)"
    by (cases s) (simp add: init_virtio_rng_def)
  then show ?thesis by blast
next
  case False
  obtain r s' where "probe_functions (probe_rng io ext) pci_functions s = Some (r, s')"
    using probe_total[of "probe_rng io ext", OF probe_rng_total] by blast
  then have "init_virtio_rng io ext s = Some (r = Some (), fst s', snd s')"
    using False by (simp add: init_virtio_rng_def)
  then show ?thesis by blast
qed

lemma gather_seed_mode:
  assumes "gather_seed ext up w = (Some (seed, mode), w')"
  shows "mode \<noteq> Insecure" and "mode \<in> {Virtio, VirtioAndRdrand} \<Longrightarrow> up"
    and "mode \<in> {Rdrand, VirtioAndRdrand} \<Longrightarrow> cpu_has_rdrand ext"
  using assms
  by (auto simp: gather_seed_def virtio_bytes_def rdrand_bytes_def Let_def
      split: prod.splits if_splits bool.splits)

lemma init_entropy_outcome:
  assumes "rng_csprng st = None" and "rng_mode st = None"
  shows "\<exists>mode st' w'. init_entropy io dev ext st w = Some (mode, st', w')
    \<and> entropy_mode_of st' = mode \<and> rng_ok st'
    \<and> (entropy_is_cryptographic st' \<longleftrightarrow> rng_csprng st' \<noteq> None)
    \<and> (mode \<in> {Virtio, VirtioAndRdrand} \<longrightarrow> virtio_rng_up st')
    \<and> (mode \<in> {Rdrand, VirtioAndRdrand} \<longrightarrow> cpu_has_rdrand ext)"
proof -
  obtain r up w1 where i: "init_virtio_rng io dev (virtio_rng_up st, w) = Some (r, up, w1)"
    using init_virtio_rng_total[of io dev] by blast
  show ?thesis
  proof (cases "gather_seed ext up w1")
    case (Pair g w2)
    show ?thesis
    proof (cases g)
      case None
      then show ?thesis
        using assms i Pair
        by (simp add: init_entropy_def call_once_def entropy_mode_of_def rng_ok_def
            entropy_is_cryptographic_def)
    next
      case (Some sm)
      then obtain seed mode where "gather_seed ext up w1 = (Some (seed, mode), w2)"
        using Pair by (cases sm) simp
      with gather_seed_mode[OF this] show ?thesis
        using assms i
        by (simp add: init_entropy_def call_once_def entropy_mode_of_def rng_ok_def
            entropy_is_cryptographic_def csprng_ok_new)
    qed
  qed
qed

section \<open>Properties\<close>

text \<open>C39: probing cannot disturb another device. Bringing up the network card, or the entropy
  source, gives the same result whatever building a transport would do to a function that is
  not a device of the wanted type: no transport is ever built for one.\<close>

theorem probing_leaves_others_alone:
  assumes "\<forall>df w. df_valid df \<and> fst (virtio_type_at io (device_type_of ext) (df_bus df) (df_device df)
      (df_function df) w) = Some DeviceNetwork \<longrightarrow> f df = transport_new ext df"
    and "\<forall>df w. df_valid df \<and> fst (virtio_type_at io (device_type_of ext) (df_bus df) (df_device df)
      (df_function df) w) = Some DeviceEntropySource \<longrightarrow> g df = transport_new ext df"
  shows "init_virtio_net_pci io apic p (ext\<lparr>transport_new := f\<rparr>) s = init_virtio_net_pci io apic p ext s
    \<and> init_virtio_rng io (ext\<lparr>transport_new := g\<rparr>) s = init_virtio_rng io ext s"
  using net_probe.walk_touches_wanted[of pci_functions io ext f apic p s]
    rng_probe.walk_touches_wanted[of pci_functions io ext g s] assms
  by (simp add: init_virtio_net_pci_def init_virtio_rng_def pci_functions_set)

text \<open>A network card that is reported up is installed, and its interrupt - the line that
  its configuration space names - is routed to the network vector, level triggered and active
  low, on the first I/O APIC. When none is reported the driver is left unset.\<close>

theorem net_card_routed:
  assumes "init_virtio_net_pci io apic p ext (False, w) = Some (up, s')"
  shows "fst s' = up
    \<and> (up \<longrightarrow> (\<exists>df w1 w2 info as off.
         df_valid df \<and> io_apics p = Some (info # as) \<and> mem_offset p = Some off
       \<and> fst (virtio_type_at io (device_type_of ext) (df_bus df) (df_device df) (df_function df) w1)
           = Some DeviceNetwork
       \<and> (let (line, w) = pci_read_u32 io (df_bus df) (df_device df) (df_function df) 0x3C w2;
              addr = ucast (phys_addr info) + off; idx = ucast (line AND 0xff) - ucast (gsi_base info)
          in snd s' = ioapic_enable_irq apic addr idx (ioapic_set_entry apic addr idx
               \<lparr> rte_vector = 0x60, rte_dest = 0, rte_level_low = True \<rparr> w))))"
proof -
  obtain r where r: "probe_functions (probe_net io apic p ext) pci_functions (False, w) = Some (r, s')"
    "up = (r = Some ())"
    using assms by (auto simp: init_virtio_net_pci_def split: bind_splits)
  have "fst s' = up" using net_probe.walk_installs[OF r(1)] r(2) by simp
  moreover have "\<exists>df s1. df_valid df \<and> probe_net io apic p ext df s1 = Some (Some (), s')" if up
    using probe_functions_last[of _ _ _ "()" s'] r that by (metis pci_functions_set)
  moreover have "\<exists>w1 w2 info as off. io_apics p = Some (info # as) \<and> mem_offset p = Some off
      \<and> fst (virtio_type_at io (device_type_of ext) (df_bus df) (df_device df) (df_function df) w1)
          = Some DeviceNetwork
      \<and> (let (line, w) = pci_read_u32 io (df_bus df) (df_device df) (df_function df) 0x3C w2;
              addr = ucast (phys_addr info) + off; idx = ucast (line AND 0xff) - ucast (gsi_base info)
          in snd s' = ioapic_enable_irq apic addr idx (ioapic_set_entry apic addr idx
               \<lparr> rte_vector = 0x60, rte_dest = 0, rte_level_low = True \<rparr> w))"
    if r: "probe_net io apic p ext df s1 = Some (Some (), s')" for df s1
  proof -
    obtain w1 w2 where ty: "fst (virtio_type_at io (device_type_of ext) (df_bus df) (df_device df)
        (df_function df) w1) = Some DeviceNetwork"
      and w2: "route_pci_interrupt apic p
        (ucast (fst (pci_read_u32 io (df_bus df) (df_device df) (df_function df) 0x3C w2) AND 0xff))
        VIRTIO_NET_VECTOR (snd (pci_read_u32 io (df_bus df) (df_device df) (df_function df) 0x3C w2))
      = Some (snd s')"
      using probe_net_routes[OF r] by blast
    from route_pci_interrupt_first[OF w2] ty show ?thesis
      unfolding fst_let_type Let_def VIRTIO_NET_VECTOR_def split_def by blast
  qed
  ultimately show ?thesis by blast
qed

text \<open>C38: the reported entropy mode is truthful. Bringing up the entropy hardware never panics,
  and \<open>entropy_is_cryptographic\<close> answers true afterwards exactly when the seeded generator is
  what \<open>get_random\<close> draws from. A mode that names a source is reported only when the device
  came up, or the processor has the instruction.\<close>

theorem entropy_mode_truthful:
  assumes "rng_csprng st = None" and "rng_mode st = None"
  shows "\<exists>mode st' w'. init_entropy io dev ext st w = Some (mode, st', w')
    \<and> entropy_mode_of st' = mode \<and> rng_ok st'
    \<and> (entropy_is_cryptographic st' \<longleftrightarrow> rng_csprng st' \<noteq> None)
    \<and> (mode \<in> {Virtio, VirtioAndRdrand} \<longrightarrow> virtio_rng_up st')
    \<and> (mode \<in> {Rdrand, VirtioAndRdrand} \<longrightarrow> cpu_has_rdrand ext)"
  by (rule init_entropy_outcome[OF assms])

section \<open>A machine with one device\<close>

text \<open>The world is the configuration address; there is a network card at \<open>00:00.0\<close>.\<close>

definition one_card_ports :: "u32 port_io" where
  "one_card_ports = \<lparr> out8 = \<lambda>_ _ w. w, out16 = \<lambda>_ _ w. w,
     out32 = \<lambda>port v w. if port = 0xCF8 then v else w, in8 = \<lambda>_ w. (0, w), in16 = \<lambda>_ w. (0, w),
     in32 = \<lambda>_ w. (if w = 0x80000000 then 0x10411AF4 else 0, w) \<rparr>"

definition one_card :: "(u32, unit, unit, unit) dev_ext" where
  "one_card = \<lparr> device_type_of = \<lambda>i. if vendor_id i = 0x1AF4 then Some DeviceNetwork else None,
     transport_new = \<lambda>_ w. (Inr (), w), net_new = \<lambda>_ _ w. (Inr (), w), net_enable_interrupts = \<lambda>w. w,
     rng_new = \<lambda>_ w. (Inr (), w), rng_enable_interrupts = \<lambda>w. w \<rparr>"

definition quiet_apic :: "u32 apic_ext" where
  "quiet_apic = \<lparr> msr_read = \<lambda>_ w. (0, w), msr_write = \<lambda>_ _ w. w, pics_disable = \<lambda>_ _ w. w,
     mmio_read = \<lambda>_ w. (0, w), mmio_write = \<lambda>_ _ w. w, ioapic_init = \<lambda>_ _ w. w,
     ioapic_set_entry = \<lambda>_ i e _. ucast i + push_bit 8 (ucast (rte_vector e)),
     ioapic_enable_irq = \<lambda>_ _ w. w \<rparr>"

lemma pci_functions_first:
  "\<exists>dfs. pci_functions = \<lparr> df_bus = 0, df_device = 0, df_function = 0 \<rparr> # dfs"
  by (simp add: pci_functions_def upt_conv_Cons[of 0])

text \<open>
  A machine with a VirtIO disk at \<open>00:00.0\<close>, an entropy source at \<open>00:00.1\<close> and a network card
  at \<open>00:00.2\<close>, in the order a walk meets them. Its world is the configuration address and
  the functions that a transport has been built for.
\<close>

definition first_bus :: "u8 \<Rightarrow> device_function" where
  "first_bus f = \<lparr> df_bus = 0, df_device = 0, df_function = f \<rparr>"

definition three_cards_id :: "u32 \<Rightarrow> u32" where
  "three_cards_id a = (if a = 0x80000000 then 0x10421AF4 else if a = 0x80000100 then 0x10441AF4
     else if a = 0x80000200 then 0x10411AF4 else 0)"

definition three_cards_ports :: "(u32 \<times> device_function list) port_io" where
  "three_cards_ports = \<lparr> out8 = \<lambda>_ _ w. w, out16 = \<lambda>_ _ w. w,
     out32 = \<lambda>port v (a, built). (if port = 0xCF8 then v else a, built),
     in8 = \<lambda>_ w. (0, w), in16 = \<lambda>_ w. (0, w),
     in32 = \<lambda>_ (a, built). (three_cards_id a, a, built) \<rparr>"

definition three_cards :: "(u32 \<times> device_function list, unit, unit, unit) dev_ext" where
  "three_cards = \<lparr> device_type_of = \<lambda>i. if vendor_id i \<noteq> 0x1AF4 then None
       else Some (if device_id i = 0x1041 then DeviceNetwork
         else if device_id i = 0x1044 then DeviceEntropySource else DeviceOther 2),
     transport_new = \<lambda>df (a, built). (Inr (), a, built @ [df]),
     net_new = \<lambda>_ _ w. (Inr (), w), net_enable_interrupts = \<lambda>w. w,
     rng_new = \<lambda>_ w. (Inr (), w), rng_enable_interrupts = \<lambda>w. w \<rparr>"

definition three_cards_apic :: "(u32 \<times> device_function list) apic_ext" where
  "three_cards_apic = \<lparr> msr_read = \<lambda>_ w. (0, w), msr_write = \<lambda>_ _ w. w, pics_disable = \<lambda>_ _ w. w,
     mmio_read = \<lambda>_ w. (0, w), mmio_write = \<lambda>_ _ w. w, ioapic_init = \<lambda>_ _ w. w,
     ioapic_set_entry = \<lambda>_ _ _ w. w, ioapic_enable_irq = \<lambda>_ _ w. w \<rparr>"

text \<open>Building a transport fails, and forgets the others, on every function but one.\<close>

definition only_for ::
  "device_function \<Rightarrow> device_function \<Rightarrow> u32 \<times> device_function list
     \<Rightarrow> (unit + unit) \<times> u32 \<times> device_function list" where
  "only_for own df w = (if df = own then transport_new three_cards df w else (Inl (), 0, []))"

lemma pci_functions_first3:
  "\<exists>dfs. pci_functions = first_bus 0 # first_bus 1 # first_bus 2 # dfs"
  by (simp add: pci_functions_def first_bus_def upt_conv_Cons[of 0]
      upt_conv_Cons[of "Suc 0"] upt_conv_Cons[of "Suc (Suc 0)"])

lemma three_cards_read:
  "pci_read_u32 three_cards_ports b d f p w
     = (three_cards_id (pci_config_address b d f p), pci_config_address b d f p, snd w)"
  by (cases w) (simp add: pci_read_u32_def three_cards_ports_def Let_def)

lemma three_cards_type_at:
  "fst (virtio_type_at three_cards_ports (device_type_of three_cards) b d f w)
     = (let a = pci_config_address b d f 0 in
        if a = 0x80000000 then Some (DeviceOther 2) else if a = 0x80000100 then Some DeviceEntropySource
        else if a = 0x80000200 then Some DeviceNetwork else None)"
  unfolding virtio_type_at_def three_cards_read prod.case Let_def fst_conv three_cards_def dev_ext.simps
    device_function_info.simps
  by (simp add: three_cards_id_def)

lemma if_chain_Some:
  "(if a = x then Some p else if a = y then Some q else if a = z then Some r else None) = Some t
     \<Longrightarrow> a = x \<and> p = t \<or> a = y \<and> q = t \<or> a = z \<and> r = t"
  by (simp split: if_splits)

lemma three_cards_type:
  assumes "df_valid df" and "fst (virtio_type_at three_cards_ports (device_type_of three_cards)
    (df_bus df) (df_device df) (df_function df) w) = Some ty"
  shows "ty = DeviceEntropySource \<Longrightarrow> df = first_bus 1" and "ty = DeviceNetwork \<Longrightarrow> df = first_bus 2"
proof -
  let ?a = "pci_config_address (df_bus df) (df_device df) (df_function df) 0"
  have a: "?a = 0x80000000 \<and> DeviceOther 2 = ty \<or> ?a = 0x80000100 \<and> DeviceEntropySource = ty
      \<or> ?a = 0x80000200 \<and> DeviceNetwork = ty"
    by (rule if_chain_Some) (rule assms(2)[unfolded three_cards_type_at Let_def])
  have eq: "df = first_bus f" if "unat ?a = 2 ^ 31 + 256 * unat f" "unat f < 8" for f
  proof -
    have "256 * (256 * unat (df_bus df) + 8 * unat (df_device df) + unat (df_function df)) = 256 * unat f"
      using that(1) config_address_digits[OF assms(1), of 0] by simp
    then have "256 * unat (df_bus df) + 8 * unat (df_device df) + unat (df_function df) = unat f" by simp
    then have "unat (df_bus df) = 0 \<and> unat (df_device df) = 0 \<and> unat (df_function df) = unat f"
      using that(2) by presburger
    then have "df_bus df = 0" "df_device df = 0" "df_function df = f"
      by (auto intro!: word_unat_eq_iff[THEN iffD2])
    then show ?thesis by (cases df) (simp add: first_bus_def)
  qed
  show "df = first_bus 1" if "ty = DeviceEntropySource"
    by (rule eq) (use a that in auto)
  show "df = first_bus 2" if "ty = DeviceNetwork"
    by (rule eq) (use a that in auto)
qed

lemma three_cards_addresses:
  "pci_config_address 0 0 0 0 = 0x80000000" "pci_config_address 0 0 0 8 = 0x80000008"
  "pci_config_address 0 0 0 12 = 0x8000000C" "pci_config_address 0 0 1 0 = 0x80000100"
  "pci_config_address 0 0 1 8 = 0x80000108" "pci_config_address 0 0 1 12 = 0x8000010C"
  "pci_config_address 0 0 2 0 = 0x80000200" "pci_config_address 0 0 2 8 = 0x80000208"
  "pci_config_address 0 0 2 12 = 0x8000020C" "pci_config_address 0 0 2 60 = 0x8000023C"
  by (simp_all add: pci_config_address_def)

lemma three_cards_types:
  "virtio_type_at three_cards_ports (device_type_of three_cards) 0 0 0 (a, built)
     = (Some (DeviceOther 2), 0x8000000C, built)"
  "virtio_type_at three_cards_ports (device_type_of three_cards) 0 0 1 (a, built)
     = (Some DeviceEntropySource, 0x8000010C, built)"
  "virtio_type_at three_cards_ports (device_type_of three_cards) 0 0 2 (a, built)
     = (Some DeviceNetwork, 0x8000020C, built)"
  by (simp_all add: virtio_type_at_def three_cards_read three_cards_addresses three_cards_id_def
      three_cards_def)

lemma three_cards_net:
  assumes "p = fresh_platform\<lparr>io_apics := Some [\<lparr> ioapic_id = 0, phys_addr = 0xFEC00000, gsi_base = 0 \<rparr>]\<rparr>"
  shows "init_virtio_net_pci three_cards_ports three_cards_apic p three_cards (False, 0, [])
    = Some (True, True, 0x8000023C, [first_bus 2])"
proof -
  let ?probe = "probe_net three_cards_ports three_cards_apic p three_cards"
  obtain dfs where p: "pci_functions = first_bus 0 # first_bus 1 # first_bus 2 # dfs"
    using pci_functions_first3 by blast
  have "?probe (first_bus 0) (False, 0, []) = Some (None, False, 0x8000000C, [])"
    and "?probe (first_bus 1) (False, 0x8000000C, []) = Some (None, False, 0x8000010C, [])"
    by (simp_all add: probe_net_def first_bus_def three_cards_types)
  moreover have i: "init_net_from_df three_cards (first_bus 2) (False, 0x8000020C, [])
      = (Inr (), True, 0x8000020C, [first_bus 2])"
    by (simp add: init_net_from_df_def three_cards_def)
  have "?probe (first_bus 2) (False, 0x8000010C, []) = Some (Some (), True, 0x8000023C, [first_bus 2])"
    using i by (simp add: probe_net_def first_bus_def three_cards_types three_cards_read
        three_cards_addresses three_cards_id_def three_cards_apic_def route_pci_interrupt_def
        fresh_platform_def slice_get_def add_chk_def sub_chk_def assms)
  ultimately show ?thesis by (simp add: init_virtio_net_pci_def p)
qed

lemma three_cards_rng:
  "init_virtio_rng three_cards_ports three_cards (False, 0, []) = Some (True, True, 0x8000010C, [first_bus 1])"
proof -
  let ?probe = "probe_rng three_cards_ports three_cards"
  obtain dfs where p: "pci_functions = first_bus 0 # first_bus 1 # first_bus 2 # dfs"
    using pci_functions_first3 by blast
  have "?probe (first_bus 0) (False, 0, []) = Some (None, False, 0x8000000C, [])"
    by (simp add: probe_rng_def first_bus_def three_cards_types)
  moreover have i: "init_rng_from_df three_cards (first_bus 1) (False, 0x8000010C, [])
      = (Inr (), True, 0x8000010C, [first_bus 1])"
    by (simp add: init_rng_from_df_def three_cards_def)
  have "?probe (first_bus 1) (False, 0x8000000C, []) = Some (Some (), True, 0x8000010C, [first_bus 1])"
    using i by (simp add: probe_rng_def first_bus_def three_cards_types)
  ultimately show ?thesis by (simp add: init_virtio_rng_def p)
qed

theorem probing_leaves_others_alone_witness:
  "init_virtio_net_pci three_cards_ports three_cards_apic
     (fresh_platform\<lparr>io_apics := Some [\<lparr> ioapic_id = 0, phys_addr = 0xFEC00000, gsi_base = 0 \<rparr>]\<rparr>)
     (three_cards\<lparr>transport_new := only_for (first_bus 2)\<rparr>) (False, 0, [])
       = Some (True, True, 0x8000023C, [first_bus 2])
   \<and> init_virtio_rng three_cards_ports (three_cards\<lparr>transport_new := only_for (first_bus 1)\<rparr>) (False, 0, [])
       = Some (True, True, 0x8000010C, [first_bus 1])"
proof -
  have n: "\<forall>df w. df_valid df \<and> fst (virtio_type_at three_cards_ports (device_type_of three_cards)
      (df_bus df) (df_device df) (df_function df) w) = Some DeviceNetwork
      \<longrightarrow> only_for (first_bus 2) df = transport_new three_cards df"
    and r: "\<forall>df w. df_valid df \<and> fst (virtio_type_at three_cards_ports (device_type_of three_cards)
      (df_bus df) (df_device df) (df_function df) w) = Some DeviceEntropySource
      \<longrightarrow> only_for (first_bus 1) df = transport_new three_cards df"
    using three_cards_type by (auto simp: only_for_def fun_eq_iff)
  show ?thesis
    using probing_leaves_others_alone[OF n r] three_cards_net[OF refl] three_cards_rng by metis
qed

lemma one_card_up:
  "init_virtio_net_pci one_card_ports quiet_apic
     (fresh_platform\<lparr>io_apics := Some [\<lparr> ioapic_id = 0, phys_addr = 0xFEC00000, gsi_base = 0 \<rparr>]\<rparr>)
     one_card (False, 0) = Some (True, True, 0x6000)"
proof -
  obtain dfs where p: "pci_functions = \<lparr> df_bus = 0, df_device = 0, df_function = 0 \<rparr> # dfs"
    using pci_functions_first by blast
  have a: "pci_config_address 0 0 0 0 = 0x80000000" "pci_config_address 0 0 0 8 = 0x80000008"
    "pci_config_address 0 0 0 12 = 0x8000000C" "pci_config_address 0 0 0 60 = 0x8000003C"
    by (simp_all add: pci_config_address_def)
  have "probe_net one_card_ports quiet_apic
     (fresh_platform\<lparr>io_apics := Some [\<lparr> ioapic_id = 0, phys_addr = 0xFEC00000, gsi_base = 0 \<rparr>]\<rparr>)
     one_card \<lparr> df_bus = 0, df_device = 0, df_function = 0 \<rparr> (False, 0) = Some (Some (), True, 0x6000)"
    by (simp add: probe_net_def virtio_type_at_def pci_read_u32_def one_card_ports_def one_card_def
        init_net_from_df_def route_pci_interrupt_def fresh_platform_def quiet_apic_def a slice_get_def
        add_chk_def sub_chk_def VIRTIO_NET_VECTOR_def)
  then show ?thesis by (simp add: init_virtio_net_pci_def p)
qed

theorem net_card_routed_witness:
  "\<exists>w. init_virtio_net_pci one_card_ports quiet_apic
     (fresh_platform\<lparr>io_apics := Some [\<lparr> ioapic_id = 0, phys_addr = 0xFEC00000, gsi_base = 0 \<rparr>]\<rparr>)
     one_card (False, 0) = Some (True, True, ioapic_enable_irq quiet_apic 0xFEC01000 0
       (ioapic_set_entry quiet_apic 0xFEC01000 0
          \<lparr> rte_vector = 0x60, rte_dest = 0, rte_level_low = True \<rparr> w))"
  using net_card_routed[OF one_card_up] one_card_up
  by (simp add: quiet_apic_def fresh_platform_def split: prod.splits)

theorem entropy_mode_truthful_witness:
  "\<exists>st' w'. init_entropy one_card_ports one_card
      \<lparr> request_entropy = \<lambda>w. ((Some 32, replicate 32 7), w), cpu_has_rdrand = False,
        rdrand64_step = \<lambda>w. ((False, 0), w), rdtsc = \<lambda>w. (0, w),
        chacha_from_seed = id, chacha_fill_bytes = \<lambda>n c. (take n (c @ replicate n 0), c) \<rparr>
      \<lparr> virtio_rng_up = True, rng_csprng = None, rng_mode = None, rng_fallback = 0 \<rparr> 0
    = Some (Virtio, st', w') \<and> entropy_is_cryptographic st' \<and> rng_csprng st' \<noteq> None"
proof -
  let ?ext = "\<lparr> request_entropy = \<lambda>w :: u32. ((Some 32, replicate 32 7), w), cpu_has_rdrand = False,
        rdrand64_step = \<lambda>w. ((False, 0), w), rdtsc = \<lambda>w. (0, w),
        chacha_from_seed = id, chacha_fill_bytes = \<lambda>n c. (take n (c @ replicate n 0), c) \<rparr>"
  let ?st = "\<lparr> virtio_rng_up = True, rng_csprng = None, rng_mode = None, rng_fallback = 0 \<rparr>"
  have m: "fst (the (init_entropy one_card_ports one_card ?ext ?st 0)) = Virtio"
    by (simp add: init_entropy_def init_virtio_rng_def gather_seed_def virtio_bytes_def
        rdrand_bytes_def call_once_def Let_def)
  obtain mode st' w' where i: "init_entropy one_card_ports one_card ?ext ?st 0 = Some (mode, st', w')"
    and "entropy_mode_of st' = mode" and "entropy_is_cryptographic st' \<longleftrightarrow> rng_csprng st' \<noteq> None"
    using entropy_mode_truthful[of ?st one_card_ports one_card ?ext 0] by auto
  then show ?thesis using m by (auto simp: entropy_is_cryptographic_def)
qed

end
