(* ===== verification/Page_Allocator.thy ===== *)
theory Page_Allocator
  imports Prelude "HOL-Library.Disjoint_Sets"
begin

text \<open>
  The physical page allocator (\<open>kernel/src/allocation/ppa.rs\<close>), the kernel heap it backs
  (\<open>allocator.rs\<close>) and the DMA memory the VirtIO drivers take from it (\<open>virtio.rs\<close>).
  Addresses are \<^typ>\<open>nat\<close>: physical addresses have 52 bits, so the products and sums of the
  allocator stay below 64. The address constructors of the x86-64 crate, which panic on an
  address of the wrong form, are parameters.
\<close>

section \<open>The allocator\<close>

definition PAGE_SIZE :: nat where "PAGE_SIZE = 4096"

record addr_ext =
  phys_new :: "nat \<Rightarrow> nat option"
  virt_new :: "nat \<Rightarrow> nat option"

record region =
  usable :: bool
  start_addr :: nat
  end_addr :: nat

record page_allocator =
  bitmap :: bytes
  num_frames :: nat

definition div_ceil :: "nat \<Rightarrow> nat \<Rightarrow> nat" where
  "div_ceil a b = (a + b - 1) div b"

definition set_bit_at :: "nat \<Rightarrow> bool \<Rightarrow> page_allocator \<Rightarrow> page_allocator option" where
  "set_bit_at frame used a = do {
     let byte = frame div 8;
     let bit = frame mod 8;
     old \<leftarrow> slice_get byte (bitmap a);
     bm \<leftarrow> slice_set byte (if used then old OR push_bit bit 1 else old AND NOT (push_bit bit 1))
             (bitmap a);
     Some (a\<lparr>bitmap := bm\<rparr>) }"

definition set_used :: "nat \<Rightarrow> page_allocator \<Rightarrow> page_allocator option" where
  "set_used page = set_bit_at page True"

definition set_unused :: "nat \<Rightarrow> page_allocator \<Rightarrow> page_allocator option" where
  "set_unused page = set_bit_at page False"

text \<open>A \<open>for\<close> loop over page numbers whose body may panic.\<close>

fun for_pages :: "(nat \<Rightarrow> 's \<Rightarrow> 's option) \<Rightarrow> nat list \<Rightarrow> 's \<Rightarrow> 's option" where
  "for_pages f [] s = Some s"
| "for_pages f (p # ps) s = do { s \<leftarrow> f p s; for_pages f ps s }"

definition mark_region_free :: "nat \<Rightarrow> nat \<Rightarrow> page_allocator \<Rightarrow> page_allocator option" where
  "mark_region_free first_addr last_addr =
     for_pages (\<lambda>frame. set_bit_at frame False)
       [first_addr div PAGE_SIZE..<div_ceil last_addr PAGE_SIZE]"

definition mark_region_used :: "nat \<Rightarrow> nat \<Rightarrow> page_allocator \<Rightarrow> page_allocator option" where
  "mark_region_used first_addr last_addr =
     for_pages set_used [first_addr div PAGE_SIZE..<div_ceil last_addr PAGE_SIZE]"

definition is_free :: "page_allocator \<Rightarrow> nat \<Rightarrow> bool option" where
  "is_free a page = do {
     byte \<leftarrow> slice_get (page div 8) (bitmap a);
     Some ((byte AND push_bit (page mod 8) 1) = 0) }"

fun find_run :: "page_allocator \<Rightarrow> nat \<Rightarrow> nat list \<Rightarrow> nat \<Rightarrow> nat \<Rightarrow> nat option option" where
  "find_run a count [] run_start run_length = Some None"
| "find_run a count (page # pages) run_start run_length = do {
     free \<leftarrow> is_free a page;
     if free then
       (let run_start = (if run_length = 0 then page else run_start);
            run_length = run_length + 1
        in if run_length = count then Some (Some run_start)
           else find_run a count pages run_start run_length)
     else find_run a count pages run_start 0 }"

definition find_contiguous_pages :: "page_allocator \<Rightarrow> nat \<Rightarrow> nat option option" where
  "find_contiguous_pages a count =
     (if count = 0 then Some None else find_run a count [0..<num_frames a] 0 0)"

definition alloc_contiguous_pages ::
  "addr_ext \<Rightarrow> nat \<Rightarrow> page_allocator \<Rightarrow> (nat option \<times> page_allocator) option" where
  "alloc_contiguous_pages ext count a = do {
     found \<leftarrow> find_contiguous_pages a count;
     case found of
       None \<Rightarrow> Some (None, a)
     | Some start \<Rightarrow> do {
         a \<leftarrow> for_pages set_used [start..<start + count] a;
         addr \<leftarrow> phys_new ext (start * 4096);
         Some (Some addr, a) } }"

definition dealloc_contiguous_pages ::
  "nat \<Rightarrow> nat \<Rightarrow> page_allocator \<Rightarrow> page_allocator option" where
  "dealloc_contiguous_pages paddr count a =
     for_pages set_unused [paddr div 4096..<paddr div 4096 + count] a"

text \<open>Construction from the boot loader's memory map.\<close>

fun max_end :: "region list \<Rightarrow> nat option" where
  "max_end [] = None"
| "max_end [r] = Some (end_addr r)"
| "max_end (r # rs) = map_option (max (end_addr r)) (max_end rs)"

fun find_bitmap_region :: "nat \<Rightarrow> region list \<Rightarrow> region option option" where
  "find_bitmap_region need [] = Some None"
| "find_bitmap_region need (r # rs) =
     (if usable r then
        (if end_addr r < start_addr r then None
         else if end_addr r - start_addr r \<ge> need then Some (Some r)
         else find_bitmap_region need rs)
      else find_bitmap_region need rs)"

fun free_usable :: "region list \<Rightarrow> page_allocator \<Rightarrow> page_allocator option" where
  "free_usable [] a = Some a"
| "free_usable (r # rs) a = do {
     a \<leftarrow> (if usable r then mark_region_free (start_addr r) (end_addr r) a else Some a);
     free_usable rs a }"

text \<open>The sum of two \<open>u64\<close>, which panics when it overflows.\<close>

definition u64_add :: "nat \<Rightarrow> nat \<Rightarrow> nat option" where
  "u64_add a b = (if a + b < 2 ^ 64 then Some (a + b) else None)"

definition ppa_new :: "addr_ext \<Rightarrow> region list \<Rightarrow> nat \<Rightarrow> page_allocator option" where
  "ppa_new ext memory_map physical_memory_offset = do {
     max_phys \<leftarrow> max_end memory_map;
     let frames = div_ceil max_phys PAGE_SIZE;
     let bitmap_bytes = div_ceil frames 8;
     let bitmap_pages = div_ceil bitmap_bytes PAGE_SIZE;
     found \<leftarrow> find_bitmap_region (bitmap_pages * PAGE_SIZE) memory_map;
     r \<leftarrow> found;
     bitmap_phys \<leftarrow> phys_new ext (start_addr r);
     bitmap_addr \<leftarrow> u64_add physical_memory_offset bitmap_phys;
     _ \<leftarrow> virt_new ext bitmap_addr;
     let allocator = \<lparr> bitmap = replicate bitmap_bytes 0xFF, num_frames = frames \<rparr>;
     allocator \<leftarrow> free_usable memory_map allocator;
     mark_region_used bitmap_phys (bitmap_phys + bitmap_pages * PAGE_SIZE) allocator }"

section \<open>The heap and DMA memory\<close>

text \<open>
  The statics \<open>PMM\<close> and \<open>OFFSET\<close>, the heap handed to \<open>LockedHeap::init\<close>, and memory by virtual
  address.
\<close>

record kernel_memory =
  pmm :: "page_allocator option"
  phys_offset :: "nat option"
  heap :: "(nat \<times> nat) option"
  memory :: "nat \<Rightarrow> u8"

definition write_bytes :: "nat \<Rightarrow> u8 \<Rightarrow> nat \<Rightarrow> (nat \<Rightarrow> u8) \<Rightarrow> nat \<Rightarrow> u8" where
  "write_bytes ptr v n m = (\<lambda>x. if ptr \<le> x \<and> x < ptr + n then v else m x)"

definition init_heap :: "addr_ext \<Rightarrow> kernel_memory \<Rightarrow> kernel_memory option" where
  "init_heap ext km = do {
     a \<leftarrow> pmm km;
     (found, a) \<leftarrow> alloc_contiguous_pages ext 4096 a;
     addr \<leftarrow> found;
     off \<leftarrow> phys_offset km;
     vaddr \<leftarrow> u64_add off addr;
     Some (km\<lparr>pmm := Some a, heap := Some (vaddr, 4096 * PAGE_SIZE)\<rparr>) }"

definition dma_alloc :: "addr_ext \<Rightarrow> nat \<Rightarrow> kernel_memory \<Rightarrow> ((nat \<times> nat) \<times> kernel_memory) option" where
  "dma_alloc ext pages km = do {
     a \<leftarrow> pmm km;
     (found, a) \<leftarrow> alloc_contiguous_pages ext pages a;
     addr \<leftarrow> found;
     off \<leftarrow> phys_offset km;
     ptr \<leftarrow> u64_add off addr;
     let km = km\<lparr>pmm := Some a, memory := write_bytes ptr 0 (pages * PAGE_SIZE) (memory km)\<rparr>;
     if ptr = 0 then None else Some ((addr, ptr), km) }"

definition dma_dealloc :: "nat \<Rightarrow> nat \<Rightarrow> kernel_memory \<Rightarrow> (int \<times> kernel_memory) option" where
  "dma_dealloc paddr pages km = do {
     a \<leftarrow> pmm km;
     a \<leftarrow> dealloc_contiguous_pages paddr pages a;
     Some (0, km\<lparr>pmm := Some a\<rparr>) }"

definition mmio_phys_to_virt :: "nat \<Rightarrow> kernel_memory \<Rightarrow> nat option" where
  "mmio_phys_to_virt paddr km = do {
     off \<leftarrow> phys_offset km;
     ptr \<leftarrow> u64_add off paddr;
     if ptr = 0 then None else Some ptr }"

section \<open>Bits of the map\<close>

definition page_free :: "page_allocator \<Rightarrow> nat \<Rightarrow> bool" where
  "page_free a p \<longleftrightarrow> p < 8 * length (bitmap a) \<and> \<not> bit (bitmap a ! (p div 8)) (p mod 8)"

definition ppa_ok :: "page_allocator \<Rightarrow> bool" where
  "ppa_ok a \<longleftrightarrow> num_frames a \<le> 8 * length (bitmap a)"

lemma div_ceil_le_iff: "0 < b \<Longrightarrow> div_ceil a b \<le> n \<longleftrightarrow> a \<le> n * b"
proof -
  assume b: "0 < b"
  have "div_ceil a b \<le> n \<longleftrightarrow> (a + b - 1) div b < Suc n" by (simp add: div_ceil_def less_Suc_eq_le)
  also have "\<dots> \<longleftrightarrow> a + b - 1 < Suc n * b" using b by (rule div_less_iff_less_mult)
  also have "\<dots> \<longleftrightarrow> a \<le> n * b" using b by auto
  finally show ?thesis .
qed

lemma less_div_ceil_iff: "0 < b \<Longrightarrow> n < div_ceil a b \<longleftrightarrow> n * b < a"
  using div_ceil_le_iff[of b a n] by linarith

lemma bit_exp_u8: "bit ((2 :: u8) ^ n) i \<longleftrightarrow> i = n \<and> n < 8"
  by (auto simp: bit_exp_iff)

lemma bit_masked: "n < 8 \<Longrightarrow> (w AND 2 ^ n) = (0 :: u8) \<longleftrightarrow> \<not> bit w n"
proof -
  assume n: "n < 8"
  have "bit (w AND 2 ^ n) i \<longleftrightarrow> bit w n \<and> i = n" for i
    using n by (auto simp: bit_and_iff bit_exp_u8)
  then show ?thesis by (metis bit_0_eq bot_apply bot_bool_def bit_word_eqI)
qed

lemma is_free_page_free:
  assumes "p < 8 * length (bitmap a)"
  shows "is_free a p = Some (page_free a p)"
proof -
  have "p div 8 < length (bitmap a)" using assms by linarith
  then show ?thesis
    using assms by (simp add: is_free_def page_free_def slice_get_Some bit_masked)
qed

lemma set_bit_at_ok:
  assumes "p < 8 * length (bitmap a)"
  shows "\<exists>a'. set_bit_at p used a = Some a' \<and> length (bitmap a') = length (bitmap a)
    \<and> num_frames a' = num_frames a \<and> page_free a' = (page_free a)(p := \<not> used)"
proof -
  have d: "p div 8 < length (bitmap a)" using assms by linarith
  have m: "bit (if u then w OR push_bit (p mod 8) 1 else w AND NOT (push_bit (p mod 8) 1)) i
      = (if i = p mod 8 then u else bit w i)" if "i < 8" for u i and w :: u8
    using that by (auto simp: bit_or_iff bit_and_iff bit_not_iff bit_exp_u8)
  have e: "q div 8 = p div 8 \<and> q mod 8 = p mod 8 \<longleftrightarrow> q = p" for q :: nat
    by (metis div_mult_mod_eq)
  define new where "new = (if used then bitmap a ! (p div 8) OR push_bit (p mod 8) 1
    else bitmap a ! (p div 8) AND NOT (push_bit (p mod 8) 1))"
  have "set_bit_at p used a = Some (a\<lparr>bitmap := (bitmap a)[p div 8 := new]\<rparr>)"
    using d by (simp add: set_bit_at_def slice_get_Some slice_set_Some Let_def new_def)
  moreover have "page_free (a\<lparr>bitmap := (bitmap a)[p div 8 := new]\<rparr>) q = ((page_free a)(p := \<not> used)) q"
    for q
    using assms d e[of q] m[of "q mod 8" used "bitmap a ! (p div 8)", folded new_def]
    by (cases "q div 8 = p div 8") (auto simp: page_free_def)
  ultimately show ?thesis by (simp add: fun_eq_iff)
qed

section \<open>A map of frames\<close>

text \<open>What the loops need of the bitmap: writing a frame changes that frame and no other.\<close>

locale frame_map =
  fixes size_of :: "'a \<Rightarrow> nat"
    and free :: "'a \<Rightarrow> nat \<Rightarrow> bool"
    and put :: "bool \<Rightarrow> nat \<Rightarrow> 'a \<Rightarrow> 'a option"
    and same :: "'a \<Rightarrow> 'a \<Rightarrow> bool"
  assumes put_frame: "p < size_of a \<Longrightarrow>
      \<exists>a'. put used p a = Some a' \<and> same a a' \<and> free a' = (free a)(p := \<not> used)"
    and same_refl: "same a a"
    and same_trans: "same a b \<Longrightarrow> same b c \<Longrightarrow> same a c"
    and same_size: "same a b \<Longrightarrow> size_of b = size_of a"
begin

lemma put_frames:
  assumes "\<forall>p\<in>set ps. p < size_of a"
  shows "\<exists>a'. for_pages (put used) ps a = Some a' \<and> same a a'
    \<and> free a' = (\<lambda>p. if p \<in> set ps then \<not> used else free a p)"
  using assms
proof (induction ps arbitrary: a)
  case Nil
  then show ?case by (simp add: same_refl)
next
  case (Cons p ps)
  obtain b where b: "put used p a = Some b" "same a b" "free b = (free a)(p := \<not> used)"
    using put_frame[of p a used] Cons.prems by auto
  then have "\<forall>q\<in>set ps. q < size_of b" using Cons.prems same_size by auto
  from Cons.IH[OF this] obtain c where c: "for_pages (put used) ps b = Some c" "same b c"
    "free c = (\<lambda>q. if q \<in> set ps then \<not> used else free b q)" by blast
  then show ?case using b same_trans by (fastforce simp: fun_eq_iff)
qed

end

definition same_shape :: "page_allocator \<Rightarrow> page_allocator \<Rightarrow> bool" where
  "same_shape a b \<longleftrightarrow> num_frames b = num_frames a \<and> length (bitmap b) = length (bitmap a)"

interpretation frames: frame_map "\<lambda>a. 8 * length (bitmap a)" page_free
  "\<lambda>used p. set_bit_at p used" same_shape
proof unfold_locales
  show "\<exists>a'. set_bit_at p used a = Some a' \<and> same_shape a a' \<and> page_free a' = (page_free a)(p := \<not> used)"
    if "p < 8 * length (bitmap a)" for p a used
    using set_bit_at_ok[OF that] by (auto simp: same_shape_def)
qed (auto simp: same_shape_def)

section \<open>First fit\<close>

text \<open>The lowest page from which the wanted number of pages is free.\<close>

definition run_free :: "(nat \<Rightarrow> bool) \<Rightarrow> nat \<Rightarrow> nat \<Rightarrow> bool" where
  "run_free free count s \<longleftrightarrow> list_all free [s..<s + count]"

definition first_fit :: "(nat \<Rightarrow> bool) \<Rightarrow> nat \<Rightarrow> nat \<Rightarrow> nat option" where
  "first_fit free n count = find (run_free free count) [0..<n + 1 - count]"

lemma run_free_iff: "run_free free count s \<longleftrightarrow> (\<forall>p. s \<le> p \<and> p < s + count \<longrightarrow> free p)"
  by (auto simp: run_free_def list_all_iff)

lemma find_append_None: "find P xs = None \<Longrightarrow> find P (xs @ ys) = find P ys"
  by (induction xs) (auto split: if_splits)

lemma find_upt_skip:
  assumes "\<And>s. i \<le> s \<Longrightarrow> s < k \<Longrightarrow> \<not> P s" and "i \<le> k"
  shows "find P [i..<j] = find P [k..<j]"
proof (cases "k \<le> j")
  case True
  then have "[i..<j] = [i..<k] @ [k..<j]" using assms(2) by (metis le_iff_add upt_add_eq_append)
  moreover have "find P [i..<k] = None" using assms(1) by (auto simp: find_None_iff)
  ultimately show ?thesis by (simp only: find_append_None)
next
  case False
  then show ?thesis using assms(1) by (auto simp: find_None_iff)
qed

lemma find_run_first_fit:
  assumes "n \<le> 8 * length (bitmap a)" and "p \<le> n" and "r < c" and "r \<le> p"
    and "0 < r \<Longrightarrow> st = p - r" and "\<And>q. p - r \<le> q \<Longrightarrow> q < p \<Longrightarrow> page_free a q"
  shows "find_run a c [p..<n] st r = Some (find (run_free (page_free a) c) [p - r..<n + 1 - c])"
  using assms(2-6)
proof (induction "n - p" arbitrary: p r st)
  case 0
  then have "[p - r..<n + 1 - c] = []" by auto
  with 0 show ?case by simp
next
  case (Suc k)
  then have p: "p < n" and k: "k = n - Suc p" by auto
  have up: "[p..<n] = p # [Suc p..<n]" using p by (simp add: upt_conv_Cons)
  have f: "is_free a p = Some (page_free a p)" using p assms(1) by (intro is_free_page_free) simp
  show ?case
  proof (cases "page_free a p")
    case True
    have all: "page_free a q" if "p - r \<le> q" "q < Suc p" for q
      using that True Suc.prems(5) by (cases "q = p") auto
    show ?thesis
    proof (cases "Suc r = c")
      case full: True
      have "run_free (page_free a) c (p - r)"
        using all full Suc.prems(3) by (auto simp: run_free_iff)
      moreover have "p - r < n + 1 - c" using full p Suc.prems(3) by auto
      ultimately have "find (run_free (page_free a) c) [p - r..<n + 1 - c] = Some (p - r)"
        by (simp add: upt_conv_Cons)
      moreover have "find_run a c [p..<n] st r = Some (Some (p - r))"
        using up f True full Suc.prems(4) by (cases "r = 0") simp_all
      ultimately show ?thesis by (simp only:)
    next
      case False
      have "find_run a c [Suc p..<n] (if r = 0 then p else st) (Suc r)
          = Some (find (run_free (page_free a) c) [Suc p - Suc r..<n + 1 - c])"
        using Suc.prems False p all by (intro Suc.hyps(1)[OF k]) (auto split: if_splits)
      then show ?thesis using up f True False by simp
    qed
  next
    case False
    have "find_run a c [Suc p..<n] st 0 = Some (find (run_free (page_free a) c) [Suc p - 0..<n + 1 - c])"
      using Suc.prems(2) p by (intro Suc.hyps(1)[OF k]) auto
    moreover have "find (run_free (page_free a) c) [p - r..<n + 1 - c]
        = find (run_free (page_free a) c) [Suc p..<n + 1 - c]"
    proof (rule find_upt_skip)
      show "\<not> run_free (page_free a) c s" if "p - r \<le> s" "s < Suc p" for s
        using that False Suc.prems(2,3) by (auto simp: run_free_iff intro!: exI[of _ p])
    qed simp
    ultimately show ?thesis using up f False by simp
  qed
qed

lemma find_contiguous_first_fit:
  assumes "ppa_ok a" and "0 < count"
  shows "find_contiguous_pages a count = Some (first_fit (page_free a) (num_frames a) count)"
  using assms find_run_first_fit[of "num_frames a" a 0 0 count 0]
  by (simp add: find_contiguous_pages_def first_fit_def ppa_ok_def)

lemma first_fit_Some:
  "first_fit free n count = Some s \<longleftrightarrow>
     s < n + 1 - count \<and> (\<forall>p. s \<le> p \<and> p < s + count \<longrightarrow> free p)
     \<and> (\<forall>t. t < s \<longrightarrow> (\<exists>p. t \<le> p \<and> p < t + count \<and> \<not> free p))"
  by (auto simp: first_fit_def find_Some_iff run_free_iff)

lemma first_fit_None:
  "0 < count \<Longrightarrow> first_fit free n count = None \<longleftrightarrow>
     (\<forall>s. s + count \<le> n \<longrightarrow> (\<exists>p. s \<le> p \<and> p < s + count \<and> \<not> free p))"
  by (auto simp: first_fit_def find_None_iff run_free_iff)

section \<open>Allocation\<close>

text \<open>The address constructor accepts the page addresses of the machine.\<close>

definition phys_valid :: "addr_ext \<Rightarrow> nat \<Rightarrow> bool" where
  "phys_valid ext n \<longleftrightarrow> (\<forall>s<n. phys_new ext (s * 4096) = Some (s * 4096))"

definition fit :: "page_allocator \<Rightarrow> nat \<Rightarrow> nat option" where
  "fit a count = (if count = 0 then None else first_fit (page_free a) (num_frames a) count)"

lemma set_used_frames: "for_pages set_used = for_pages (\<lambda>p. set_bit_at p True)"
  by (simp add: set_used_def[abs_def])

lemma set_unused_frames: "for_pages set_unused = for_pages (\<lambda>p. set_bit_at p False)"
  by (simp add: set_unused_def[abs_def])

lemma fit_bounds:
  assumes "fit a count = Some s"
  shows "0 < count" and "s + count \<le> num_frames a"
    and "\<And>p. s \<le> p \<Longrightarrow> p < s + count \<Longrightarrow> page_free a p"
  using assms by (auto simp: fit_def first_fit_Some split: if_splits)

lemma alloc_steps:
  assumes "ppa_ok a" and "phys_valid ext (num_frames a)"
  shows "case fit a count of
      None \<Rightarrow> alloc_contiguous_pages ext count a = Some (None, a)
    | Some s \<Rightarrow> \<exists>a'. alloc_contiguous_pages ext count a = Some (Some (s * 4096), a')
        \<and> same_shape a a' \<and> page_free a' = (\<lambda>p. page_free a p \<and> p \<notin> {s..<s + count})"
proof -
  have f: "find_contiguous_pages a count = Some (fit a count)"
    using find_contiguous_first_fit[OF assms(1)] by (simp add: fit_def find_contiguous_pages_def)
  show ?thesis
  proof (cases "fit a count")
    case None
    then show ?thesis using f by (simp add: alloc_contiguous_pages_def)
  next
    case (Some s)
    note b = fit_bounds[OF Some]
    have "\<forall>p\<in>set [s..<s + count]. p < 8 * length (bitmap a)"
      using b(2) assms(1) by (auto simp: ppa_ok_def)
    from frames.put_frames[OF this, of True] obtain a' where
      "for_pages set_used [s..<s + count] a = Some a'" "same_shape a a'"
      "page_free a' = (\<lambda>p. page_free a p \<and> p \<notin> {s..<s + count})"
      by (auto simp: set_used_frames fun_eq_iff)
    moreover have "phys_new ext (s * 4096) = Some (s * 4096)"
      using assms(2) b(1,2) by (simp add: phys_valid_def)
    ultimately show ?thesis using f Some by (simp add: alloc_contiguous_pages_def)
  qed
qed

lemma dealloc_steps:
  assumes "ppa_ok a" and "s + count \<le> num_frames a"
  shows "\<exists>a'. dealloc_contiguous_pages (s * 4096) count a = Some a' \<and> same_shape a a'
    \<and> page_free a' = (\<lambda>p. page_free a p \<or> p \<in> {s..<s + count})"
proof -
  have "\<forall>p\<in>set [s..<s + count]. p < 8 * length (bitmap a)"
    using assms by (auto simp: ppa_ok_def)
  from frames.put_frames[OF this, of False] show ?thesis
    by (auto simp: dealloc_contiguous_pages_def set_unused_frames fun_eq_iff)
qed

lemma same_shape_ok: "same_shape a b \<Longrightarrow> ppa_ok a \<Longrightarrow> ppa_ok b"
  by (simp add: same_shape_def ppa_ok_def)

lemma bitmap_determined:
  assumes "same_shape a b" and "page_free a = page_free b"
  shows "bitmap a = bitmap b"
proof (rule nth_equalityI)
  show "length (bitmap a) = length (bitmap b)" using assms(1) by (simp add: same_shape_def)
  fix i
  assume i: "i < length (bitmap a)"
  show "bitmap a ! i = bitmap b ! i"
  proof (rule bit_word_eqI)
    fix n
    assume "n < LENGTH(8)"
    then have "(8 * i + n) div 8 = i" "(8 * i + n) mod 8 = n" "8 * i + n < 8 * length (bitmap a)"
      using i by auto
    then show "bit (bitmap a ! i) n \<longleftrightarrow> bit (bitmap b ! i) n"
      using fun_cong[OF assms(2), of "8 * i + n"] assms(1) by (simp add: page_free_def same_shape_def)
  qed
qed

section \<open>Histories\<close>

text \<open>
  The blocks in use after a history of allocations and of deallocations of blocks in use, each
  once. A block is its address and its number of pages.
\<close>

definition pages_of :: "nat \<times> nat \<Rightarrow> nat set" where
  "pages_of b = {fst b div 4096..<fst b div 4096 + snd b}"

inductive ppa_run :: "addr_ext \<Rightarrow> page_allocator \<Rightarrow> page_allocator \<Rightarrow> (nat \<times> nat) set \<Rightarrow> bool"
  for ext a0 where
  fresh: "ppa_run ext a0 a0 {}"
| alloc: "\<lbrakk>ppa_run ext a0 a L; alloc_contiguous_pages ext count a = Some (Some addr, a')\<rbrakk>
    \<Longrightarrow> ppa_run ext a0 a' (insert (addr, count) L)"
| full: "\<lbrakk>ppa_run ext a0 a L; alloc_contiguous_pages ext count a = Some (None, a')\<rbrakk>
    \<Longrightarrow> ppa_run ext a0 a' L"
| dealloc: "\<lbrakk>ppa_run ext a0 a L; (addr, count) \<in> L; dealloc_contiguous_pages addr count a = Some a'\<rbrakk>
    \<Longrightarrow> ppa_run ext a0 a' (L - {(addr, count)})"

definition ppa_inv :: "page_allocator \<Rightarrow> page_allocator \<Rightarrow> (nat \<times> nat) set \<Rightarrow> bool" where
  "ppa_inv a0 a L \<longleftrightarrow> same_shape a0 a \<and> disjoint_family_on pages_of L
     \<and> (\<forall>b\<in>L. fst b mod 4096 = 0 \<and> 0 < snd b \<and> pages_of b \<subseteq> {p. p < num_frames a0 \<and> page_free a0 p})
     \<and> page_free a = (\<lambda>p. page_free a0 p \<and> p \<notin> (\<Union>b\<in>L. pages_of b))"

lemma ppa_inv_alloc:
  assumes "ppa_ok a0" and "phys_valid ext (num_frames a0)" and "ppa_inv a0 a L"
    and "alloc_contiguous_pages ext count a = Some (Some addr, a')"
  shows "ppa_inv a0 a' (insert (addr, count) L)"
proof -
  have sh: "same_shape a0 a" using assms(3) by (simp add: ppa_inv_def)
  have ok: "ppa_ok a" "phys_valid ext (num_frames a)"
    using same_shape_ok[OF sh assms(1)] assms(2) sh by (simp_all add: same_shape_def)
  obtain s where s: "fit a count = Some s" "addr = s * 4096" "same_shape a a'"
    "page_free a' = (\<lambda>p. page_free a p \<and> p \<notin> {s..<s + count})"
    using alloc_steps[OF ok, of count] assms(4) by (cases "fit a count") auto
  note b = fit_bounds[OF s(1)]
  have pg: "pages_of (addr, count) = {s..<s + count}" by (simp add: pages_of_def s(2))
  have new: "pages_of (addr, count) \<subseteq> {p. p < num_frames a0 \<and> page_free a0 p}"
    "pages_of (addr, count) \<inter> (\<Union>b\<in>L. pages_of b) = {}"
    using b(2,3) assms(3) sh unfolding pg by (auto simp: ppa_inv_def same_shape_def)
  have "disjoint_family_on pages_of (insert (addr, count) L)"
    using assms(3) new(2) unfolding ppa_inv_def disjoint_family_on_def by blast
  moreover have "page_free a' = (\<lambda>p. page_free a0 p \<and> p \<notin> (\<Union>b\<in>insert (addr, count) L. pages_of b))"
    using assms(3) s(4) pg by (auto simp: ppa_inv_def fun_eq_iff)
  ultimately show ?thesis
    using assms(3) new(1) s(2,3) b(1) by (auto simp: ppa_inv_def same_shape_def)
qed

lemma ppa_inv_dealloc:
  assumes "ppa_ok a0" and "ppa_inv a0 a L" and "(addr, count) \<in> L"
  shows "\<exists>a'. dealloc_contiguous_pages addr count a = Some a' \<and> ppa_inv a0 a' (L - {(addr, count)})"
proof -
  let ?s = "addr div 4096"
  have sh: "same_shape a0 a" and al: "?s * 4096 = addr" and pos: "0 < count"
    and sub: "pages_of (addr, count) \<subseteq> {p. p < num_frames a0 \<and> page_free a0 p}"
    using assms(2,3) by (auto simp: ppa_inv_def)
  have "?s + count - 1 \<in> pages_of (addr, count)" using pos by (simp add: pages_of_def)
  then have "?s + count - 1 < num_frames a0" using sub by blast
  then have "?s + count \<le> num_frames a" using pos sh by (simp add: same_shape_def)
  then obtain a' where a': "dealloc_contiguous_pages addr count a = Some a'" "same_shape a a'"
    "page_free a' = (\<lambda>p. page_free a p \<or> p \<in> {?s..<?s + count})"
    using dealloc_steps[OF same_shape_ok[OF sh assms(1)], of ?s count] al by auto
  have rest: "(\<Union>b\<in>L - {(addr, count)}. pages_of b) = (\<Union>b\<in>L. pages_of b) - pages_of (addr, count)"
    using assms(2,3) unfolding ppa_inv_def disjoint_family_on_def by fastforce
  have "page_free a' = (\<lambda>p. page_free a0 p \<and> p \<notin> (\<Union>b\<in>L - {(addr, count)}. pages_of b))"
    unfolding rest using a'(3) assms(2) sub by (auto simp: ppa_inv_def fun_eq_iff pages_of_def)
  then show ?thesis
    using a'(1,2) assms(2) by (auto simp: ppa_inv_def same_shape_def disjoint_family_on_def)
qed

lemma ppa_run_inv:
  assumes "ppa_run ext a0 a L" and "ppa_ok a0" and "phys_valid ext (num_frames a0)"
  shows "ppa_inv a0 a L"
  using assms(1)
proof induction
  case fresh
  show ?case by (simp add: ppa_inv_def same_shape_def disjoint_family_on_def)
next
  case (alloc a L count addr a')
  then show ?case using ppa_inv_alloc[OF assms(2,3)] by blast
next
  case (full a L count a')
  have sh: "same_shape a0 a" using full.IH by (simp add: ppa_inv_def)
  have "ppa_ok a" "phys_valid ext (num_frames a)"
    using same_shape_ok[OF sh assms(2)] assms(3) sh by (simp_all add: same_shape_def)
  then have "a' = a" using alloc_steps[of a ext count] full.hyps(2) by (cases "fit a count") auto
  then show ?case using full.IH by simp
next
  case (dealloc a L addr count a')
  then show ?case using ppa_inv_dealloc[OF assms(2) dealloc.IH dealloc.hyps(2)] by auto
qed

section \<open>Construction\<close>

lemma max_end_bound: "max_end rs = Some m \<Longrightarrow> r \<in> set rs \<Longrightarrow> end_addr r \<le> m"
  by (induction rs arbitrary: m rule: max_end.induct) auto

lemma max_end_exists: "rs \<noteq> [] \<Longrightarrow> \<exists>m. max_end rs = Some m"
  by (induction rs rule: max_end.induct) auto

definition region_ok :: "region \<Rightarrow> bool" where
  "region_ok r \<longleftrightarrow> start_addr r \<le> end_addr r \<and> 4096 dvd start_addr r \<and> 4096 dvd end_addr r"

lemma find_bitmap_region_find:
  "list_all region_ok rs \<Longrightarrow>
     find_bitmap_region need rs = Some (find (\<lambda>r. usable r \<and> need \<le> end_addr r - start_addr r) rs)"
  by (induction rs) (auto simp: region_ok_def)

definition in_region :: "region \<Rightarrow> nat \<Rightarrow> bool" where
  "in_region r p \<longleftrightarrow> start_addr r \<le> p * 4096 \<and> (p + 1) * 4096 \<le> end_addr r"

lemma in_region_frames:
  assumes "region_ok r"
  shows "in_region r p \<longleftrightarrow> p \<in> {start_addr r div PAGE_SIZE..<div_ceil (end_addr r) PAGE_SIZE}"
proof -
  obtain i j where "start_addr r = 4096 * i" "end_addr r = 4096 * j"
    using assms by (auto simp: region_ok_def dvd_def)
  moreover have "p < div_ceil (4096 * j) 4096 \<longleftrightarrow> p < j" by (simp add: less_div_ceil_iff)
  ultimately show ?thesis by (simp add: in_region_def PAGE_SIZE_def Suc_le_eq) linarith
qed

lemma free_usable_ok:
  assumes "list_all region_ok rs" and "\<And>r. r \<in> set rs \<Longrightarrow> div_ceil (end_addr r) PAGE_SIZE \<le> 8 * length (bitmap a)"
  shows "\<exists>a'. free_usable rs a = Some a' \<and> same_shape a a'
    \<and> page_free a' = (\<lambda>p. page_free a p \<or> (\<exists>r\<in>set rs. usable r \<and> in_region r p))"
  using assms
proof (induction rs arbitrary: a)
  case (Cons r rs)
  obtain b where b: "(if usable r then mark_region_free (start_addr r) (end_addr r) a else Some a) = Some b"
    "same_shape a b" "page_free b = (\<lambda>p. page_free a p \<or> usable r \<and> in_region r p)"
  proof (cases "usable r")
    case True
    have "\<forall>p\<in>set [start_addr r div PAGE_SIZE..<div_ceil (end_addr r) PAGE_SIZE].
        p < 8 * length (bitmap a)"
      using Cons.prems(2)[of r] by auto
    from frames.put_frames[OF this, of False] Cons.prems(1) True show thesis
      by (auto simp: mark_region_free_def in_region_frames fun_eq_iff intro: that)
  qed (use that in \<open>auto simp: same_shape_def\<close>)
  have "\<exists>c. free_usable rs b = Some c \<and> same_shape b c
      \<and> page_free c = (\<lambda>p. page_free b p \<or> (\<exists>r\<in>set rs. usable r \<and> in_region r p))"
    using Cons.prems b(2) by (intro Cons.IH) (auto simp: same_shape_def)
  then show ?case using b by (auto simp: same_shape_def fun_eq_iff)
qed (simp add: same_shape_def)

text \<open>The frames the bitmap occupies: from the start of the first usable region that holds it.\<close>

definition bitmap_pages_for :: "nat \<Rightarrow> nat" where
  "bitmap_pages_for max_phys = div_ceil (div_ceil (div_ceil max_phys PAGE_SIZE) 8) PAGE_SIZE"

lemma bit_all_u8: "bit (0xFF :: u8) (p mod 8)"
proof -
  have "(0xFF :: u8) = - 1" by simp
  then show ?thesis by (simp only: bit_minus_1_iff) simp
qed

lemma div_ceil_mono: "a \<le> b \<Longrightarrow> div_ceil a n \<le> div_ceil b n"
  by (simp add: div_ceil_def div_le_mono)

lemma ppa_new_ok:
  assumes "list_all region_ok rs" and "max_end rs = Some m"
    and "find (\<lambda>r. usable r \<and> bitmap_pages_for m * PAGE_SIZE \<le> end_addr r - start_addr r) rs = Some home"
    and "phys_new ext (start_addr home) = Some (start_addr home)"
    and "off + start_addr home < 2 ^ 64" and "virt_new ext (off + start_addr home) \<noteq> None"
  shows "\<exists>a. ppa_new ext rs off = Some a \<and> ppa_ok a \<and> num_frames a = div_ceil m PAGE_SIZE
    \<and> page_free a = (\<lambda>p. (\<exists>r\<in>set rs. usable r \<and> in_region r p)
        \<and> p \<notin> {start_addr home div PAGE_SIZE
               ..<div_ceil (start_addr home + bitmap_pages_for m * PAGE_SIZE) PAGE_SIZE})"
proof -
  let ?f = "div_ceil m PAGE_SIZE"
  let ?a = "\<lparr> bitmap = replicate (div_ceil ?f 8) 0xFF, num_frames = ?f \<rparr>"
  let ?used = "[start_addr home div PAGE_SIZE
    ..<div_ceil (start_addr home + bitmap_pages_for m * PAGE_SIZE) PAGE_SIZE]"
  have f8: "?f \<le> 8 * div_ceil ?f 8" using div_ceil_le_iff[of 8 ?f "div_ceil ?f 8"] by simp
  have none: "\<not> page_free ?a p" for p
    using bit_all_u8[of p] by (auto simp: page_free_def)
  have bound: "div_ceil e PAGE_SIZE \<le> 8 * div_ceil ?f 8" if "e \<le> m" for e
    using div_ceil_mono[OF that, of PAGE_SIZE] f8 by (rule le_trans)
  obtain b where b: "free_usable rs ?a = Some b" "same_shape ?a b"
    "page_free b = (\<lambda>p. \<exists>r\<in>set rs. usable r \<and> in_region r p)"
    using free_usable_ok[OF assms(1), of ?a] bound max_end_bound[OF assms(2)] none by auto
  have h: "home \<in> set rs" "region_ok home" "bitmap_pages_for m * PAGE_SIZE \<le> end_addr home - start_addr home"
    using assms(1,3) by (auto simp: find_Some_iff list_all_iff)
  then have "start_addr home + bitmap_pages_for m * PAGE_SIZE \<le> m"
    using max_end_bound[OF assms(2) h(1)] unfolding region_ok_def by linarith
  then have "div_ceil (start_addr home + bitmap_pages_for m * PAGE_SIZE) PAGE_SIZE \<le> 8 * length (bitmap b)"
    using bound b(2) by (simp add: same_shape_def)
  then have "\<forall>p\<in>set ?used. p < 8 * length (bitmap b)" by simp
  from frames.put_frames[OF this, of True] obtain c where
    c: "for_pages set_used ?used b = Some c" "same_shape b c"
    "page_free c = (\<lambda>p. page_free b p \<and> p \<notin> set ?used)"
    by (auto simp: set_used_frames fun_eq_iff)
  have "ppa_new ext rs off = Some c"
    using assms(2-6) b(1) c(1)
    by (auto simp: ppa_new_def u64_add_def Let_def find_bitmap_region_find[OF assms(1)]
        bitmap_pages_for_def[symmetric] mark_region_used_def)
  moreover have "ppa_ok c" "num_frames c = ?f"
    using b(2) c(2) f8 by (auto simp: same_shape_def ppa_ok_def)
  ultimately show ?thesis using b(3) c(3) by (intro exI[of _ c]) (simp only: set_upt simp_thms)
qed

lemma frames_of_block:
  assumes "4096 dvd x"
  shows "{x div PAGE_SIZE..<div_ceil (x + n * PAGE_SIZE) PAGE_SIZE} = {x div 4096..<x div 4096 + n}"
proof -
  obtain i where "x = 4096 * i" using assms by (auto simp: dvd_def)
  moreover have "div_ceil (4096 * i + n * 4096) 4096 = i + n"
    using div_ceil_le_iff[of 4096 "4096 * i + n * 4096" "i + n"]
      div_ceil_le_iff[of 4096 "4096 * i + n * 4096" "div_ceil (4096 * i + n * 4096) 4096"] by simp
  ultimately show ?thesis by (simp add: PAGE_SIZE_def)
qed

section \<open>A small machine\<close>

text \<open>Eight megabytes, of which the first is reserved, with its address constructors.\<close>

definition plain_addrs :: addr_ext where
  "plain_addrs = \<lparr> phys_new = \<lambda>x. if x < 2 ^ 52 then Some x else None,
     virt_new = \<lambda>x. if x < 2 ^ 47 \<or> 2 ^ 64 - 2 ^ 47 \<le> x \<and> x < 2 ^ 64 then Some x else None \<rparr>"

definition small_map :: "region list" where
  "small_map = [\<lparr> usable = False, start_addr = 0, end_addr = 0x100000 \<rparr>,
                \<lparr> usable = True, start_addr = 0x100000, end_addr = 0x800000 \<rparr>]"

definition one_byte_map :: page_allocator where
  "one_byte_map = \<lparr> bitmap = [0x13], num_frames = 8 \<rparr>"

lemma one_byte_ok: "ppa_ok one_byte_map" "phys_valid plain_addrs (num_frames one_byte_map)"
  by (simp_all add: one_byte_map_def ppa_ok_def phys_valid_def plain_addrs_def)

section \<open>Properties\<close>

text \<open>C30: the search for free pages is first fit. It never panics on a well-formed allocator and
  returns the lowest page from which the wanted number of pages is free, or nothing when no such
  page exists.\<close>

theorem find_contiguous_is_first_fit:
  assumes "ppa_ok a" and "0 < count"
  shows "find_contiguous_pages a count = Some (first_fit (page_free a) (num_frames a) count)
    \<and> (case first_fit (page_free a) (num_frames a) count of
         Some s \<Rightarrow> s + count \<le> num_frames a \<and> (\<forall>p. s \<le> p \<and> p < s + count \<longrightarrow> page_free a p)
           \<and> (\<forall>t. t < s \<longrightarrow> (\<exists>p. t \<le> p \<and> p < t + count \<and> \<not> page_free a p))
       | None \<Rightarrow> \<forall>t. t + count \<le> num_frames a \<longrightarrow> (\<exists>p. t \<le> p \<and> p < t + count \<and> \<not> page_free a p))"
proof (cases "first_fit (page_free a) (num_frames a) count")
  case None
  with assms find_contiguous_first_fit[OF assms] show ?thesis
    by (simp add: first_fit_None[symmetric])
next
  case (Some s)
  moreover from this have "s + count \<le> num_frames a" "\<forall>p. s \<le> p \<and> p < s + count \<longrightarrow> page_free a p"
    "\<forall>t. t < s \<longrightarrow> (\<exists>p. t \<le> p \<and> p < t + count \<and> \<not> page_free a p)"
    using assms(2) by (auto simp: first_fit_Some)
  ultimately show ?thesis using find_contiguous_first_fit[OF assms] by simp
qed

theorem find_contiguous_is_first_fit_witness:
  "find_contiguous_pages one_byte_map 3
     = Some (first_fit (page_free one_byte_map) (num_frames one_byte_map) 3)
   \<and> find_contiguous_pages one_byte_map 3 = Some (Some 5)"
proof -
  have "find_contiguous_pages one_byte_map 3 = Some (Some 5)" by code_simp
  then show ?thesis using find_contiguous_is_first_fit[OF one_byte_ok(1), of 3] by simp
qed

text \<open>C4: pages are never handed out twice. After any history of allocations, and of deallocations
  of blocks in use, no operation panics, the blocks in use are page-aligned, pairwise disjoint and
  made of pages that were free at the start, and the free pages are exactly the others; when no
  block is left, the bitmap is the one at the start.\<close>

theorem blocks_never_overlap:
  assumes "ppa_run ext a0 a L" and "ppa_ok a0" and "phys_valid ext (num_frames a0)"
  shows "disjoint_family_on pages_of L
    \<and> (\<forall>b\<in>L. fst b mod 4096 = 0 \<and> pages_of b \<subseteq> {p. p < num_frames a0 \<and> page_free a0 p})
    \<and> (\<forall>p. page_free a p \<longleftrightarrow> page_free a0 p \<and> p \<notin> (\<Union>b\<in>L. pages_of b))
    \<and> (L = {} \<longrightarrow> bitmap a = bitmap a0)
    \<and> alloc_contiguous_pages ext count a \<noteq> None
    \<and> (b \<in> L \<longrightarrow> dealloc_contiguous_pages (fst b) (snd b) a \<noteq> None)"
proof -
  have inv: "ppa_inv a0 a L" by (rule ppa_run_inv[OF assms])
  then have sh: "same_shape a0 a" by (simp add: ppa_inv_def)
  have "ppa_ok a" "phys_valid ext (num_frames a)"
    using same_shape_ok[OF sh assms(2)] assms(3) sh by (simp_all add: same_shape_def)
  then have "alloc_contiguous_pages ext count a \<noteq> None"
    using alloc_steps[of a ext count] by (cases "fit a count") auto
  moreover have "b \<in> L \<longrightarrow> dealloc_contiguous_pages (fst b) (snd b) a \<noteq> None"
    using ppa_inv_dealloc[OF assms(2) inv, of "fst b" "snd b"] by auto
  moreover have "L = {} \<longrightarrow> bitmap a = bitmap a0"
    using bitmap_determined[of a0 a] inv by (auto simp: ppa_inv_def)
  ultimately show ?thesis using inv by (auto simp: ppa_inv_def)
qed

theorem blocks_never_overlap_witness:
  "\<exists>a. ppa_run plain_addrs one_byte_map a {(0x5000, 3), (0x2000, 2)}
     \<and> disjoint_family_on pages_of {(0x5000, 3), (0x2000, 2)}
     \<and> dealloc_contiguous_pages 0x5000 3 a \<noteq> None"
proof -
  let ?a = "\<lparr> bitmap = [0xF3], num_frames = 8 \<rparr>" and ?b = "\<lparr> bitmap = [0xFF], num_frames = 8 \<rparr>"
  have "alloc_contiguous_pages plain_addrs 3 one_byte_map = Some (Some 0x5000, ?a)" by code_simp
  moreover have "alloc_contiguous_pages plain_addrs 2 ?a = Some (Some 0x2000, ?b)" by code_simp
  ultimately have r: "ppa_run plain_addrs one_byte_map ?b {(0x2000, 2), (0x5000, 3)}"
    using ppa_run.fresh ppa_run.alloc by metis
  from blocks_never_overlap[OF r one_byte_ok, of _ "(0x5000, 3)"] r show ?thesis
    by (auto simp: insert_commute)
qed

text \<open>C31: the allocator starts with exactly the usable memory. On a memory map of page-aligned
  regions with room for a bitmap that is mapped at a canonical address, construction never
  panics, covers all of memory, and a page is free precisely when it lies within a usable region
  and outside the pages of the bitmap.\<close>

theorem new_frees_usable_memory:
  assumes "list_all region_ok rs" and "max_end rs = Some m"
    and "find (\<lambda>r. usable r \<and> bitmap_pages_for m * PAGE_SIZE \<le> end_addr r - start_addr r) rs = Some home"
    and "phys_new ext (start_addr home) = Some (start_addr home)"
    and "off + start_addr home < 2 ^ 64" and "virt_new ext (off + start_addr home) \<noteq> None"
  shows "\<exists>a. ppa_new ext rs off = Some a \<and> ppa_ok a \<and> m \<le> num_frames a * PAGE_SIZE
    \<and> (\<forall>p. page_free a p \<longleftrightarrow>
         (\<exists>r\<in>set rs. usable r \<and> start_addr r \<le> p * 4096 \<and> (p + 1) * 4096 \<le> end_addr r)
         \<and> p \<notin> {start_addr home div 4096..<start_addr home div 4096 + bitmap_pages_for m})"
proof -
  have "4096 dvd start_addr home" using assms(1,3) by (auto simp: find_Some_iff list_all_iff region_ok_def)
  note fb = frames_of_block[OF this, of "bitmap_pages_for m"]
  have "m \<le> div_ceil m PAGE_SIZE * PAGE_SIZE"
    using div_ceil_le_iff[of PAGE_SIZE m "div_ceil m PAGE_SIZE"] by (simp add: PAGE_SIZE_def)
  with ppa_new_ok[OF assms] show ?thesis unfolding fb in_region_def by auto
qed

theorem new_frees_usable_memory_witness:
  "\<exists>a. ppa_new plain_addrs small_map 0 = Some a \<and> ppa_ok a
    \<and> page_free a 0x101 \<and> \<not> page_free a 0x100 \<and> \<not> page_free a 0"
proof -
  have e: "max_end small_map = Some 0x800000" "bitmap_pages_for 0x800000 = 1"
    by (simp_all add: small_map_def bitmap_pages_for_def div_ceil_def PAGE_SIZE_def)
  have "\<exists>a. ppa_new plain_addrs small_map 0 = Some a \<and> ppa_ok a \<and> 0x800000 \<le> num_frames a * PAGE_SIZE
    \<and> (\<forall>p. page_free a p \<longleftrightarrow>
         (\<exists>r\<in>set small_map. usable r \<and> start_addr r \<le> p * 4096 \<and> (p + 1) * 4096 \<le> end_addr r)
         \<and> p \<notin> {0x100000 div 4096..<0x100000 div 4096 + bitmap_pages_for 0x800000})"
    using new_frees_usable_memory[of small_map "0x800000"
        "\<lparr> usable = True, start_addr = 0x100000, end_addr = 0x800000 \<rparr>" plain_addrs 0] e
    by (simp add: small_map_def region_ok_def PAGE_SIZE_def plain_addrs_def)
  then show ?thesis by (auto simp: e small_map_def)
qed

text \<open>DMA memory is fresh and zeroed. When enough contiguous pages are free, \<open>dma_alloc\<close>
  takes pages that were free, returns their physical address and its mapping, zeroes them and
  changes no other byte; when not, it panics. Giving the block back restores the bitmap.\<close>

theorem dma_alloc_fresh:
  assumes "pmm km = Some a" and "phys_offset km = Some off" and "ppa_ok a"
    and "phys_valid ext (num_frames a)" and "0 < off" and "off + num_frames a * 4096 \<le> 2 ^ 64"
  shows "case fit a pages of
      None \<Rightarrow> dma_alloc ext pages km = None
    | Some s \<Rightarrow> \<exists>a' km'. dma_alloc ext pages km = Some ((s * 4096, off + s * 4096), km')
        \<and> pmm km' = Some a' \<and> (\<forall>p. s \<le> p \<and> p < s + pages \<longrightarrow> page_free a p \<and> \<not> page_free a' p)
        \<and> (\<forall>x. memory km' x =
             (if off + s * 4096 \<le> x \<and> x < off + (s + pages) * 4096 then 0 else memory km x))
        \<and> (\<exists>b km''. dma_dealloc (s * 4096) pages km' = Some (0, km'') \<and> pmm km'' = Some b
             \<and> bitmap b = bitmap a)"
proof (cases "fit a pages")
  case None
  then show ?thesis using alloc_steps[OF assms(3,4), of pages] assms(1) by (simp add: dma_alloc_def)
next
  case (Some s)
  note b = fit_bounds[OF Some]
  obtain a' where a': "alloc_contiguous_pages ext pages a = Some (Some (s * 4096), a')"
    "same_shape a a'" "page_free a' = (\<lambda>p. page_free a p \<and> p \<notin> {s..<s + pages})"
    using alloc_steps[OF assms(3,4), of pages] Some by auto
  obtain c where c: "dealloc_contiguous_pages (s * 4096) pages a' = Some c" "same_shape a' c"
    "page_free c = (\<lambda>p. page_free a' p \<or> p \<in> {s..<s + pages})"
    using dealloc_steps[OF same_shape_ok[OF a'(2) assms(3)], of s pages] b(2) a'(2)
    by (auto simp: same_shape_def)
  have "page_free c = page_free a" using a'(3) b(3) by (auto simp: c(3) fun_eq_iff)
  then have "bitmap c = bitmap a"
    using bitmap_determined[of c a] a'(2) c(2) by (simp add: same_shape_def)
  moreover have "u64_add off (s * 4096) = Some (off + s * 4096)"
    using b(1,2) assms(6) by (simp add: u64_add_def)
  ultimately show ?thesis
    using Some a'(1,3) b(3) c(1) assms(1,2,5)
    by (simp add: dma_alloc_def dma_dealloc_def write_bytes_def PAGE_SIZE_def algebra_simps)
qed

theorem dma_alloc_fresh_witness:
  "\<exists>a' km'. dma_alloc plain_addrs 2
      \<lparr> pmm = Some one_byte_map, phys_offset = Some 0x10000, heap = None, memory = \<lambda>_. 7 \<rparr>
      = Some ((0x2000, 0x12000), km') \<and> pmm km' = Some a'
    \<and> (\<forall>x. memory km' x = (if 0x12000 \<le> x \<and> x < 0x14000 then 0 else 7))"
proof -
  have "fit one_byte_map 2 = Some 2" by code_simp
  then show ?thesis
    using dma_alloc_fresh[of "\<lparr> pmm = Some one_byte_map, phys_offset = Some 0x10000, heap = None,
        memory = \<lambda>_. 7 \<rparr>" one_byte_map "0x10000" plain_addrs 2] one_byte_ok
    by (auto simp: one_byte_map_def)
qed

end
