(* ===== verification/Segments.thy ===== *)
theory Segments
  imports Page_Allocator
begin

text \<open>
  Segments and the double-fault stack (\<open>kernel/src/gdt.rs\<close>): the task state segment, whose
  interrupt stack table names the stack that a double fault switches to, and the descriptor table
  that \<open>init\<close> loads. The x86-64 crate's descriptor table, its descriptors and the instructions that
  load them are parameters.
\<close>

section \<open>The tables\<close>

record tss =
  interrupt_stack_table :: "nat list"

text \<open>
  An empty task state segment and descriptor table, appending a descriptor (which panics when the
  table is full), the two descriptors, the sum of an address and an offset (which panics when it
  is not canonical), the address of the static \<open>STACK\<close>, and the loads.
\<close>

record ('w, 'g, 'd, 's) gdt_ext =
  tss_new :: tss
  gdt_new :: 'g
  gdt_append :: "'d \<Rightarrow> 'g \<Rightarrow> ('s \<times> 'g) option"
  kernel_code_segment :: 'd
  tss_segment :: "tss \<Rightarrow> 'd"
  virt_add_u64 :: "nat \<Rightarrow> nat \<Rightarrow> nat option"
  stack_start :: nat
  gdt_load :: "'g \<Rightarrow> 'w \<Rightarrow> 'w"
  cs_set_reg :: "'s \<Rightarrow> 'w \<Rightarrow> 'w"
  load_tss :: "'s \<Rightarrow> 'w \<Rightarrow> 'w"

definition DOUBLE_FAULT_IST_INDEX :: nat where "DOUBLE_FAULT_IST_INDEX = 0"

definition STACK_SIZE :: nat where "STACK_SIZE = PAGE_SIZE * 5"

definition tss_static :: "('w, 'g, 'd, 's) gdt_ext \<Rightarrow> tss option" where
  "tss_static gx = do {
     top \<leftarrow> virt_add_u64 gx (stack_start gx) STACK_SIZE;
     ist \<leftarrow> slice_set DOUBLE_FAULT_IST_INDEX top (interrupt_stack_table (tss_new gx));
     Some ((tss_new gx)\<lparr>interrupt_stack_table := ist\<rparr>) }"

record 's selectors =
  code_selector :: 's
  tss_selector :: 's

definition gdt_static :: "('w, 'g, 'd, 's) gdt_ext \<Rightarrow> ('g \<times> 's selectors) option" where
  "gdt_static gx = do {
     (code, g) \<leftarrow> gdt_append gx (kernel_code_segment gx) (gdt_new gx);
     tss \<leftarrow> tss_static gx;
     (tsss, g) \<leftarrow> gdt_append gx (tss_segment gx tss) g;
     Some (g, \<lparr> code_selector = code, tss_selector = tsss \<rparr>) }"

definition gdt_init :: "('w, 'g, 'd, 's) gdt_ext \<Rightarrow> 'w \<Rightarrow> 'w option" where
  "gdt_init gx w = do {
     (g, sels) \<leftarrow> gdt_static gx;
     Some (load_tss gx (tss_selector sels) (cs_set_reg gx (code_selector sels) (gdt_load gx g w))) }"

section \<open>The stack of a double fault\<close>

text \<open>
  What the crate provides: seven stacks in a new segment, room for two descriptors in a new table,
  and a static stack that ends at a canonical address.
\<close>

definition segments_ok :: "('w, 'g, 'd, 's) gdt_ext \<Rightarrow> bool" where
  "segments_ok gx \<longleftrightarrow> length (interrupt_stack_table (tss_new gx)) = 7
     \<and> virt_add_u64 gx (stack_start gx) STACK_SIZE = Some (stack_start gx + STACK_SIZE)
     \<and> (\<forall>d d'. \<exists>s g s' g'. gdt_append gx d (gdt_new gx) = Some (s, g) \<and> gdt_append gx d' g = Some (s', g'))"

text \<open>
  The stack pointer for a double fault is the end of the five pages of \<open>STACK\<close>, since stacks grow
  downwards, and no other entry of the stack table is set.
\<close>

lemma double_fault_stack:
  assumes "segments_ok gx"
  shows "\<exists>tss. tss_static gx = Some tss
    \<and> interrupt_stack_table tss ! DOUBLE_FAULT_IST_INDEX = stack_start gx + 20480
    \<and> (\<forall>i. i \<noteq> DOUBLE_FAULT_IST_INDEX \<longrightarrow>
         interrupt_stack_table tss ! i = interrupt_stack_table (tss_new gx) ! i)"
  using assms
  by (auto simp: tss_static_def segments_ok_def slice_set_def DOUBLE_FAULT_IST_INDEX_def STACK_SIZE_def
      PAGE_SIZE_def)

text \<open>
  Loading does not panic, and the registers get the selectors of the descriptors that were
  appended for them to the table that is loaded first.
\<close>

lemma gdt_init_loads:
  assumes "segments_ok gx"
  shows "\<exists>tss code g tsss g'. tss_static gx = Some tss
    \<and> gdt_append gx (kernel_code_segment gx) (gdt_new gx) = Some (code, g)
    \<and> gdt_append gx (tss_segment gx tss) g = Some (tsss, g')
    \<and> gdt_init gx w = Some (load_tss gx tsss (cs_set_reg gx code (gdt_load gx g' w)))"
proof -
  obtain tss where t: "tss_static gx = Some tss" using double_fault_stack[OF assms] by blast
  obtain code g tsss g' where
    "gdt_append gx (kernel_code_segment gx) (gdt_new gx) = Some (code, g)"
    "gdt_append gx (tss_segment gx tss) g = Some (tsss, g')"
    using assms unfolding segments_ok_def by blast
  with t show ?thesis by (simp add: gdt_init_def gdt_static_def)
qed

end
