(* ===== verification/Boot.thy ===== *)
theory Boot
  imports Devices Segments
begin

text \<open>
  How the kernel starts (\<open>init\<close> and \<open>kernel_main\<close> of \<open>kernel/src/main.rs\<close>, the page table of
  \<open>kernel/src/memory.rs\<close>): the order in which the components are brought up, each with its whole
  model, until the tasks are handed to the executor; and the task that reports the time. Loading
  the interrupt table, reading the page table register, searching for the ACPI tables and
  opening the serial port are parameters over the outside world.
\<close>

section \<open>The page table\<close>

text \<open>
  The page table register, the sum of a virtual address and an offset (which panics when the
  result is not canonical), and the other parts of the machine that are touched once.
\<close>

record ('w, 'g, 'd, 's) boot_ext =
  read_cr3 :: "'w \<Rightarrow> nat \<times> 'w"
  virt_add :: "nat \<Rightarrow> nat \<Rightarrow> nat option"
  segments :: "('w, 'g, 'd, 's) gdt_ext"
  idt_load :: "'w \<Rightarrow> 'w"
  find_madt :: "'w \<Rightarrow> madt_entry list option \<times> 'w"
  open_tty :: "'w \<Rightarrow> bool \<times> 'w"

record boot_info =
  memory_map :: "region list"
  physical_memory_offset :: u64

definition active_level_4_table ::
  "addr_ext \<Rightarrow> ('w, 'g, 'd, 's) boot_ext \<Rightarrow> boot_info \<Rightarrow> 'w \<Rightarrow> (nat \<times> 'w) option" where
  "active_level_4_table ax bx bi w = do {
     let (phys, w) = read_cr3 bx w;
     base \<leftarrow> virt_new ax (unat (physical_memory_offset bi));
     virt \<leftarrow> virt_add bx base phys;
     Some (virt, w) }"

text \<open>The mapper is its level-4 table and the offset of the mapping.\<close>

definition memory_init ::
  "addr_ext \<Rightarrow> ('w, 'g, 'd, 's) boot_ext \<Rightarrow> boot_info \<Rightarrow> 'w \<Rightarrow> ((nat \<times> nat) \<times> 'w) option" where
  "memory_init ax bx bi w = do {
     (level_4_table, w) \<leftarrow> active_level_4_table ax bx bi w;
     off \<leftarrow> virt_new ax (unat (physical_memory_offset bi));
     Some ((level_4_table, off), w) }"

text \<open>
  \<open>KernelHal::share\<close>: the physical address of a buffer, by the page tables (which the x86-64
  crate walks). An unmapped buffer, or a mapper not set up yet, is a panic.
\<close>

definition share ::
  "addr_ext \<Rightarrow> (nat \<times> nat \<Rightarrow> nat \<Rightarrow> nat option) \<Rightarrow> (nat \<times> nat) option \<Rightarrow> nat \<Rightarrow> nat option" where
  "share ax translate_addr mapper buffer = do {
     virt \<leftarrow> virt_new ax buffer;
     m \<leftarrow> mapper;
     translate_addr m virt }"

section \<open>The interrupt table\<close>

datatype handler =
    BreakpointHandler
  | DoubleFaultHandler nat
  | PageFaultHandler
  | GpFaultHandler
  | Com1InterruptHandler
  | TimerInterruptHandler
  | VirtioIrq

definition COM1_VECTOR :: u8 where "COM1_VECTOR = 36"

text \<open>The exceptions by their number in the architecture, and the three interrupts.\<close>

definition idt :: "u8 \<Rightarrow> handler option" where
  "idt v =
     (if v = 3 then Some BreakpointHandler
      else if v = 8 then Some (DoubleFaultHandler DOUBLE_FAULT_IST_INDEX)
      else if v = 14 then Some PageFaultHandler
      else if v = 13 then Some GpFaultHandler
      else if v = COM1_VECTOR then Some Com1InterruptHandler
      else if v = TIMER_VECTOR then Some TimerInterruptHandler
      else if v = VIRTIO_NET_VECTOR then Some VirtioIrq
      else None)"

text \<open>
  The vectors that are routed - 36 for the serial port, the timer's and the network card's -
  lead to their handlers, and the latter two lie outside the range 32 to 55 that the I/O APIC is
  initialized with, in which only the serial port's vector has a handler.
\<close>

lemma routed_vectors_handled:
  "idt 36 = Some Com1InterruptHandler \<and> idt TIMER_VECTOR = Some TimerInterruptHandler
    \<and> idt VIRTIO_NET_VECTOR = Some VirtioIrq
    \<and> list_all (\<lambda>v. v \<noteq> COM1_VECTOR \<longrightarrow> idt v = None) (map of_nat [32..<56])"
  by code_simp

text \<open>A double fault runs on the stack that the task state segment has for it.\<close>

lemma double_fault_switches_stack:
  assumes "segments_ok gx"
  shows "\<exists>i tss. idt 8 = Some (DoubleFaultHandler i) \<and> tss_static gx = Some tss
    \<and> interrupt_stack_table tss ! i = stack_start gx + 20480"
  using double_fault_stack[OF assms] by (auto simp: idt_def COM1_VECTOR_def)

section \<open>Initialization\<close>

text \<open>The statics of the kernel; \<open>OFFSET\<close> is kept by the memory and by the platform.\<close>

record 'c kernel =
  k_mapper :: "(nat \<times> nat) option"
  k_memory :: kernel_memory
  k_platform :: platform
  k_net_up :: bool
  k_rng :: "'c rng_state"
  k_interrupts :: bool

definition init ::
  "addr_ext \<Rightarrow> ('w, 'g, 'd, 's) boot_ext \<Rightarrow> 'w port_io \<Rightarrow> 'w apic_ext \<Rightarrow> ('w, 't, 'i, 'e) dev_ext
     \<Rightarrow> ('w, 'c) rng_ext \<Rightarrow> boot_info \<Rightarrow> 'c kernel \<Rightarrow> 'w \<Rightarrow> ('c kernel \<times> 'w) option" where
  "init ax bx io apic dev rx bi k w = do {
     w \<leftarrow> gdt_init (segments bx) w;
     let w = idt_load bx w;
     (mapper, w) \<leftarrow> (case k_mapper k of
         Some m \<Rightarrow> Some (m, w) | None \<Rightarrow> memory_init ax bx bi w);
     pm \<leftarrow> (case pmm (k_memory k) of
         Some a \<Rightarrow> Some a
       | None \<Rightarrow> ppa_new ax (memory_map bi) (unat (physical_memory_offset bi)));
     let off = physical_memory_offset bi;
     let mem = (k_memory k)\<lparr>pmm := Some pm,
                  phys_offset := call_once (unat off) (phys_offset (k_memory k))\<rparr>;
     let plat = (k_platform k)\<lparr>mem_offset := call_once off (mem_offset (k_platform k))\<rparr>;
     mem \<leftarrow> init_heap ax mem;
     let (madt, w) = find_madt bx w;
     plat \<leftarrow> init_acpi madt plat;
     let (opened, w) = open_tty bx w;
     if \<not> opened then None else do {
     (plat, w) \<leftarrow> init_apic apic plat w;
     w \<leftarrow> init_timer io apic plat w;
     (_, net, w) \<leftarrow> init_virtio_net_pci io apic plat dev (k_net_up k, w);
     (_, rng, w) \<leftarrow> init_entropy io dev rx (k_rng k) w;
     Some (k\<lparr>k_mapper := Some mapper, k_memory := mem, k_platform := plat, k_net_up := net,
             k_rng := rng, k_interrupts := True\<rparr>, w) } }"

text \<open>
  \<open>kernel_main\<close> up to \<open>executor.run()\<close>. Printing the hardware address takes the network
  driver, which panics when there is none.
\<close>

datatype kernel_task = HandleSerial | NetworkTask | TimeTask

definition kernel_main ::
  "addr_ext \<Rightarrow> ('w, 'g, 'd, 's) boot_ext \<Rightarrow> 'w port_io \<Rightarrow> 'w apic_ext \<Rightarrow> ('w, 't, 'i, 'e) dev_ext
     \<Rightarrow> ('w, 'c) rng_ext \<Rightarrow> ('q, u64) queue_ops \<Rightarrow> boot_info \<Rightarrow> 'c kernel \<Rightarrow> u64 \<Rightarrow> 'w
     \<Rightarrow> (('q, kernel_task) executor \<times> 'c kernel \<times> 'w) option" where
  "kernel_main ax bx io apic dev rx ops bi k task_ids w = do {
     (k, w) \<leftarrow> init ax bx io apic dev rx bi k w;
     if \<not> k_net_up k then None else do {
     let ex = executor_new ops;
     let (t, task_ids) = task_new HandleSerial task_ids;
     ex \<leftarrow> spawn ops t ex;
     let (t, task_ids) = task_new NetworkTask task_ids;
     ex \<leftarrow> spawn ops t ex;
     let (t, task_ids) = task_new TimeTask task_ids;
     ex \<leftarrow> spawn ops t ex;
     Some (ex, k, w) } }"

section \<open>The task that reports the time\<close>

text \<open>
  The future of \<open>time_task\<close>: before its first poll and at the head of its loop it is
  \<^const>\<open>None\<close>, and \<open>Some t\<close> while it awaits the timer \<open>t\<close>. A poll runs the loop until a timer is
  pending; a timer that has fired is dropped.
\<close>

partial_function (option) clock_poll ::
  "u64 \<Rightarrow> u64 \<Rightarrow> time_task option \<Rightarrow> u64 \<Rightarrow> timers \<Rightarrow> u64 list
     \<Rightarrow> (time_task option \<times> u64 \<times> timers \<times> u64 list) option" where
  [code]: "clock_poll wk ticks fut counter timers printed =
     (case fut of
        None \<Rightarrow> do {
          now \<leftarrow> now_ms ticks;
          (t, counter) \<leftarrow> time_task_new 1000 ticks counter;
          clock_poll wk ticks (Some t) counter timers (printed @ [now]) }
      | Some t \<Rightarrow> do {
          (r, timers) \<leftarrow> time_task_poll t wk ticks timers;
          case r of
            PollReady \<Rightarrow> clock_poll wk ticks None counter (time_task_drop t timers) printed
          | PollPending \<Rightarrow> Some (Some t, counter, timers, printed) })"

text \<open>
  A number of seconds in which only this task sleeps: a thousand ticks, after which the executor
  takes the wake-up off its queue and polls the task.
\<close>

fun clock_seconds ::
  "('q, u64) queue_ops \<Rightarrow> u64 \<Rightarrow> nat \<Rightarrow> u64 \<Rightarrow> time_task option \<Rightarrow> u64 \<Rightarrow> timers \<Rightarrow> 'q \<Rightarrow> u64 list
     \<Rightarrow> (u64 \<times> time_task option \<times> u64 \<times> timers \<times> 'q \<times> u64 list) option" where
  "clock_seconds ops wk 0 ticks fut counter timers q printed =
     Some (ticks, fut, counter, timers, q, printed)"
| "clock_seconds ops wk (Suc n) ticks fut counter timers q printed = do {
     (ticks, timers, q) \<leftarrow> tick_times ops 1000 ticks timers q;
     let (woken, q) = q_pop ops q;
     if woken \<noteq> Some wk then None else do {
     (fut, counter, timers, printed) \<leftarrow> clock_poll wk ticks fut counter timers printed;
     clock_seconds ops wk n ticks fut counter timers q printed } }"

section \<open>The parts of the start\<close>

text \<open>A machine whose memory holds the bitmap and, apart from it, the sixteen megabytes of the heap.\<close>

definition enough_memory :: "addr_ext \<Rightarrow> region list \<Rightarrow> nat \<Rightarrow> bool" where
  "enough_memory ax rs off \<longleftrightarrow> (\<exists>m home s.
     list_all region_ok rs \<and> max_end rs = Some m
     \<and> find (\<lambda>r. usable r \<and> bitmap_pages_for m * PAGE_SIZE \<le> end_addr r - start_addr r) rs = Some home
     \<and> phys_valid ax (div_ceil m PAGE_SIZE)
     \<and> phys_new ax (start_addr home) = Some (start_addr home)
     \<and> off + start_addr home < 2 ^ 64 \<and> virt_new ax (off + start_addr home) \<noteq> None
     \<and> off + div_ceil m PAGE_SIZE * 4096 < 2 ^ 64
     \<and> s + 4096 \<le> div_ceil m PAGE_SIZE
     \<and> (\<forall>p. s \<le> p \<and> p < s + 4096 \<longrightarrow> (\<exists>r\<in>set rs. usable r \<and> in_region r p)
          \<and> (p < start_addr home div 4096 \<or> start_addr home div 4096 + bitmap_pages_for m \<le> p)))"

lemma init_heap_ok:
  assumes "enough_memory ax rs off"
  shows "\<exists>a. ppa_new ax rs off = Some a \<and> ppa_ok a
    \<and> (\<forall>km. phys_offset km = Some off \<longrightarrow>
         (\<exists>a' s. init_heap ax (km\<lparr>pmm := Some a\<rparr>)
             = Some (km\<lparr>pmm := Some a', heap := Some (off + s * 4096, 4096 * PAGE_SIZE)\<rparr>)
           \<and> ppa_ok a' \<and> (\<forall>p. s \<le> p \<and> p < s + 4096 \<longrightarrow> page_free a p \<and> \<not> page_free a' p)))"
proof -
  obtain m home s where h: "list_all region_ok rs" "max_end rs = Some m"
    "find (\<lambda>r. usable r \<and> bitmap_pages_for m * PAGE_SIZE \<le> end_addr r - start_addr r) rs = Some home"
    "phys_new ax (start_addr home) = Some (start_addr home)" "off + start_addr home < 2 ^ 64"
    "virt_new ax (off + start_addr home) \<noteq> None"
    and v: "phys_valid ax (div_ceil m PAGE_SIZE)" "off + div_ceil m PAGE_SIZE * 4096 < 2 ^ 64"
    and s: "s + 4096 \<le> div_ceil m PAGE_SIZE"
    "\<And>p. s \<le> p \<Longrightarrow> p < s + 4096 \<Longrightarrow> (\<exists>r\<in>set rs. usable r \<and> in_region r p)
       \<and> (p < start_addr home div 4096 \<or> start_addr home div 4096 + bitmap_pages_for m \<le> p)"
    using assms unfolding enough_memory_def by blast
  have "4096 dvd start_addr home" using h(1,3) by (auto simp: find_Some_iff list_all_iff region_ok_def)
  from ppa_new_ok[OF h] obtain a where a: "ppa_new ax rs off = Some a" "ppa_ok a"
    "num_frames a = div_ceil m PAGE_SIZE"
    "page_free a = (\<lambda>p. (\<exists>r\<in>set rs. usable r \<and> in_region r p)
       \<and> p \<notin> {start_addr home div 4096..<start_addr home div 4096 + bitmap_pages_for m})"
    unfolding frames_of_block[OF \<open>4096 dvd start_addr home\<close>] by blast
  have "\<forall>p. s \<le> p \<and> p < s + 4096 \<longrightarrow> page_free a p" using s(2) unfolding a(4) by fastforce
  then have "first_fit (page_free a) (num_frames a) 4096 \<noteq> None"
    using s(1) a(3) first_fit_None[of 4096 "page_free a" "num_frames a"] by auto
  then obtain t where t: "fit a 4096 = Some t" by (auto simp: fit_def)
  note b = fit_bounds[OF t]
  obtain a' where a': "alloc_contiguous_pages ax 4096 a = Some (Some (t * 4096), a')"
    "same_shape a a'" "page_free a' = (\<lambda>p. page_free a p \<and> p \<notin> {t..<t + 4096})"
    using alloc_steps[OF a(2), of ax 4096] t v(1) a(3) by auto
  have "off + t * 4096 < 2 ^ 64" using v(2) b(2) a(3) by linarith
  then have "init_heap ax (km\<lparr>pmm := Some a\<rparr>)
      = Some (km\<lparr>pmm := Some a', heap := Some (off + t * 4096, 4096 * PAGE_SIZE)\<rparr>)"
    if "phys_offset km = Some off" for km
    using a'(1) that by (simp add: init_heap_def u64_add_def)
  moreover have "\<forall>p. t \<le> p \<and> p < t + 4096 \<longrightarrow> page_free a p \<and> \<not> page_free a' p"
    using b(3) a'(3) by simp
  ultimately show ?thesis using a(1,2) same_shape_ok[OF a'(2) a(2)] by blast
qed

text \<open>The walk for the network card cannot panic when the first I/O APIC starts at number 0.\<close>

lemma route_pci_total:
  assumes "io_apics p = Some (info # as)" and "mem_offset p = Some off"
    and "unat off + 2 ^ 33 < 2 ^ 64" and "(ucast (gsi_base info) :: u8) = 0"
  shows "\<exists>w'. route_pci_interrupt apic p gsi vector w = Some w'"
proof -
  have "unat (ucast (phys_addr info) :: u64) < 2 ^ 32"
    using unsigned_less[of "phys_addr info", where 'a = nat]
    by (simp add: unsigned_ucast_eq take_bit_nat_eq_self)
  then have "add_chk (ucast (phys_addr info)) off = Some (ucast (phys_addr info) + off)"
    using assms(3) by (simp add: add_chk_def)
  then show ?thesis using assms by (simp add: route_pci_interrupt_def slice_get_def sub_chk_def)
qed

lemma init_virtio_net_total:
  assumes "io_apics p = Some (info # as)" and "mem_offset p = Some off"
    and "unat off + 2 ^ 33 < 2 ^ 64" and "(ucast (gsi_base info) :: u8) = 0"
  shows "\<exists>r up w'. init_virtio_net_pci io apic p dev s = Some (r, up, w')"
proof -
  have "\<exists>r s'. probe_net io apic p dev df s = Some (r, s')" for df s
    using route_pci_total[OF assms, of apic]
    by (auto simp: probe_net_def fst_let_type split: prod.splits sum.splits) (metis bind.bind_lunit)
  then have "\<exists>r s'. probe_functions (probe_net io apic p dev) pci_functions s = Some (r, s')"
    by (rule probe_total)
  then show ?thesis by (cases s) (auto simp: init_virtio_net_pci_def)
qed

section \<open>The start as a whole\<close>

text \<open>The statics before the start.\<close>

definition cold :: "(nat \<Rightarrow> u8) \<Rightarrow> 'c kernel" where
  "cold mem = \<lparr> k_mapper = None,
     k_memory = \<lparr> pmm = None, phys_offset = None, heap = None, memory = mem \<rparr>,
     k_platform = \<lparr> io_apics = None, isos = None, lapic_base = None, mem_offset = None \<rparr>,
     k_net_up = False,
     k_rng = \<lparr> virtio_rng_up = False, rng_csprng = None, rng_mode = None, rng_fallback = 0 \<rparr>,
     k_interrupts = False \<rparr>"

text \<open>
  What the start asks of the machine, in the worlds it passes through: enough memory; a page table
  whose address, with the offset added, is canonical; tables with an I/O APIC that starts at number
  0; a serial port that opens; and, once the APICs are set up, timers that run as the calibration
  expects.
\<close>

definition cold_platform :: "u64 \<Rightarrow> platform" where
  "cold_platform off = \<lparr> io_apics = None, isos = None, lapic_base = None, mem_offset = Some off \<rparr>"

definition machine_ok ::
  "addr_ext \<Rightarrow> ('w, 'g, 'd, 's) boot_ext \<Rightarrow> 'w port_io \<Rightarrow> 'w apic_ext \<Rightarrow> boot_info \<Rightarrow> 'w \<Rightarrow> bool" where
  "machine_ok ax bx io apic bi w \<longleftrightarrow>
     (let off = physical_memory_offset bi in
      segments_ok (segments bx)
      \<and> enough_memory ax (memory_map bi) (unat off) \<and> unat off + 2 ^ 33 < 2 ^ 64
      \<and> (\<forall>w0. gdt_init (segments bx) w = Some w0 \<longrightarrow>
          (let (phys, w1) = read_cr3 bx (idt_load bx w0); (madt, w2) = find_madt bx w1;
               (opened, w3) = open_tty bx w2
           in (\<exists>v. virt_new ax (unat off) = Some v \<and> virt_add bx v phys \<noteq> None)
            \<and> (\<exists>es info. madt = Some es \<and> first_io_apic es = Some info \<and> (ucast (gsi_base info) :: u8) = 0)
            \<and> opened
            \<and> (\<forall>p1 p2 w4. init_acpi madt (cold_platform off) = Some p1 \<and> init_apic apic p1 w3 = Some (p2, w4)
                 \<longrightarrow> timers_run io apic (0xFEE00000 + off) w4))))"

lemma first_io_apic_head:
  assumes "init_acpi (Some es) p0 = Some p" and "io_apics p0 = None" and "isos p0 = None"
    and "first_io_apic es = Some info"
  shows "\<exists>as. io_apics p = Some (info # as)"
proof -
  obtain xs where "io_apics p = Some xs" "slice_get 0 xs = Some info"
    using init_acpi_tables(2)[OF assms(1-3)] assms(4) by auto
  then show ?thesis by (cases xs) (auto simp: slice_get_def)
qed

lemma platform_starts:
  assumes "first_io_apic es = Some info" and "(ucast (gsi_base info) :: u8) = 0"
    and off: "unat off + 2 ^ 33 < 2 ^ 64"
    and timers: "\<forall>p1 p2 w4. init_acpi (Some es) (cold_platform off) = Some p1
      \<and> init_apic apic p1 w = Some (p2, w4) \<longrightarrow> timers_run io apic (0xFEE00000 + off) w4"
  shows "\<exists>p1 p2 w1 w2 r net w3. init_acpi (Some es) (cold_platform off) = Some p1
    \<and> init_apic apic p1 w = Some (p2, w1) \<and> init_timer io apic p2 w1 = Some w2
    \<and> init_virtio_net_pci io apic p2 dev (False, w2) = Some (r, net, w3)
    \<and> lapic_base p2 = Some (0xFEE00000 + off)"
proof -
  obtain p1 where p1: "init_acpi (Some es) (cold_platform off) = Some p1"
    by (cases "collect_madt es [] []") (auto simp: init_acpi_def)
  have p0: "io_apics (cold_platform off) = None" "isos (cold_platform off) = None"
    "lapic_base (cold_platform off) = None" "mem_offset (cold_platform off) = Some off"
    by (simp_all add: cold_platform_def)
  obtain as where as: "io_apics p1 = Some (info # as)"
    using first_io_apic_head[OF p1 p0(1,2) assms(1)] by blast
  let ?p2 = "p1\<lparr>lapic_base := Some (0xFEE00000 + off)\<rparr>"
  obtain w1 where w1: "init_apic apic p1 w = Some (?p2, w1)"
    using init_apic_outcome(2)[OF p1 p0 off assms(1), of apic w] assms(2) by auto
  obtain u where u: "pit_expires io (timers_programmed io apic (0xFEE00000 + off) w1) u"
    "10 \<le> elapsed_at apic (0xFEE00000 + off) u" "elapsed_at apic (0xFEE00000 + off) u \<le> 42949672"
    using timers p1 w1 unfolding timers_run_def by blast
  have "unat (0xFEE00000 + off) + 0x3E0 < 2 ^ 64" using off by (simp add: unat_word_ariths)
  then obtain w2 where w2: "init_timer io apic ?p2 w1 = Some w2"
    using init_timer_outcome[OF _ _ u, of ?p2] by auto
  have "io_apics ?p2 = Some (info # as)" "mem_offset ?p2 = Some off"
    using as init_acpi_tables(4)[OF p1 p0(1,2)] p0(4) by simp_all
  from init_virtio_net_total[OF this off assms(2), of io apic dev "(False, w2)"]
  show ?thesis using p1 w1 w2 by auto
qed

text \<open>The machine's promises, one by one, with the worlds the start passes through.\<close>

lemma machine_ok_worlds:
  assumes "machine_ok ax bx io apic bi w"
  obtains w0 phys w1 es info w2 w3 v t where "gdt_init (segments bx) w = Some w0"
    and "read_cr3 bx (idt_load bx w0) = (phys, w1)" and "find_madt bx w1 = (Some es, w2)"
    and "open_tty bx w2 = (True, w3)"
    and "virt_new ax (unat (physical_memory_offset bi)) = Some v" and "virt_add bx v phys = Some t"
    and "first_io_apic es = Some info" and "(ucast (gsi_base info) :: u8) = 0"
    and "\<forall>p1 p2 w4. init_acpi (Some es) (cold_platform (physical_memory_offset bi)) = Some p1
      \<and> init_apic apic p1 w3 = Some (p2, w4)
      \<longrightarrow> timers_run io apic (0xFEE00000 + physical_memory_offset bi) w4"
proof -
  note m = assms[unfolded machine_ok_def Let_def]
  obtain w0 where w0: "gdt_init (segments bx) w = Some w0"
    using gdt_init_loads[of "segments bx" w] m by blast
  obtain phys w1 madt w2 opened w3 where x: "read_cr3 bx (idt_load bx w0) = (phys, w1)"
    "find_madt bx w1 = (madt, w2)" "open_tty bx w2 = (opened, w3)"
    by (metis prod.collapse)
  have c: "\<exists>v. virt_new ax (unat (physical_memory_offset bi)) = Some v \<and> virt_add bx v phys \<noteq> None"
    "\<exists>es info. madt = Some es \<and> first_io_apic es = Some info \<and> (ucast (gsi_base info) :: u8) = 0" opened
    "\<forall>p1 p2 w4. init_acpi madt (cold_platform (physical_memory_offset bi)) = Some p1
      \<and> init_apic apic p1 w3 = Some (p2, w4)
      \<longrightarrow> timers_run io apic (0xFEE00000 + physical_memory_offset bi) w4"
    using m w0 x by auto
  obtain v t where v: "virt_new ax (unat (physical_memory_offset bi)) = Some v" "virt_add bx v phys = Some t"
    using c(1) by blast
  obtain es info where es: "madt = Some es" "first_io_apic es = Some info" "(ucast (gsi_base info) :: u8) = 0"
    using c(2) by blast
  show thesis
    by (rule that[OF w0 x(1) _ _ v es(2,3)]) (use x(2,3) es(1) c(3,4) in auto)
qed

lemma init_succeeds:
  assumes "machine_ok ax bx io apic bi w"
  shows "\<exists>k' w' s. init ax bx io apic dev rx bi (cold mem) w = Some (k', w') \<and> k_interrupts k'
    \<and> heap (k_memory k') = Some (unat (physical_memory_offset bi) + s * 4096, 4096 * PAGE_SIZE)
    \<and> (\<exists>a. pmm (k_memory k') = Some a \<and> ppa_ok a \<and> (\<forall>p. s \<le> p \<and> p < s + 4096 \<longrightarrow> \<not> page_free a p))
    \<and> lapic_base (k_platform k') = Some (0xFEE00000 + physical_memory_offset bi)
    \<and> rng_ok (k_rng k') \<and> (entropy_is_cryptographic (k_rng k') \<longleftrightarrow> rng_csprng (k_rng k') \<noteq> None)"
proof -
  let ?off = "physical_memory_offset bi"
  note m = assms[unfolded machine_ok_def Let_def]
  obtain w0 phys w1 es info w2 w3 v t where x: "gdt_init (segments bx) w = Some w0"
    "read_cr3 bx (idt_load bx w0) = (phys, w1)" "find_madt bx w1 = (Some es, w2)" "open_tty bx w2 = (True, w3)"
    "virt_new ax (unat ?off) = Some v" "virt_add bx v phys = Some t"
    and es: "first_io_apic es = Some info" "(ucast (gsi_base info) :: u8) = 0"
    and timers: "\<forall>p1 p2 w4. init_acpi (Some es) (cold_platform ?off) = Some p1
      \<and> init_apic apic p1 w3 = Some (p2, w4) \<longrightarrow> timers_run io apic (0xFEE00000 + ?off) w4"
    by (rule machine_ok_worlds[OF assms])
  then have mi: "memory_init ax bx bi (idt_load bx w0) = Some ((t, v), w1)"
    by (simp add: memory_init_def active_level_4_table_def)
  let ?km = "\<lparr> pmm = None, phys_offset = Some (unat ?off), heap = None, memory = mem \<rparr>"
  have "enough_memory ax (memory_map bi) (unat ?off)" using m by blast
  from init_heap_ok[OF this] obtain a where a: "ppa_new ax (memory_map bi) (unat ?off) = Some a"
    and "\<forall>km. phys_offset km = Some (unat ?off) \<longrightarrow>
      (\<exists>a' s. init_heap ax (km\<lparr>pmm := Some a\<rparr>)
          = Some (km\<lparr>pmm := Some a', heap := Some (unat ?off + s * 4096, 4096 * PAGE_SIZE)\<rparr>)
        \<and> ppa_ok a' \<and> (\<forall>p. s \<le> p \<and> p < s + 4096 \<longrightarrow> page_free a p \<and> \<not> page_free a' p))"
    by (elim exE conjE)
  from this(2)[rule_format, of ?km] obtain a' s where h: "init_heap ax (?km\<lparr>pmm := Some a\<rparr>)
      = Some (?km\<lparr>pmm := Some a', heap := Some (unat ?off + s * 4096, 4096 * PAGE_SIZE)\<rparr>)"
    "ppa_ok a'" "\<forall>p. s \<le> p \<and> p < s + 4096 \<longrightarrow> \<not> page_free a' p"
    by auto
  have off: "unat ?off + 2 ^ 33 < 2 ^ 64" using m by blast
  obtain p1 p2 u1 u2 r net u3 where p: "init_acpi (Some es) (cold_platform ?off) = Some p1"
    "init_apic apic p1 w3 = Some (p2, u1)" "init_timer io apic p2 u1 = Some u2"
    "init_virtio_net_pci io apic p2 dev (False, u2) = Some (r, net, u3)"
    "lapic_base p2 = Some (0xFEE00000 + ?off)"
    using platform_starts[OF es off timers, of dev] by blast
  let ?st = "\<lparr> virtio_rng_up = False, rng_csprng = None, rng_mode = None, rng_fallback = 0 \<rparr>"
  obtain mode st w4 where e: "init_entropy io dev rx ?st u3 = Some (mode, st, w4)" "rng_ok st"
    "entropy_is_cryptographic st \<longleftrightarrow> rng_csprng st \<noteq> None"
    using init_entropy_outcome[of ?st io dev rx u3] by auto
  show ?thesis
    using x(1-4) mi a h p e by (simp add: init_def cold_def cold_platform_def call_once_def Let_def)
qed

lemma spawn_ok:
  assumes "fifo ops 100 content" and "bt_get (tasks ex) (task_id t) = None"
    and "length (content (task_queue ex)) < 100"
  shows "\<exists>q. spawn ops t ex = Some (ex\<lparr>tasks := bt_insert (task_id t) t (tasks ex), task_queue := q\<rparr>)
    \<and> content q = content (task_queue ex) @ [task_id t]"
  using fifo_push(1)[OF assms(1,3), of "task_id t"] assms(2) by (auto simp: spawn_def wake_task_def)

lemma kernel_main_spawns:
  fixes ops :: "('q, u64) queue_ops"
  assumes "fifo ops 100 content" and "init ax bx io apic dev rx bi k w = Some (k', w')"
  shows "if k_net_up k'
    then \<exists>ex. kernel_main ax bx io apic dev rx ops bi k 0 w = Some (ex, k', w')
      \<and> content (task_queue ex) = [0, 1, 2] \<and> executor_ok ex \<and> waker_cache ex = []
      \<and> bt_entries (tasks ex) = [(0, \<lparr> task_id = 0, future = HandleSerial \<rparr>),
          (1, \<lparr> task_id = 1, future = NetworkTask \<rparr>), (2, \<lparr> task_id = 2, future = TimeTask \<rparr>)]
    else kernel_main ax bx io apic dev rx ops bi k 0 w = None"
proof -
  let ?t = "\<lambda>i f. \<lparr> task_id = i, future = f \<rparr>"
  let ?ex = "executor_new ops :: ('q, kernel_task) executor"
  have c0: "content (task_queue ?ex) = []" "tasks ?ex = []"
    using assms(1) by (simp_all add: executor_new_def fifo_def)
  obtain q1 where q1: "spawn ops (?t 0 HandleSerial) ?ex
      = Some (?ex\<lparr>tasks := [(0, ?t 0 HandleSerial)], task_queue := q1\<rparr>)" "content q1 = [0]"
    using spawn_ok[OF assms(1), of ?ex "?t 0 HandleSerial"] c0 by auto
  let ?ex1 = "?ex\<lparr>tasks := [(0, ?t 0 HandleSerial)], task_queue := q1\<rparr>"
  obtain q2 where q2: "spawn ops (?t 1 NetworkTask) ?ex1
      = Some (?ex1\<lparr>tasks := [(0, ?t 0 HandleSerial), (1, ?t 1 NetworkTask)], task_queue := q2\<rparr>)"
    "content q2 = [0, 1]"
    using spawn_ok[OF assms(1), of ?ex1 "?t 1 NetworkTask"] q1(2) by auto
  let ?ex2 = "?ex1\<lparr>tasks := [(0, ?t 0 HandleSerial), (1, ?t 1 NetworkTask)], task_queue := q2\<rparr>"
  obtain q3 where q3: "spawn ops (?t 2 TimeTask) ?ex2
      = Some (?ex2\<lparr>tasks := [(0, ?t 0 HandleSerial), (1, ?t 1 NetworkTask), (2, ?t 2 TimeTask)],
          task_queue := q3\<rparr>)" "content q3 = [0, 1, 2]"
    using spawn_ok[OF assms(1), of ?ex2 "?t 2 TimeTask"] q2(2) by auto
  have "kernel_main ax bx io apic dev rx ops bi k 0 w = (if k_net_up k'
      then Some (?ex2\<lparr>tasks := [(0, ?t 0 HandleSerial), (1, ?t 1 NetworkTask), (2, ?t 2 TimeTask)],
          task_queue := q3\<rparr>, k', w') else None)"
    using assms(2) q1(1) q2(1) q3(1) by (simp add: kernel_main_def task_new_def task_id_new_def)
  moreover have "executor_ok (?ex2\<lparr>tasks := [(0, ?t 0 HandleSerial), (1, ?t 1 NetworkTask), (2, ?t 2 TimeTask)],
      task_queue := q3\<rparr>)"
    by (auto simp: executor_ok_def executor_new_def bt_ok_def)
  ultimately show ?thesis using q3(2) by (auto simp: bt_entries_def executor_new_def)
qed

section \<open>Seconds\<close>

text \<open>At the head of its loop the task reports the time and sleeps until a second later.\<close>

lemma clock_poll_reports:
  assumes "(unat ticks + 1000) * 1000 < 2 ^ 64"
  shows "clock_poll wk ticks None counter [] printed
    = Some (Some \<lparr> deadline_ms = ticks + 1000, sleeper_id = counter \<rparr>, counter + 1,
        [((ticks + 1000, counter), wk)], printed @ [ticks])"
proof -
  have now: "now_ms ticks = Some ticks" using assms by (intro now_ms_ticks) simp
  then have "time_task_new 1000 ticks counter
      = Some (\<lparr> deadline_ms = ticks + 1000, sleeper_id = counter \<rparr>, counter + 1)"
    using assms by (simp add: time_task_new_def add_chk_def next_id_def)
  moreover have "\<not> ticks + 1000 \<le> ticks"
    using assms by (simp add: word_le_nat_alt unat_word_ariths)
  ultimately show ?thesis
    by (subst clock_poll.simps, simp add: now, subst clock_poll.simps)
      (simp add: now time_task_poll_def)
qed

text \<open>Polled at its deadline it finds its timer fired, drops it and reports again.\<close>

lemma clock_poll_again:
  assumes "(unat ticks + 1000) * 1000 < 2 ^ 64" and "deadline_ms t = ticks"
  shows "clock_poll wk ticks (Some t) counter [] printed = clock_poll wk ticks None counter [] printed"
proof -
  have "now_ms ticks = Some ticks" using assms(1) by (intro now_ms_ticks) simp
  then show ?thesis
    using assms(2) by (subst clock_poll.simps) (simp add: time_task_poll_def time_task_drop_def)
qed

lemma clock_second:
  assumes "fifo ops 100 content" and "content q = []" and "(unat ticks + 2000) * 1000 < 2 ^ 64"
  shows "\<exists>q1 q2. tick_times ops 1000 ticks [((ticks + 1000, c), wk)] q = Some (ticks + 1000, [], q1)
    \<and> q_pop ops q1 = (Some wk, q2) \<and> content q2 = []"
proof -
  let ?t = "[((ticks + 1000, c), wk)]"
  have "bt_ok ?t" by simp
  from tick_times_due[OF assms(1) this, of q ticks 1000] assms(2,3)
  obtain t' q' where r: "tick_times ops 1000 ticks ?t q = Some (ticks + 1000, t', q')"
    "length (content q') + length t' = 1"
    and "\<forall>k v. bt_get ?t k = Some v \<and> fst k \<le> ticks + 1000 \<longrightarrow> v \<in> set (content q')"
    by auto
  from this(3)[rule_format, of "(ticks + 1000, c)" wk] have "wk \<in> set (content q')" by simp
  note r = r this
  then have "t' = []" "content q' = [wk]" by (cases t'; cases "content q'"; simp)+
  then show ?thesis using r(1) fifo_pop(2)[OF assms(1), of q' wk "[]"] by auto
qed

lemma clock_seconds_reports:
  assumes "fifo ops 100 content" and "content q = []" and "(unat ticks + 1000 * (n + 1)) * 1000 < 2 ^ 64"
  shows "\<exists>q'. clock_seconds ops wk n ticks (Some \<lparr> deadline_ms = ticks + 1000, sleeper_id = c \<rparr>) (c + 1)
      [((ticks + 1000, c), wk)] q printed
    = Some (ticks + of_nat (1000 * n),
        Some \<lparr> deadline_ms = ticks + of_nat (1000 * (n + 1)), sleeper_id = c + of_nat n \<rparr>,
        c + of_nat (n + 1), [((ticks + of_nat (1000 * (n + 1)), c + of_nat n), wk)], q',
        printed @ map (\<lambda>i. ticks + of_nat (1000 * (i + 1))) [0..<n]) \<and> content q' = []"
  using assms(2,3)
proof (induction n arbitrary: ticks c q printed)
  case (Suc n)
  have b: "(unat ticks + 2000) * 1000 < 2 ^ 64" using Suc.prems(2) by simp
  then have u: "unat (ticks + 1000) = unat ticks + 1000" by (simp add: unat_word_ariths)
  have b1: "(unat (ticks + 1000) + 1000) * 1000 < 2 ^ 64" using b u by simp
  obtain q1 q2 where q: "tick_times ops 1000 ticks [((ticks + 1000, c), wk)] q = Some (ticks + 1000, [], q1)"
    "q_pop ops q1 = (Some wk, q2)" "content q2 = []"
    using clock_second[OF assms(1) Suc.prems(1) b] by blast
  have p: "clock_poll wk (ticks + 1000) (Some \<lparr> deadline_ms = ticks + 1000, sleeper_id = c \<rparr>) (c + 1) [] printed
      = Some (Some \<lparr> deadline_ms = ticks + 1000 + 1000, sleeper_id = c + 1 \<rparr>, c + 1 + 1,
          [((ticks + 1000 + 1000, c + 1), wk)], printed @ [ticks + 1000])"
    using clock_poll_again[OF b1] clock_poll_reports[OF b1] by simp
  have "(unat (ticks + 1000) + 1000 * (n + 1)) * 1000 < 2 ^ 64" using Suc.prems(2) u by simp
  from Suc.IH[OF q(3) this, of "c + 1" "printed @ [ticks + 1000]"] q(1,2) p
  show ?case by (simp add: algebra_simps map_upt_Suc del: upt_Suc)
qed (simp add: algebra_simps)

section \<open>Properties\<close>

text \<open>C11: the kernel starts. On a machine with enough memory, a page table at a canonical
  address, an I/O APIC whose interrupts start at number 0, a serial port that opens and timers that
  run once they are programmed - each in the world the start has reached by then - initialization
  returns: the heap's sixteen megabytes are taken from the page
  allocator, the local APIC is mapped, the entropy mode is truthful, and interrupts are enabled.
  If a network card came up, the serial, network and time tasks are then spawned under the ids
  0, 1 and 2 and queued in that order; without one the kernel panics.\<close>

theorem kernel_main_starts_tasks:
  fixes ops :: "('q, u64) queue_ops"
  assumes "machine_ok ax bx io apic bi w" and "fifo ops 100 content"
  shows "\<exists>k' w' s. init ax bx io apic dev rx bi (cold mem) w = Some (k', w') \<and> k_interrupts k'
    \<and> heap (k_memory k') = Some (unat (physical_memory_offset bi) + s * 4096, 4096 * PAGE_SIZE)
    \<and> (\<exists>a. pmm (k_memory k') = Some a \<and> (\<forall>p. s \<le> p \<and> p < s + 4096 \<longrightarrow> \<not> page_free a p))
    \<and> lapic_base (k_platform k') = Some (0xFEE00000 + physical_memory_offset bi)
    \<and> (entropy_is_cryptographic (k_rng k') \<longleftrightarrow> rng_csprng (k_rng k') \<noteq> None)
    \<and> (if k_net_up k'
       then \<exists>ex. kernel_main ax bx io apic dev rx ops bi (cold mem) 0 w = Some (ex, k', w')
         \<and> content (task_queue ex) = [0, 1, 2]
         \<and> bt_entries (tasks ex) = [(0, \<lparr> task_id = 0, future = HandleSerial \<rparr>),
             (1, \<lparr> task_id = 1, future = NetworkTask \<rparr>), (2, \<lparr> task_id = 2, future = TimeTask \<rparr>)]
       else kernel_main ax bx io apic dev rx ops bi (cold mem) 0 w = None)"
proof -
  obtain k' w' s where i: "init ax bx io apic dev rx bi (cold mem) w = Some (k', w')"
    and r: "k_interrupts k'"
    "heap (k_memory k') = Some (unat (physical_memory_offset bi) + s * 4096, 4096 * PAGE_SIZE)"
    "\<exists>a. pmm (k_memory k') = Some a \<and> (\<forall>p. s \<le> p \<and> p < s + 4096 \<longrightarrow> \<not> page_free a p)"
    "lapic_base (k_platform k') = Some (0xFEE00000 + physical_memory_offset bi)"
    "entropy_is_cryptographic (k_rng k') \<longleftrightarrow> rng_csprng (k_rng k') \<noteq> None"
    using init_succeeds[OF assms(1), of dev rx mem] by blast
  with kernel_main_spawns[OF assms(2) i] show ?thesis by (auto split: if_splits)
qed

text \<open>
  A machine of 32 megabytes with one network card and the two timers. A sum of addresses that is
  not canonical panics.
\<close>

definition big_map :: "region list" where
  "big_map = [\<lparr> usable = False, start_addr = 0, end_addr = 0x100000 \<rparr>,
              \<lparr> usable = True, start_addr = 0x100000, end_addr = 0x2000000 \<rparr>]"

definition canonical_add :: "nat \<Rightarrow> nat \<Rightarrow> nat option" where
  "canonical_add a b = do { x \<leftarrow> u64_add a b; virt_new plain_addrs x }"

definition pc_boot :: "(pc_world, nat list, nat, nat) boot_ext" where
  "pc_boot = \<lparr> read_cr3 = \<lambda>w. (0x1000, w), virt_add = canonical_add,
     segments = \<lparr> tss_new = \<lparr> interrupt_stack_table = replicate 7 0 \<rparr>, gdt_new = [0],
       gdt_append = \<lambda>d g. if length g < 8 then Some (8 * length g, g @ [d]) else None,
       kernel_code_segment = 1, tss_segment = \<lambda>_. 2, virt_add_u64 = canonical_add,
       stack_start = 0x8000, gdt_load = \<lambda>_ w. w, cs_set_reg = \<lambda>_ w. w, load_tss = \<lambda>_ w. w \<rparr>,
     idt_load = \<lambda>w. w, find_madt = \<lambda>w. (Some [MadtIoApic 0 0xFEC00000 0], w),
     open_tty = \<lambda>w. (True, w) \<rparr>"

definition pc_card :: "(pc_world, unit, unit, unit) dev_ext" where
  "pc_card = \<lparr> device_type_of = \<lambda>i. if vendor_id i = 0x1AF4 then Some DeviceNetwork else None,
     transport_new = \<lambda>_ w. (Inr (), w), net_new = \<lambda>_ _ w. (Inr (), w), net_enable_interrupts = \<lambda>w. w,
     rng_new = \<lambda>_ w. (Inr (), w), rng_enable_interrupts = \<lambda>w. w \<rparr>"

definition pc_info :: boot_info where
  "pc_info = \<lparr> memory_map = big_map, physical_memory_offset = 0x10000000 \<rparr>"

definition pc_on :: pc_world where
  "pc_on = \<lparr> cfg_addr = 0, pit_left = None, lapic_count = 0 \<rparr>"

abbreviation pc_local_apic :: "pc_world apic_ext" where
  "pc_local_apic \<equiv> pc_apic (0xFEE00000 + 0x10000000)"

lemma pc_machine_ok: "machine_ok plain_addrs pc_boot pc_ports pc_local_apic pc_info pc_on"
proof -
  have m: "enough_memory plain_addrs big_map 0x10000000"
    unfolding enough_memory_def
    by (rule exI[of _ "0x2000000"], rule exI[of _ "big_map ! 1"], rule exI[of _ "0x101"])
      (auto simp: big_map_def region_ok_def bitmap_pages_for_def div_ceil_def PAGE_SIZE_def
        phys_valid_def plain_addrs_def in_region_def)
  have s: "segments_ok (segments pc_boot)"
    by (auto simp: segments_ok_def pc_boot_def canonical_add_def u64_add_def plain_addrs_def STACK_SIZE_def
        PAGE_SIZE_def)
  show ?thesis
    unfolding machine_ok_def Let_def pc_info_def boot_info.simps
    using m s pc_timers_run[of "0xFEE00000 + 0x10000000"]
    by (auto simp: pc_boot_def canonical_add_def u64_add_def plain_addrs_def)
qed

lemma pc_card_up:
  assumes "init_virtio_net_pci pc_ports apic p pc_card s = Some (r, up, w')"
  shows up
proof (cases "fst s")
  case True
  then show ?thesis using assms by (cases s) (simp add: init_virtio_net_pci_def)
next
  case False
  let ?df = "\<lparr> df_bus = 0, df_device = 0, df_function = 0 \<rparr>"
  obtain dfs where f: "pci_functions = ?df # dfs" using pci_functions_first by blast
  obtain v where v: "probe_functions (probe_net pc_ports apic p pc_card) pci_functions s = Some (v, up, w')"
    using assms False by (cases s) (auto simp: init_virtio_net_pci_def split: bind_splits)
  have a: "pci_config_address 0 0 0 0 = 0x80000000" by (simp add: pci_config_address_def)
  have "fst (virtio_type_at pc_ports (device_type_of pc_card) 0 0 0 w) = Some DeviceNetwork" for w
    by (simp add: virtio_type_at_def pci_read_u32_def pc_ports_def pc_card_def a split_def Let_def)
  moreover have drivers: "transport_new pc_card df w = (Inr (), w)" "net_new pc_card t n w = (Inr (), w)" for df t n w
    by (simp_all add: pc_card_def)
  ultimately have "r1 = Some ()" if "probe_net pc_ports apic p pc_card ?df s = Some (r1, s')" for r1 s'
    using that
    by (cases s) (auto simp: probe_net_def fst_let_type init_net_from_df_def drivers split_def Let_def
        split: bind_splits)
  then have "v \<noteq> None" using v unfolding f by (fastforce split: bind_splits option.splits)
  then show ?thesis using net_probe.walk_installs[OF v] by simp
qed

lemma init_net_up:
  assumes "init ax bx io apic dev rx bi k w = Some (k', w')"
  shows "\<exists>p s r w1. init_virtio_net_pci io apic p dev s = Some (r, k_net_up k', w1)"
  using assms by (auto simp: init_def Let_def split: if_splits bind_splits option.splits prod.splits) blast+

definition pc_rng :: "(pc_world, bytes) rng_ext" where
  "pc_rng = \<lparr> request_entropy = \<lambda>w. ((None, []), w), cpu_has_rdrand = False,
     rdrand64_step = \<lambda>w. ((False, 0), w), rdtsc = \<lambda>w. (0, w),
     chacha_from_seed = id, chacha_fill_bytes = \<lambda>n c. (take n (c @ replicate n 0), c) \<rparr>"

theorem kernel_main_starts_tasks_witness:
  "\<exists>ex k' w'. kernel_main plain_addrs pc_boot pc_ports pc_local_apic pc_card pc_rng list_queue pc_info
      (cold (\<lambda>_. 0)) 0 pc_on
    = Some (ex, k', w') \<and> task_queue ex = [0, 1, 2] \<and> k_interrupts k'"
proof -
  obtain k' w' where i: "init plain_addrs pc_boot pc_ports pc_local_apic pc_card pc_rng pc_info
      (cold (\<lambda>_. 0)) pc_on = Some (k', w')" "k_interrupts k'"
    and m: "if k_net_up k'
       then \<exists>ex. kernel_main plain_addrs pc_boot pc_ports pc_local_apic pc_card pc_rng list_queue pc_info
           (cold (\<lambda>_. 0)) 0 pc_on = Some (ex, k', w') \<and> task_queue ex = [0, 1, 2]
       else True"
    using kernel_main_starts_tasks[OF pc_machine_ok list_queue_fifo, of pc_card pc_rng "\<lambda>_. 0"]
    by (auto split: if_splits)
  have "k_net_up k'" using init_net_up[OF i(1)] pc_card_up by blast
  then show ?thesis using m i(2) by auto
qed

text \<open>C28: the time task reports every second. Started at some tick it reports that time at once;
  after every thousandth tick it is woken - its id is what the tick has queued - and reports
  again, so after \<open>n\<close> seconds it has reported exactly the times of \<open>n + 1\<close> seconds and sleeps
  until the next.\<close>

theorem time_task_reports_seconds:
  assumes "fifo ops 100 content" and "content q = []" and "(unat ticks + 1000 * (n + 1)) * 1000 < 2 ^ 64"
  shows "\<exists>q'. do { (fut, counter, timers, printed) \<leftarrow> clock_poll wk ticks None counter [] [];
        clock_seconds ops wk n ticks fut counter timers q printed }
    = Some (ticks + of_nat (1000 * n),
        Some \<lparr> deadline_ms = ticks + of_nat (1000 * (n + 1)), sleeper_id = counter + of_nat n \<rparr>,
        counter + of_nat (n + 1),
        [((ticks + of_nat (1000 * (n + 1)), counter + of_nat n), wk)], q',
        map (\<lambda>i. ticks + of_nat (1000 * i)) [0..<n + 1]) \<and> content q' = []"
proof -
  have b: "(unat ticks + 1000) * 1000 < 2 ^ 64" using assms(3) by simp
  from clock_seconds_reports[OF assms, of wk counter "[ticks]"] show ?thesis
    by (simp add: clock_poll_reports[OF b] map_upt_Suc del: upt_Suc)
qed

theorem time_task_reports_seconds_witness:
  "\<exists>q'. do { (fut, counter, timers, printed) \<leftarrow> clock_poll 2 7 None 0 [] [];
        clock_seconds list_queue 2 3 7 fut counter timers [] printed }
    = Some (3007, Some \<lparr> deadline_ms = 4007, sleeper_id = 3 \<rparr>, 4, [((4007, 3), 2)], q',
        [7, 1007, 2007, 3007])"
  using time_task_reports_seconds[OF list_queue_fifo, of "[]" 7 3 2 0]
  by (simp add: upt_rec)

end
