(* ===== verification/Key_Erasure.thy ===== *)
theory Key_Erasure
  imports Rng
begin

text \<open>
  What is left of key material in the buffers of \<open>kernel/src/rng.rs\<close> when its functions return.
  \<open>Rng\<close> gives the results; here the same functions are followed with the contents of their named
  locals, so that what \<open>zeroize\<close> overwrites can be told from what it does not reach. An array of
  bytes is \<open>Copy\<close>: binding, passing or collecting it makes another copy.
\<close>

section \<open>Locals\<close>

definition zeroize :: "bytes \<Rightarrow> bytes" where
  "zeroize buf = map (\<lambda>_. 0) buf"

definition erased :: "bytes \<Rightarrow> bool" where
  "erased buf \<longleftrightarrow> list_all (\<lambda>b. b = 0) buf"

lemma erased_zeroize [simp]: "erased (zeroize buf)"
  by (simp add: erased_def zeroize_def list_all_iff)

lemma erased_fresh [simp]: "erased []" "erased (replicate n 0)"
  by (simp_all add: erased_def list_all_iff)

text \<open>The locals of \<open>gather_seed\<close>: the two results, the loop variable and the seed.\<close>

record gather_locals =
  l_virtio :: "bytes option"
  l_rdrand :: "bytes option"
  l_source :: bytes
  l_seed :: bytes

fun stir :: "bytes list \<Rightarrow> gather_locals \<Rightarrow> gather_locals" where
  "stir [] l = l"
| "stir (source # sources) l =
     stir sources (l\<lparr>l_seed := xor_into (l_seed l) source, l_source := zeroize source\<rparr>)"

definition gather_seed_locals ::
  "('w, 'c) rng_ext \<Rightarrow> bool \<Rightarrow> 'w \<Rightarrow> (bytes \<times> entropy_mode) option \<times> gather_locals \<times> 'w" where
  "gather_seed_locals ext up w =
     (let (virtio, w) = virtio_bytes ext up w;
          (rdrand, w) = rdrand_bytes ext w;
          l = \<lparr> l_virtio = virtio, l_rdrand = rdrand, l_source = [], l_seed = replicate 32 0 \<rparr>;
          stirred = stir ((case virtio of None \<Rightarrow> [] | Some s \<Rightarrow> [s])
            @ (case rdrand of None \<Rightarrow> [] | Some s \<Rightarrow> [s])) l
      in (case (virtio \<noteq> None, rdrand \<noteq> None) of
            (True, True) \<Rightarrow> (Some (l_seed stirred, VirtioAndRdrand), stirred, w)
          | (True, False) \<Rightarrow> (Some (l_seed stirred, Virtio), stirred, w)
          | (False, True) \<Rightarrow> (Some (l_seed stirred, Rdrand), stirred, w)
          | (False, False) \<Rightarrow> (None, l, w)))"

text \<open>\<open>Csprng::new\<close>, with its own copy of the seed.\<close>

definition csprng_new_locals :: "('w, 'c) rng_ext \<Rightarrow> bytes \<Rightarrow> 'c csprng \<times> bytes" where
  "csprng_new_locals ext seed =
     (let inner = chacha_from_seed ext seed; seed = zeroize seed
      in (\<lparr> cs_inner = inner, cs_buf = replicate 32 0, cs_buf_pos = 32, cs_blocks = 0 \<rparr>, seed))"

text \<open>
  The memory of a refill: its named locals, where \<open>fresh\<close> is bound only when new entropy was
  gathered, the temporary that \<open>if let Some((mut fresh, _)) = gather_seed()\<close> matches, from which
  \<open>fresh\<close> is copied, and the frame that \<open>gather_seed\<close> leaves behind.
\<close>

record refill_locals =
  r_block :: bytes
  r_next_seed :: bytes
  r_fresh :: bytes
  r_scrutinee :: "bytes option"
  r_gather :: "gather_locals option"

definition csprng_refill_locals ::
  "('w, 'c) rng_ext \<Rightarrow> bool \<Rightarrow> 'c csprng \<Rightarrow> 'w \<Rightarrow> 'c csprng \<times> refill_locals \<times> 'w" where
  "csprng_refill_locals ext up c w =
     (let (block, inner) = chacha_fill_bytes ext 64 (cs_inner c);
          c = c\<lparr>cs_inner := inner\<rparr>;
          next_seed = take 32 block;
          c = c\<lparr>cs_buf := drop 32 block, cs_buf_pos := 0\<rparr>;
          block = zeroize block;
          c = c\<lparr>cs_blocks := cs_blocks c + 1\<rparr>;
          (c, next_seed, fresh, scrutinee, frame, w) =
            (if cs_blocks c \<ge> RESEED_INTERVAL
             then let c = c\<lparr>cs_blocks := 0\<rparr> in
               (case gather_seed_locals ext up w of
                  (Some (gathered, _), frame, w) \<Rightarrow>
                    (let fresh = gathered; next_seed = xor_into next_seed fresh; fresh = zeroize fresh
                     in (c, next_seed, fresh, Some gathered, Some frame, w))
                | (None, frame, w) \<Rightarrow> (c, next_seed, [], None, Some frame, w))
             else (c, next_seed, [], None, None, w));
          c = c\<lparr>cs_inner := chacha_from_seed ext next_seed\<rparr>;
          next_seed = zeroize next_seed
      in (c, \<lparr> r_block = block, r_next_seed = next_seed, r_fresh = fresh, r_scrutinee = scrutinee,
               r_gather = frame \<rparr>, w))"

section \<open>The same results\<close>

lemma stir_seed:
  "l_seed (stir sources l) = fold (\<lambda>source seed. xor_into seed source) sources (l_seed l)"
  "l_virtio (stir sources l) = l_virtio l" "l_rdrand (stir sources l) = l_rdrand l"
  by (induction sources arbitrary: l) simp_all

lemma stir_source: "erased (l_source l) \<Longrightarrow> erased (l_source (stir sources l))"
  by (induction sources arbitrary: l) simp_all

lemma gather_seed_locals_result:
  "gather_seed ext up w = (fst (gather_seed_locals ext up w), snd (snd (gather_seed_locals ext up w)))"
  by (simp add: gather_seed_def gather_seed_locals_def stir_seed Let_def split: prod.split bool.split)

lemma csprng_new_locals_result:
  "fst (csprng_new_locals ext seed) = csprng_new ext seed" "erased (snd (csprng_new_locals ext seed))"
  by (simp_all add: csprng_new_locals_def csprng_new_def Let_def)

section \<open>What is erased\<close>

text \<open>
  The loop of \<open>gather_seed\<close> erases its own copy of a source. The results it was copied from, and
  the seed it was returned from, stay as they are.
\<close>

lemma gather_seed_keeps_sources:
  assumes "gather_seed_locals ext up w = (r, l, w')"
  shows "erased (l_source l) \<and> l_virtio l = fst (virtio_bytes ext up w)
    \<and> l_rdrand l = fst (rdrand_bytes ext (snd (virtio_bytes ext up w)))
    \<and> (\<forall>seed mode. r = Some (seed, mode) \<longrightarrow> l_seed l = seed)"
  using assms
  by (auto simp: gather_seed_locals_def Let_def stir_seed split_def intro!: stir_source
      split: bool.splits)

lemma csprng_refill_locals_result:
  "csprng_refill ext up c w =
     (fst (csprng_refill_locals ext up c w), snd (snd (csprng_refill_locals ext up c w)))"
proof -
  obtain r l w1 where g: "gather_seed_locals ext up w = (r, l, w1)" by (rule prod_cases3)
  then have "gather_seed ext up w = (r, w1)" by (simp add: gather_seed_locals_result)
  with g show ?thesis
    by (cases c; cases r; cases "cs_blocks c + 1 \<ge> RESEED_INTERVAL")
      (auto simp: csprng_refill_def csprng_refill_locals_def Let_def split: prod.split)
qed

lemma refill_locals_erased:
  assumes "csprng_refill_locals ext up c w = (c', l, w')"
  shows "erased (r_block l) \<and> erased (r_next_seed l) \<and> erased (r_fresh l)"
  using assms
  by (cases "cs_blocks c + 1 \<ge> RESEED_INTERVAL")
    (auto simp: csprng_refill_locals_def Let_def split: prod.splits option.splits)

text \<open>Between reseeds the key is the first half of the block and nothing else is gathered.\<close>

lemma refill_between_reseeds:
  assumes "csprng_refill_locals ext up c w = (c', l, w')"
    and "chacha_fill_bytes ext 64 (cs_inner c) = (block, old)" and "cs_blocks c + 1 < RESEED_INTERVAL"
  shows "cs_inner c' = chacha_from_seed ext (take 32 block) \<and> cs_blocks c' = cs_blocks c + 1 \<and> w' = w
    \<and> r_scrutinee l = None \<and> r_gather l = None"
  using assms by (auto simp: csprng_refill_locals_def Let_def not_le[symmetric])

text \<open>At a reseed the gathered seed is stirred into it, and stays in the temporary and the frame.\<close>

lemma refill_at_reseed:
  assumes "csprng_refill_locals ext up c w = (c', l, w')"
    and "chacha_fill_bytes ext 64 (cs_inner c) = (block, old)" and "\<not> cs_blocks c + 1 < RESEED_INTERVAL"
    and "gather_seed ext up w = (g, w1)"
  shows "cs_blocks c' = 0 \<and> w' = w1 \<and> r_scrutinee l = map_option fst g
    \<and> cs_inner c' = chacha_from_seed ext
        (case g of None \<Rightarrow> take 32 block | Some (seed, _) \<Rightarrow> xor_into (take 32 block) seed)
    \<and> (\<exists>frame. r_gather l = Some frame \<and> l_virtio frame = fst (virtio_bytes ext up w)
         \<and> l_rdrand frame = fst (rdrand_bytes ext (snd (virtio_bytes ext up w)))
         \<and> (\<forall>seed mode. g = Some (seed, mode) \<longrightarrow> l_seed frame = seed))"
proof -
  obtain r frame w2 where gl: "gather_seed_locals ext up w = (r, frame, w2)" by (rule prod_cases3)
  then have "r = g" "w2 = w1" using assms(4) by (simp_all add: gather_seed_locals_result)
  with gl gather_seed_keeps_sources[OF gl] assms(1-3) show ?thesis
    by (cases g) (auto simp: csprng_refill_locals_def Let_def not_less)
qed

lemma xor_byte_same: "x XOR b = y XOR b \<longleftrightarrow> x = y" for x y b :: u8
  by (metis xor.assoc xor.right_neutral xor_self_eq)

lemma xor_into_same: "length a = length b \<Longrightarrow> xor_into a s = xor_into b s \<longleftrightarrow> a = b"
proof (induction a b arbitrary: s rule: list_induct2)
  case (Cons x xs y ys)
  then show ?case by (cases s) (simp_all add: xor_byte_same)
qed simp

section \<open>Properties\<close>

text \<open>C37: Fast key erasure, and what it misses. When a refill returns, none of its named locals
  holds a byte of the block, of the next key or of the entropy stirred into it, and the generator
  keeps nothing of its old state: what it becomes is determined by the block it drew, the count of
  blocks and the outside world. The key comes from the half of the block that is not handed out.
  Every \<open>RESEED_INTERVAL\<close> blocks exactly the seed that \<open>gather_seed\<close> returned is stirred into it,
  and no gathered seed makes two keys equal that were different. That seed is not erased
  everywhere: the temporary that \<open>gather_seed\<close> returned it in, and the frame of \<open>gather_seed\<close>,
  still hold it and the sources it was made of.\<close>

theorem refill_erases_key_material:
  assumes "csprng_refill_locals ext up c w = (c', l, w')"
    and "chacha_fill_bytes ext 64 (cs_inner c) = (block, old)"
    and "gather_seed ext up w = (gathered, w1)"
  shows "csprng_refill ext up c w = (c', w')
    \<and> erased (r_block l) \<and> erased (r_next_seed l) \<and> erased (r_fresh l)
    \<and> (\<forall>d. fst (chacha_fill_bytes ext 64 (cs_inner d)) = block \<and> cs_blocks d = cs_blocks c \<longrightarrow>
         csprng_refill ext up d w = (c', w'))
    \<and> cs_buf c' = drop 32 block
    \<and> (if cs_blocks c + 1 < RESEED_INTERVAL
       then cs_inner c' = chacha_from_seed ext (take 32 block) \<and> cs_blocks c' = cs_blocks c + 1 \<and> w' = w
         \<and> r_scrutinee l = None \<and> r_gather l = None
       else cs_blocks c' = 0 \<and> w' = w1 \<and> r_scrutinee l = map_option fst gathered
         \<and> cs_inner c' = chacha_from_seed ext
             (case gathered of None \<Rightarrow> take 32 block | Some (seed, _) \<Rightarrow> xor_into (take 32 block) seed)
         \<and> (\<exists>frame. r_gather l = Some frame \<and> l_virtio frame = fst (virtio_bytes ext up w)
              \<and> l_rdrand frame = fst (rdrand_bytes ext (snd (virtio_bytes ext up w)))
              \<and> (\<forall>seed mode. gathered = Some (seed, mode) \<longrightarrow> l_seed frame = seed)))
    \<and> (\<forall>seed key. length key = length (take 32 block) \<longrightarrow>
         (xor_into key seed = xor_into (take 32 block) seed \<longleftrightarrow> key = take 32 block))"
proof -
  have r: "csprng_refill ext up c w = (c', w')" using assms(1) by (simp add: csprng_refill_locals_result)
  moreover have "csprng_refill ext up d w = csprng_refill ext up c w"
    if "fst (chacha_fill_bytes ext 64 (cs_inner d)) = block" "cs_blocks d = cs_blocks c" for d
    using that assms(2) by (simp add: csprng_refill_def split_def)
  moreover have "cs_buf c' = drop 32 block"
    using r assms(2) refill_fields(1)[of ext up c w] by simp
  ultimately show ?thesis
    using refill_locals_erased[OF assms(1)] refill_between_reseeds[OF assms(1,2)]
      refill_at_reseed[OF assms(1,2) _ assms(3)] by (simp add: xor_into_same)
qed

text \<open>A generator about to be reseeded, with an entropy device that delivers.\<close>

definition device_ext :: "(nat, nat) rng_ext" where
  "device_ext = toy_ext\<lparr>request_entropy := \<lambda>w. ((Some 32, replicate 32 7), w + 1)\<rparr>"

theorem refill_erases_key_material_witness:
  "\<exists>c' l w'. csprng_refill_locals device_ext True
      ((csprng_new device_ext (replicate 32 0))\<lparr>cs_blocks := 1023\<rparr>) 0 = (c', l, w')
    \<and> erased (r_block l) \<and> erased (r_next_seed l) \<and> erased (r_fresh l)
    \<and> cs_buf c' = drop 32 (map of_nat [32..<96]) \<and> cs_blocks c' = 0 \<and> w' = 1
    \<and> cs_inner c' = chacha_from_seed device_ext (xor_into (map of_nat [32..<64]) (replicate 32 7))
    \<and> r_scrutinee l = Some (replicate 32 7)"
proof -
  let ?c = "(csprng_new device_ext (replicate 32 0))\<lparr>cs_blocks := 1023\<rparr>"
  have b: "chacha_fill_bytes device_ext 64 (cs_inner ?c) = (map of_nat [32..<96], 96)"
    by (simp add: device_ext_def toy_ext_def csprng_new_def)
  have g: "gather_seed device_ext True 0 = (Some (replicate 32 7, Virtio), 1)"
    by (simp add: gather_seed_def virtio_bytes_def rdrand_bytes_def device_ext_def toy_ext_def Let_def
        xor_into_zero)
  obtain c' l w' where r: "csprng_refill_locals device_ext True ?c 0 = (c', l, w')" by (rule prod_cases3)
  have t: "take 32 (map of_nat [32..<96]) = (map of_nat [32..<64] :: bytes)" by (simp add: take_map)
  from refill_erases_key_material[OF r b g] have
    "erased (r_block l) \<and> erased (r_next_seed l) \<and> erased (r_fresh l)
    \<and> cs_buf c' = drop 32 (map of_nat [32..<96]) \<and> cs_blocks c' = 0 \<and> w' = 1
    \<and> cs_inner c' = chacha_from_seed device_ext (xor_into (map of_nat [32..<64]) (replicate 32 7))
    \<and> r_scrutinee l = Some (replicate 32 7)"
    unfolding t by (simp add: RESEED_INTERVAL_def)
  with r show ?thesis by blast
qed

end
