(* ===== verification/Executor_Loop.thy ===== *)
theory Executor_Loop
  imports Executor
begin

text \<open>
  The endless loop of the executor (\<open>Executor::run\<close> in \<open>kernel/src/task/executor.rs\<close>) with
  interrupts falling between its steps. \<^const>\<open>sleep_if_idle\<close> is taken apart into its instructions,
  because the point of masking interrupts around the test is what happens between them: an
  interrupt that queues a task after the test and before the processor halts would leave the task
  waiting until some later interrupt. The theory shows that this cannot happen, that every queued
  task is dispatched within a bounded number of processor steps, and in which ways a panic ends the
  loop. A dispatch, with the whole poll in it, is one step: an interrupt that falls into a poll
  counts as coming after it.
\<close>

section \<open>The loop as a machine\<close>

text \<open>
  Where the loop is: at the head of the \<open>while let\<close> of \<open>run_ready_tasks\<close>, and in \<open>sleep_if_idle\<close>
  before \<open>disable\<close>, before the test, and before either of its branches.
\<close>

datatype run_at = Drain | Disable | Test | Sleep | Resume

record ('q, 'f, 'w) run_machine =
  exec :: "('q, 'f) executor"
  cpu_state :: cpu
  run_pc :: run_at
  outside :: 'w

text \<open>
  One step of the processor: what it dispatched, if anything, and the machine afterwards. A halted
  processor stays where it is. \<open>enable_and_hlt\<close> is one step, since \<open>sti\<close> takes effect only after
  the instruction that follows it.
\<close>

definition run_step ::
  "('q, u64) queue_ops \<Rightarrow> ('f, 'w) poll_fn \<Rightarrow> ('q, 'f, 'w) run_machine
     \<Rightarrow> (u64 list \<times> ('q, 'f, 'w) run_machine) option" where
  "run_step ops poll_fut m =
     (if halted (cpu_state m) then Some ([], m)
      else case run_pc m of
        Drain \<Rightarrow>
          (case q_pop ops (task_queue (exec m)) of
             (None, q) \<Rightarrow> Some ([], m\<lparr>exec := (exec m)\<lparr>task_queue := q\<rparr>, run_pc := Disable\<rparr>)
           | (Some tid, q) \<Rightarrow> do {
               (ex, w) \<leftarrow> run_task ops poll_fut tid ((exec m)\<lparr>task_queue := q\<rparr>) (outside m);
               Some ([tid], m\<lparr>exec := ex, outside := w\<rparr>) })
      | Disable \<Rightarrow>
          Some ([], m\<lparr>cpu_state := (cpu_state m)\<lparr>interrupts_on := False\<rparr>, run_pc := Test\<rparr>)
      | Test \<Rightarrow>
          Some ([], m\<lparr>run_pc := if q_is_empty ops (task_queue (exec m)) then Sleep else Resume\<rparr>)
      | Sleep \<Rightarrow>
          Some ([], m\<lparr>cpu_state := (cpu_state m)\<lparr>interrupts_on := True, halted := True\<rparr>,
                      run_pc := Drain\<rparr>)
      | Resume \<Rightarrow>
          Some ([], m\<lparr>cpu_state := (cpu_state m)\<lparr>interrupts_on := True\<rparr>, run_pc := Drain\<rparr>))"

text \<open>
  An interrupt, as the loop sees it: the handler wakes some tasks (panicking when the queue is
  full), changes the rest of the world, and a halted processor goes on.
\<close>

definition interrupt ::
  "('q, u64) queue_ops \<Rightarrow> u64 list \<Rightarrow> 'w \<Rightarrow> ('q, 'f, 'w) run_machine \<Rightarrow> ('q, 'f, 'w) run_machine option" where
  "interrupt ops tids w m = do {
     q \<leftarrow> wake_tasks ops tids (task_queue (exec m));
     Some (m\<lparr>exec := (exec m)\<lparr>task_queue := q\<rparr>, cpu_state := (cpu_state m)\<lparr>halted := False\<rparr>,
             outside := w\<rparr>) }"

text \<open>
  The histories of the machine, with the tasks dispatched and the number of processor steps. An
  interrupt is taken only while interrupts are on.
\<close>

inductive executor_runs ::
  "('q, u64) queue_ops \<Rightarrow> ('f, 'w) poll_fn \<Rightarrow> ('q, 'f, 'w) run_machine \<Rightarrow> u64 list \<Rightarrow> nat
     \<Rightarrow> ('q, 'f, 'w) run_machine \<Rightarrow> bool" for ops poll_fut m where
  start: "executor_runs ops poll_fut m [] 0 m"
| processor: "\<lbrakk>executor_runs ops poll_fut m ds n m1; run_step ops poll_fut m1 = Some (d, m2)\<rbrakk>
    \<Longrightarrow> executor_runs ops poll_fut m (ds @ d) (Suc n) m2"
| interrupted: "\<lbrakk>executor_runs ops poll_fut m ds n m1; interrupts_on (cpu_state m1);
     interrupt ops tids w m1 = Some m2\<rbrakk>
    \<Longrightarrow> executor_runs ops poll_fut m ds n m2"

text \<open>
  The histories that a panic ends, with the machine it happens on: in the processor's step, or in
  an interrupt handler that wakes the given tasks.
\<close>

datatype stop_cause = InDispatch | InInterrupt "u64 list"

inductive executor_stops ::
  "('q, u64) queue_ops \<Rightarrow> ('f, 'w) poll_fn \<Rightarrow> ('q, 'f, 'w) run_machine \<Rightarrow> u64 list \<Rightarrow> nat
     \<Rightarrow> ('q, 'f, 'w) run_machine \<Rightarrow> stop_cause \<Rightarrow> bool" for ops poll_fut m where
  step_panics: "\<lbrakk>executor_runs ops poll_fut m ds n m1; run_step ops poll_fut m1 = None\<rbrakk>
    \<Longrightarrow> executor_stops ops poll_fut m ds n m1 InDispatch"
| interrupt_panics: "\<lbrakk>executor_runs ops poll_fut m ds n m1; interrupts_on (cpu_state m1);
     interrupt ops tids w m1 = None\<rbrakk>
    \<Longrightarrow> executor_stops ops poll_fut m ds n m1 (InInterrupt tids)"

text \<open>The machine as \<open>kernel_main\<close> hands it over.\<close>

definition machine_start :: "('q, 'f) executor \<Rightarrow> 'w \<Rightarrow> ('q, 'f, 'w) run_machine" where
  "machine_start ex w =
     \<lparr> exec = ex, cpu_state = \<lparr> interrupts_on = True, halted = False \<rparr>, run_pc = Drain, outside = w \<rparr>"

lemma executor_runs_trans:
  assumes "executor_runs ops poll_fut m1 ds' n' m2" and "executor_runs ops poll_fut m ds n m1"
  shows "executor_runs ops poll_fut m (ds @ ds') (n + n') m2"
  using assms
proof (induction rule: executor_runs.induct)
  case (processor ds' n' m2 d m3)
  then show ?case using executor_runs.processor[of ops poll_fut m "ds @ ds'" "n + n'" m2 d m3] by simp
qed (auto intro: executor_runs.interrupted)

text \<open>A number of processor steps without an interrupt, to run the machine on.\<close>

fun run_machine_steps ::
  "('q, u64) queue_ops \<Rightarrow> ('f, 'w) poll_fn \<Rightarrow> nat \<Rightarrow> ('q, 'f, 'w) run_machine
     \<Rightarrow> (u64 list \<times> ('q, 'f, 'w) run_machine) option" where
  "run_machine_steps ops poll_fut 0 m = Some ([], m)"
| "run_machine_steps ops poll_fut (Suc n) m = do {
     (d, m) \<leftarrow> run_step ops poll_fut m;
     (ds, m) \<leftarrow> run_machine_steps ops poll_fut n m;
     Some (d @ ds, m) }"

lemma machine_steps_run:
  "run_machine_steps ops poll_fut n m = Some (ds, m') \<Longrightarrow> executor_runs ops poll_fut m ds n m'"
proof (induction n arbitrary: m ds)
  case (Suc n)
  then obtain d m1 ds1 where "run_step ops poll_fut m = Some (d, m1)"
    "run_machine_steps ops poll_fut n m1 = Some (ds1, m')" "ds = d @ ds1"
    by (auto split: bind_splits)
  with executor_runs_trans[OF Suc.IH executor_runs.processor[OF executor_runs.start]]
  show ?case by fastforce
qed (simp add: executor_runs.start)

text \<open>The executor \<open>kernel_main\<close> builds: one \<open>spawn\<close> after another on a new one.\<close>

fun spawn_all :: "('q, u64) queue_ops \<Rightarrow> 'f task list \<Rightarrow> ('q, 'f) executor \<Rightarrow> ('q, 'f) executor option" where
  "spawn_all ops [] ex = Some ex"
| "spawn_all ops (t # ts) ex = do { ex \<leftarrow> spawn ops t ex; spawn_all ops ts ex }"

lemma spawn_keeps_ok:
  assumes "executor_ok ex" and "spawn ops t ex = Some ex'"
  shows "executor_ok ex'"
proof -
  obtain q where "ex' = ex\<lparr>tasks := bt_insert (task_id t) t (tasks ex), task_queue := q\<rparr>"
    using assms(2) by (auto simp: spawn_def split: if_splits bind_splits)
  then show ?thesis using assms(1) by (auto simp: executor_ok_def bt_ok_insert bt_get_insert)
qed

lemma executor_new_ok: "executor_ok (executor_new ops)"
  by (simp add: executor_ok_def executor_new_def bt_ok_def)

lemma spawn_all_keeps_ok:
  "executor_ok ex \<Longrightarrow> spawn_all ops ts ex = Some ex' \<Longrightarrow> executor_ok ex'"
  by (induction ts arbitrary: ex) (auto intro: spawn_keeps_ok split: bind_splits)

section \<open>The loop and the operations it is made of\<close>

text \<open>Without interrupts the steps from the head of the loop are \<^const>\<open>run_ready_tasks\<close>.\<close>

lemma drain_is_run_ready_tasks:
  assumes "dispatches ops poll_fut ex w tids wakes ex1 w'" and "q_pop ops (task_queue ex1) = (None, q)"
    and "\<not> halted c"
  shows "executor_runs ops poll_fut \<lparr> exec = ex, cpu_state = c, run_pc = Drain, outside = w \<rparr>
    tids (Suc (length tids))
    \<lparr> exec = ex1\<lparr>task_queue := q\<rparr>, cpu_state = c, run_pc = Disable, outside = w' \<rparr>"
  using assms(1,2)
proof induction
  case (idle ex w)
  let ?m = "\<lparr> exec = ex, cpu_state = c, run_pc = Drain, outside = w \<rparr>"
  have "run_step ops poll_fut ?m = Some ([], ?m\<lparr>exec := ex\<lparr>task_queue := q\<rparr>, run_pc := Disable\<rparr>)"
    using idle assms(3) by (simp add: run_step_def)
  from executor_runs.processor[OF executor_runs.start this] show ?case by simp
next
  case (popped ex tid q1 w ex1 w1 tids wakes ex' w')
  let ?m = "\<lparr> exec = ex, cpu_state = c, run_pc = Drain, outside = w \<rparr>"
  have "run_step ops poll_fut ?m
      = Some ([tid], \<lparr> exec = ex1, cpu_state = c, run_pc = Drain, outside = w1 \<rparr>)"
    using popped.hyps(1,2) assms(3) by (simp add: run_step_def)
  from executor_runs_trans[OF popped.IH[OF popped.prems]
      executor_runs.processor[OF executor_runs.start this]]
  show ?case by simp
qed

text \<open>The three steps that follow are \<^const>\<open>sleep_if_idle\<close>.\<close>

lemma sleep_steps:
  assumes "\<not> halted c"
  shows "executor_runs ops poll_fut \<lparr> exec = ex, cpu_state = c, run_pc = Disable, outside = w \<rparr> [] 3
    \<lparr> exec = ex, cpu_state = sleep_if_idle ops ex c, run_pc = Drain, outside = w \<rparr>"
proof -
  let ?m = "\<lambda>c at. \<lparr> exec = ex, cpu_state = c, run_pc = at, outside = w \<rparr>"
  let ?c = "c\<lparr>interrupts_on := False\<rparr>"
  let ?at = "if q_is_empty ops (task_queue ex) then Sleep else Resume"
  have "run_step ops poll_fut (?m c Disable) = Some ([], ?m ?c Test)"
    "run_step ops poll_fut (?m ?c Test) = Some ([], ?m ?c ?at)"
    "run_step ops poll_fut (?m ?c ?at) = Some ([], ?m (sleep_if_idle ops ex c) Drain)"
    using assms by (simp_all add: run_step_def sleep_if_idle_def)
  from executor_runs.processor[OF executor_runs.processor[OF executor_runs.processor[OF
      executor_runs.start this(1)] this(2)] this(3)]
  show ?thesis by (simp add: numeral_3_eq_3)
qed

section \<open>The invariant\<close>

definition loop_ok :: "('q \<Rightarrow> u64 list) \<Rightarrow> ('q, 'f, 'w) run_machine \<Rightarrow> bool" where
  "loop_ok content m \<longleftrightarrow> executor_ok (exec m)
     \<and> (interrupts_on (cpu_state m) \<longleftrightarrow> run_pc m = Drain \<or> run_pc m = Disable)
     \<and> (run_pc m = Sleep \<longrightarrow> content (task_queue (exec m)) = [])
     \<and> (halted (cpu_state m) \<longrightarrow> run_pc m = Drain \<and> content (task_queue (exec m)) = [])"

text \<open>How much of \<open>sleep_if_idle\<close> is still to come before the head of the loop.\<close>

primrec lag :: "run_at \<Rightarrow> nat" where
  "lag Drain = 0"
| "lag Disable = 3"
| "lag Test = 2"
| "lag Sleep = 1"
| "lag Resume = 1"

lemma run_step_ok:
  assumes "fifo ops cap content" and "loop_ok content m" and "run_step ops poll_fut m = Some (d, m')"
  shows "loop_ok content m'
    \<and> (\<exists>wakes. content (task_queue (exec m)) @ wakes = d @ content (task_queue (exec m')))
    \<and> (content (task_queue (exec m)) \<noteq> [] \<longrightarrow> Suc (lag (run_pc m')) = length d + lag (run_pc m))"
proof (cases "halted (cpu_state m) \<or> run_pc m \<noteq> Drain")
  case True
  have e: "q_is_empty ops q = (content q = [])" for q using assms(1) by (simp add: fifo_def)
  from True assms(2,3) have "d = []" "exec m' = exec m" "loop_ok content m'"
    "content (task_queue (exec m)) \<noteq> [] \<Longrightarrow> Suc (lag (run_pc m')) = lag (run_pc m)"
    by (cases "run_pc m"; auto simp: run_step_def loop_ok_def e split: if_splits; fail)+
  then show ?thesis by simp
next
  case False
  then have at: "\<not> halted (cpu_state m)" "run_pc m = Drain" by simp_all
  let ?q = "task_queue (exec m)"
  show ?thesis
  proof (cases "content ?q")
    case Nil
    then obtain q where "q_pop ops ?q = (None, q)" "content q = []" using fifo_pop(1)[OF assms(1)] by blast
    with Nil at assms(2,3) show ?thesis by (auto simp: run_step_def loop_ok_def)
  next
    case (Cons tid rest)
    then obtain q where q: "q_pop ops ?q = (Some tid, q)" "content q = rest"
      using fifo_pop(2)[OF assms(1)] by blast
    then obtain ex w where r: "run_task ops poll_fut tid ((exec m)\<lparr>task_queue := q\<rparr>) (outside m) = Some (ex, w)"
      and m': "d = [tid]" "m' = m\<lparr>exec := ex, outside := w\<rparr>"
      using at assms(3) by (auto simp: run_step_def split: bind_splits)
    have "executor_ok ((exec m)\<lparr>task_queue := q\<rparr>)" using assms(2) by (simp add: loop_ok_def)
    from run_task_content[OF assms(1) this r] m' at Cons q(2) assms(2) show ?thesis
      by (auto simp: loop_ok_def)
  qed
qed

lemma interrupt_ok:
  assumes "fifo ops cap content" and "loop_ok content m" and "interrupts_on (cpu_state m)"
    and "interrupt ops tids w m = Some m'"
  shows "loop_ok content m' \<and> content (task_queue (exec m')) = content (task_queue (exec m)) @ tids
    \<and> run_pc m' = run_pc m"
  using assms wake_tasks_content[OF assms(1), of tids "task_queue (exec m)"]
  by (auto simp: interrupt_def loop_ok_def split: bind_splits)

lemma machine_start_ok: "executor_ok ex \<Longrightarrow> loop_ok content (machine_start ex w)"
  by (simp add: loop_ok_def machine_start_def)

text \<open>
  Along a history nothing queued is lost or overtaken, and until what was queued at its beginning
  has all been dispatched the processor makes a dispatch in every step, apart from what it still
  had to do of \<open>sleep_if_idle\<close>.
\<close>

lemma executor_runs_ok:
  assumes "executor_runs ops poll_fut m ds n m'" and "fifo ops cap content" and "loop_ok content m"
  shows "loop_ok content m'
    \<and> (\<exists>wakes. content (task_queue (exec m)) @ wakes = ds @ content (task_queue (exec m')))
    \<and> (length ds < length (content (task_queue (exec m))) \<longrightarrow>
         n + lag (run_pc m') = length ds + lag (run_pc m))"
  using assms(1)
proof induction
  case (processor ds n m1 d m2)
  let ?c = "\<lambda>m. content (task_queue (exec m))"
  from processor.IH obtain wakes where IH: "loop_ok content m1" "?c m @ wakes = ds @ ?c m1"
    "length ds < length (?c m) \<Longrightarrow> n + lag (run_pc m1) = length ds + lag (run_pc m)"
    by blast
  from run_step_ok[OF assms(2) IH(1) processor.hyps(2)] obtain wakes' where
    step: "loop_ok content m2" "?c m1 @ wakes' = d @ ?c m2"
    "?c m1 \<noteq> [] \<Longrightarrow> Suc (lag (run_pc m2)) = length d + lag (run_pc m1)"
    by blast
  have "?c m1 \<noteq> []" if "length ds < length (?c m)"
    using that IH(2) arg_cong[OF IH(2), of length] by auto
  then have "Suc n + lag (run_pc m2) = length (ds @ d) + lag (run_pc m)" if "length ds < length (?c m)"
    using that IH(3) step(3) by simp
  moreover have "?c m @ (wakes @ wakes') = (ds @ d) @ ?c m2" using IH(2) step(2) by (metis append.assoc)
  ultimately show ?case using step(1) by fastforce
next
  case (interrupted ds n m1 tids w m2)
  from interrupted.IH have "loop_ok content m1" by blast
  from interrupt_ok[OF assms(2) this interrupted.hyps(2,3)] interrupted.IH show ?case
    by (metis append.assoc)
qed (simp add: assms(3))

text \<open>Waking panics exactly when the tasks do not fit.\<close>

lemma wake_tasks_full:
  assumes "fifo ops cap content"
  shows "wake_tasks ops tids q = None \<longleftrightarrow> tids \<noteq> [] \<and> cap < length (content q) + length tids"
proof (induction tids arbitrary: q)
  case (Cons tid tids)
  show ?case
    using wake_task_ok[OF assms, of q tid] Cons.IH
    by (cases "wake_task ops tid q") auto
qed simp

text \<open>
  The processor's step panics exactly where the task it takes off the queue panics, or wakes more
  tasks than the queue has room for.
\<close>

lemma run_step_panics:
  assumes "fifo ops cap content" and "loop_ok content m"
  shows "run_step ops poll_fut m = None \<longleftrightarrow> \<not> halted (cpu_state m) \<and> run_pc m = Drain
    \<and> (\<exists>tid rest. content (task_queue (exec m)) = tid # rest
         \<and> (poll_panics poll_fut tid (exec m) (outside m)
            \<or> (let wakes = wakes_of poll_fut tid (exec m) (outside m)
               in wakes \<noteq> [] \<and> cap < length rest + length wakes)))"
proof (cases "halted (cpu_state m) \<or> run_pc m \<noteq> Drain")
  case True
  then show ?thesis by (cases "run_pc m") (auto simp: run_step_def)
next
  case False
  let ?q = "task_queue (exec m)"
  show ?thesis
  proof (cases "content ?q")
    case Nil
    then show ?thesis using fifo_pop(1)[OF assms(1) Nil] False by (auto simp: run_step_def)
  next
    case (Cons tid rest)
    then obtain q where q: "q_pop ops ?q = (Some tid, q)" "content q = rest"
      using fifo_pop(2)[OF assms(1)] by blast
    let ?ex = "(exec m)\<lparr>task_queue := q\<rparr>" and ?ws = "wakes_of poll_fut tid (exec m) (outside m)"
    have ok: "executor_ok ?ex" using assms(2) by (simp add: loop_ok_def)
    have "run_step ops poll_fut m = None \<longleftrightarrow> run_task ops poll_fut tid ?ex (outside m) = None"
      using False q(1) by (auto simp: run_step_def split: bind_splits)
    also have "\<dots> \<longleftrightarrow> poll_panics poll_fut tid (exec m) (outside m) \<or> wake_tasks ops ?ws q = None"
      using run_task_steps(1,2)[OF ok, where poll_fut = poll_fut and tid = tid and ops = ops and w = "outside m"]
        run_task_steps(3)[OF ok, where poll_fut = poll_fut and tid = tid and ops = ops and w = "outside m"]
      by fastforce
    finally show ?thesis
      using False Cons q(2) wake_tasks_full[OF assms(1), of ?ws q] by (auto simp: Let_def)
  qed
qed

text \<open>The machine goes on for as long as one likes, or panics in a step.\<close>

lemma executor_goes_on:
  "(\<exists>ds m'. executor_runs ops poll_fut m ds k m')
     \<or> (\<exists>ds n m'. n < k \<and> executor_stops ops poll_fut m ds n m' InDispatch)"
proof (induction k)
  case (Suc k)
  then show ?case
  proof (elim disjE exE conjE)
    fix ds m' assume r: "executor_runs ops poll_fut m ds k m'"
    show ?thesis
    proof (cases "run_step ops poll_fut m'")
      case None
      then show ?thesis using executor_stops.step_panics[OF r] by blast
    next
      case (Some dm)
      then show ?thesis using executor_runs.processor[OF r] by (cases dm) blast
    qed
  qed (use less_SucI in blast)
qed (use executor_runs.start in blast)

text \<open>What is queued is dispatched next, once \<open>sleep_if_idle\<close> is left.\<close>

lemma queued_are_dispatched:
  assumes "fifo ops cap content" and "loop_ok content m" and "executor_runs ops poll_fut m ds n m'"
    and "length (content (task_queue (exec m))) + lag (run_pc m) \<le> n"
  shows "\<exists>later. ds = content (task_queue (exec m)) @ later"
proof -
  let ?c = "\<lambda>m. content (task_queue (exec m))"
  from executor_runs_ok[OF assms(3,1,2)] obtain wakes where r: "?c m @ wakes = ds @ ?c m'"
    "length ds < length (?c m) \<Longrightarrow> n + lag (run_pc m') = length ds + lag (run_pc m)"
    by blast
  have "length (?c m) \<le> length ds" using r(2) assms(4) by (cases "length ds < length (?c m)") simp_all
  with r(1) show ?thesis by (metis append_eq_append_conv_if append_take_drop_id)
qed

section \<open>Properties\<close>

text \<open>C8: The processor never halts on a ready task. In every history of the executor's loop,
  whatever tasks the interrupts between its steps wake, the processor is halted only with an
  empty queue and with interrupts enabled, so that the next interrupt resumes it.\<close>

theorem never_halts_on_ready_task:
  assumes "fifo ops 100 content" and "executor_ok ex"
    and "executor_runs ops poll_fut (machine_start ex w) ds n m" and "halted (cpu_state m)"
  shows "content (task_queue (exec m)) = [] \<and> interrupts_on (cpu_state m)"
  using executor_runs_ok[OF assms(3,1) machine_start_ok[OF assms(2)]] assms(4)
  by (simp add: loop_ok_def)

theorem never_halts_on_ready_task_witness:
  "\<exists>ds m. executor_runs list_queue countdown (machine_start
      \<lparr> tasks = [(0, \<lparr> task_id = 0, future = 0 \<rparr>)], task_queue = [0], waker_cache = [] \<rparr> 5) ds 5 m
    \<and> halted (cpu_state m) \<and> task_queue (exec m) = [] \<and> interrupts_on (cpu_state m)"
proof -
  let ?ex = "\<lparr> tasks = [(0, \<lparr> task_id = 0, future = 0 \<rparr>)], task_queue = [0], waker_cache = [] \<rparr>
    :: (u64 list, nat) executor"
  have ok: "executor_ok ?ex" by (auto simp: executor_ok_def bt_ok_def)
  have "case run_machine_steps list_queue countdown 5 (machine_start ?ex 5) of
      Some (_, m) \<Rightarrow> halted (cpu_state m) | None \<Rightarrow> False"
    by code_simp
  then obtain ds m where "run_machine_steps list_queue countdown 5 (machine_start ?ex 5) = Some (ds, m)"
    "halted (cpu_state m)"
    by (auto split: option.splits)
  with never_halts_on_ready_task[OF list_queue_fifo ok machine_steps_run] show ?thesis
    using machine_steps_run by fastforce
qed



text \<open>C26: The executor stays well-formed. However it was filled, and whatever it has dispatched and
  whatever interrupts it has taken since, its maps are ordered and without duplicates, every task is
  filed under its own id, and every cached waker is the waker of a task that is still there, so
  none outlives its task.\<close>

theorem executor_stays_well_formed:
  assumes "fifo ops 100 content" and "spawn_all ops ts (executor_new ops) = Some ex"
    and "executor_runs ops poll_fut (machine_start ex w) ds n m"
  shows "bt_ok (tasks (exec m)) \<and> bt_ok (waker_cache (exec m))
    \<and> (\<forall>tid t. bt_get (tasks (exec m)) tid = Some t \<longrightarrow> task_id t = tid)
    \<and> (\<forall>tid wk. bt_get (waker_cache (exec m)) tid = Some wk \<longrightarrow>
         wk = tid \<and> bt_get (tasks (exec m)) tid \<noteq> None)"
proof -
  have "executor_ok ex" using spawn_all_keeps_ok[OF executor_new_ok assms(2)] .
  from executor_runs_ok[OF assms(3,1) machine_start_ok[OF this]] show ?thesis
    unfolding loop_ok_def executor_ok_def by blast
qed

theorem executor_stays_well_formed_witness:
  "\<exists>ex ds m. spawn_all list_queue [\<lparr> task_id = 0, future = 2 \<rparr>, \<lparr> task_id = 1, future = 0 \<rparr>]
      (executor_new list_queue) = Some ex
    \<and> executor_runs list_queue countdown (machine_start ex 5) ds 2 m
    \<and> map fst (tasks (exec m)) = [0] \<and> bt_ok (waker_cache (exec m))
    \<and> (\<forall>tid wk. bt_get (waker_cache (exec m)) tid = Some wk \<longrightarrow>
         wk = tid \<and> bt_get (tasks (exec m)) tid \<noteq> None)"
proof -
  let ?ts = "[\<lparr> task_id = 0, future = 2 \<rparr>, \<lparr> task_id = 1, future = 0 \<rparr>] :: nat task list"
  have "case spawn_all list_queue ?ts (executor_new list_queue) of
      Some ex \<Rightarrow> (case run_machine_steps list_queue countdown 2 (machine_start ex 5) of
        Some (_, m) \<Rightarrow> map fst (tasks (exec m)) = [0] | None \<Rightarrow> False) | None \<Rightarrow> False"
    by code_simp
  then obtain ex ds m where e: "spawn_all list_queue ?ts (executor_new list_queue) = Some ex"
    "run_machine_steps list_queue countdown 2 (machine_start ex 5) = Some (ds, m)"
    "map fst (tasks (exec m)) = [0]"
    by (auto split: option.splits)
  note r = machine_steps_run[OF e(2)]
  from executor_stays_well_formed[OF list_queue_fifo e(1) r] e(1,3) r show ?thesis
    by (intro exI[of _ ex] exI[of _ ds] exI[of _ m]) simp
qed

end
