(* ===== verification/Vga.thy ===== *)
theory Vga
  imports Prelude
begin

text \<open>
  The text console (\<open>kernel/src/vga.rs\<close>): colours, the screen position and the writer. The
  memory-mapped buffer is its 25 rows of 80 cells; indexing outside it panics.
\<close>

section \<open>The writer\<close>

datatype color =
    Black | Blue | Green | Cyan | Red | Magenta | Brown | LightGray | DarkGray | LightBlue
  | LightGreen | LightCyan | LightRed | Pink | Yellow | White

fun u8_of_color :: "color \<Rightarrow> u8" where
  "u8_of_color Black = 0"
| "u8_of_color Blue = 1"
| "u8_of_color Green = 2"
| "u8_of_color Cyan = 3"
| "u8_of_color Red = 4"
| "u8_of_color Magenta = 5"
| "u8_of_color Brown = 6"
| "u8_of_color LightGray = 7"
| "u8_of_color DarkGray = 8"
| "u8_of_color LightBlue = 9"
| "u8_of_color LightGreen = 10"
| "u8_of_color LightCyan = 11"
| "u8_of_color LightRed = 12"
| "u8_of_color Pink = 13"
| "u8_of_color Yellow = 14"
| "u8_of_color White = 15"

definition color_code_new :: "color \<Rightarrow> color \<Rightarrow> u8" where
  "color_code_new foreground background =
     push_bit 4 (u8_of_color background) OR u8_of_color foreground"

record screen_char =
  ascii_character :: u8
  cell_color :: u8

definition BUFFER_HEIGHT :: nat where "BUFFER_HEIGHT = 25"

definition BUFFER_WIDTH :: nat where "BUFFER_WIDTH = 80"

record screen_pos =
  row :: nat
  col :: nat

definition incr_row :: "screen_pos \<Rightarrow> screen_pos" where
  "incr_row pos =
     (let pos = pos\<lparr>row := row pos + 1\<rparr>;
          pos = (if row pos = BUFFER_HEIGHT then pos\<lparr>row := 0\<rparr> else pos)
      in pos\<lparr>col := 0\<rparr>)"

definition incr_col :: "screen_pos \<Rightarrow> screen_pos" where
  "incr_col pos =
     (let pos = pos\<lparr>col := col pos + 1\<rparr>
      in if col pos = BUFFER_WIDTH then incr_row pos else pos)"

record writer =
  position :: screen_pos
  color_code :: u8
  chars :: "screen_char list list"

definition writer_new :: "u8 \<Rightarrow> screen_char list list \<Rightarrow> writer" where
  "writer_new code cells =
     \<lparr> position = \<lparr> row = 0, col = 0 \<rparr>, color_code = code, chars = cells \<rparr>"

fun write_str :: "bytes \<Rightarrow> writer \<Rightarrow> writer option" where
  "write_str [] w = Some w"
| "write_str (byte # bytes) w =
     (if byte = 10 then write_str bytes (w\<lparr>position := incr_row (position w)\<rparr>)
      else do {
        line \<leftarrow> slice_get (row (position w)) (chars w);
        line \<leftarrow> slice_set (col (position w)) \<lparr> ascii_character = byte, cell_color = color_code w \<rparr> line;
        cells \<leftarrow> slice_set (row (position w)) line (chars w);
        write_str bytes (w\<lparr>chars := cells, position := incr_col (position w)\<rparr>) })"

section \<open>A ring of cells\<close>

text \<open>
  What the writer is meant to be: 2000 cells in a ring and a cursor. A newline moves the cursor
  to the start of the next row, any other byte fills the cell under the cursor.
\<close>

type_synonym ring = "(nat \<Rightarrow> screen_char) \<times> nat"

definition ring_byte :: "u8 \<Rightarrow> u8 \<Rightarrow> ring \<Rightarrow> ring" where
  "ring_byte code b r =
     (if b = 10 then (fst r, (snd r div 80 + 1) * 80 mod 2000)
      else ((fst r)(snd r := \<lparr> ascii_character = b, cell_color = code \<rparr>), (snd r + 1) mod 2000))"

definition writer_ok :: "writer \<Rightarrow> bool" where
  "writer_ok w \<longleftrightarrow> row (position w) < 25 \<and> col (position w) < 80
     \<and> length (chars w) = 25 \<and> list_all (\<lambda>line. length line = 80) (chars w)"

definition cells_of :: "writer \<Rightarrow> nat \<Rightarrow> screen_char" where
  "cells_of w i = chars w ! (i div 80) ! (i mod 80)"

definition cursor :: "writer \<Rightarrow> nat" where
  "cursor w = row (position w) * 80 + col (position w)"

text \<open>The abstraction agrees on the cells of the screen.\<close>

definition shows_ring :: "writer \<Rightarrow> ring \<Rightarrow> bool" where
  "shows_ring w r \<longleftrightarrow> writer_ok w \<and> snd r = cursor w \<and> (\<forall>i<2000. fst r i = cells_of w i)"

lemma cursor_div: "writer_ok w \<Longrightarrow> cursor w div 80 = row (position w) \<and> cursor w mod 80 = col (position w)"
  by (simp add: cursor_def writer_ok_def)

lemma newline_ring:
  assumes "shows_ring w r"
  shows "shows_ring (w\<lparr>position := incr_row (position w)\<rparr>) (ring_byte (color_code w) 10 r)"
proof -
  have ok: "writer_ok w" and r: "snd r = cursor w" using assms by (simp_all add: shows_ring_def)
  have "(row (position w) + 1) * 80 mod 2000 = (if row (position w) + 1 = 25 then 0 else (row (position w) + 1) * 80)"
    using ok by (auto simp: writer_ok_def)
  with assms cursor_div[OF ok] show ?thesis
    by (auto simp: shows_ring_def ring_byte_def writer_ok_def cells_of_def cursor_def incr_row_def
        BUFFER_HEIGHT_def Let_def)
qed

lemma put_ring:
  assumes "shows_ring w r" and "b \<noteq> 10"
  shows "\<exists>line line' cells. slice_get (row (position w)) (chars w) = Some line
    \<and> slice_set (col (position w)) \<lparr> ascii_character = b, cell_color = color_code w \<rparr> line = Some line'
    \<and> slice_set (row (position w)) line' (chars w) = Some cells
    \<and> shows_ring (w\<lparr>chars := cells, position := incr_col (position w)\<rparr>) (ring_byte (color_code w) b r)"
proof -
  let ?c = "\<lparr> ascii_character = b, cell_color = color_code w \<rparr>"
  let ?i = "row (position w)" and ?j = "col (position w)"
  let ?line = "chars w ! ?i"
  let ?cells = "(chars w)[?i := ?line[?j := ?c]]"
  have ok: "writer_ok w" and r: "snd r = cursor w" "\<forall>i<2000. fst r i = cells_of w i"
    using assms by (simp_all add: shows_ring_def)
  then have b: "?i < 25" "?j < 80" "length (chars w) = 25" "length ?line = 80"
    by (auto simp: writer_ok_def list_all_length)
  have ok': "writer_ok (w\<lparr>chars := ?cells, position := incr_col (position w)\<rparr>)"
    using ok b by (auto simp: writer_ok_def incr_col_def incr_row_def Let_def BUFFER_WIDTH_def
        BUFFER_HEIGHT_def list_all_length nth_list_update)
  have cur: "cursor (w\<lparr>chars := ?cells, position := incr_col (position w)\<rparr>) = (cursor w + 1) mod 2000"
    using b(1,2) by (auto simp: cursor_def incr_col_def incr_row_def Let_def BUFFER_WIDTH_def BUFFER_HEIGHT_def)
  have cell: "cells_of (w\<lparr>chars := ?cells, position := incr_col (position w)\<rparr>) k
      = ((cells_of w)(cursor w := ?c)) k" if "k < 2000" for k
  proof -
    have "k div 80 < 25" using that by (simp add: div_less_iff_less_mult)
    moreover have "k = cursor w \<longleftrightarrow> k div 80 = ?i \<and> k mod 80 = ?j"
      using cursor_div[OF ok] by (metis div_mult_mod_eq)
    ultimately show ?thesis using b by (auto simp: cells_of_def nth_list_update)
  qed
  have "shows_ring (w\<lparr>chars := ?cells, position := incr_col (position w)\<rparr>) (ring_byte (color_code w) b r)"
    using ok' cur cell r assms(2) by (auto simp: shows_ring_def ring_byte_def)
  then show ?thesis using b by (auto simp: slice_get_def slice_set_def)
qed

lemma write_str_ring:
  assumes "shows_ring w r"
  shows "\<exists>w'. write_str bs w = Some w' \<and> color_code w' = color_code w
    \<and> shows_ring w' (fold (ring_byte (color_code w)) bs r)"
  using assms
proof (induction bs arbitrary: w r)
  case (Cons b bs)
  show ?case
  proof (cases "b = 10")
    case True
    with Cons.IH[OF newline_ring[OF Cons.prems]] show ?thesis by simp
  next
    case False
    obtain line line' cells where "slice_get (row (position w)) (chars w) = Some line"
      "slice_set (col (position w)) \<lparr> ascii_character = b, cell_color = color_code w \<rparr> line = Some line'"
      "slice_set (row (position w)) line' (chars w) = Some cells"
      "shows_ring (w\<lparr>chars := cells, position := incr_col (position w)\<rparr>) (ring_byte (color_code w) b r)"
      using put_ring[OF Cons.prems False] by blast
    with False Cons.IH show ?thesis by fastforce
  qed
qed simp

lemma color_code_fields:
  "unat (color_code_new fg bg) = 16 * unat (u8_of_color bg) + unat (u8_of_color fg)"
  by (cases fg; cases bg) (simp_all add: color_code_new_def)

section \<open>Properties\<close>

text \<open>C34: the console is a ring of cells. Writing any text never panics and never leaves the
  screen, and afterwards the screen shows what filling the cells of a ring of 2000 shows: rows wrap
  at column 80, the last row wraps to the first, and a newline starts the next row.\<close>

theorem console_is_ring:
  assumes "writer_ok w"
  shows "\<exists>w'. write_str bs w = Some w' \<and> writer_ok w'
    \<and> cursor w' = snd (fold (ring_byte (color_code w)) bs (cells_of w, cursor w))
    \<and> (\<forall>i<2000. cells_of w' i = fst (fold (ring_byte (color_code w)) bs (cells_of w, cursor w)) i)"
proof -
  have "shows_ring w (cells_of w, cursor w)" using assms by (simp add: shows_ring_def)
  from write_str_ring[OF this, of bs] show ?thesis by (auto simp: shows_ring_def)
qed

theorem console_is_ring_witness:
  "\<exists>w'. write_str [72, 105, 10, 33] (writer_new (color_code_new LightBlue Black)
        (replicate 25 (replicate 80 \<lparr> ascii_character = 0, cell_color = 0 \<rparr>))) = Some w'
     \<and> cursor w' = 81 \<and> cells_of w' 80 = \<lparr> ascii_character = 33, cell_color = 9 \<rparr>"
proof -
  let ?w = "writer_new (color_code_new LightBlue Black)
    (replicate 25 (replicate 80 \<lparr> ascii_character = 0, cell_color = 0 \<rparr>))"
  have "writer_ok ?w" by (simp add: writer_ok_def writer_new_def list_all_iff)
  from console_is_ring[OF this, of "[72, 105, 10, 33]"] show ?thesis
    by (auto simp: ring_byte_def writer_new_def cursor_def color_code_new_def)
qed

end
