(* ===== verification/Serial_Line.thy ===== *)
theory Serial_Line
  imports Prelude
begin

text \<open>
  The serial console: \<open>readline\<close> (\<open>kernel/src/serial.rs\<close>) and the echo task \<open>handle_serial\<close>
  (\<open>kernel/src/main.rs\<close>). The terminal, opened (theory \<open>Faults\<close> has its first use), is a parameter:
  writing to it may fail. The input is the
  sequence of results of \<open>stream.next().await\<close>, on the stream the task creates first (theory
  \<open>Streams\<close>); when it is used up, the task waits.
\<close>

section \<open>Reading a line\<close>

datatype tty_err = BufferTooSmall | SerialErr

record 'w tty =
  tty_write :: "bytes \<Rightarrow> 'w \<Rightarrow> bool \<times> 'w"

definition print :: "'w tty \<Rightarrow> bytes \<Rightarrow> 'w \<Rightarrow> 'w option" where
  "print tty bs w = (case tty_write tty bs w of (True, w) \<Rightarrow> Some w | (False, _) \<Rightarrow> None)"

datatype line_result = Waiting nat | Line nat | LineErr tty_err

fun readline ::
  "'w tty \<Rightarrow> u8 option list \<Rightarrow> bytes \<Rightarrow> nat \<Rightarrow> 'w
     \<Rightarrow> (line_result \<times> bytes \<times> u8 option list \<times> 'w) option" where
  "readline tty [] buffer count w = Some (Waiting count, buffer, [], w)"
| "readline tty (None # input) buffer count w = Some (LineErr SerialErr, buffer, input, w)"
| "readline tty (Some byte # input) buffer count w =
     (if byte = 10 \<or> byte = 13 then
        (case tty_write tty [10] w of
           (True, w) \<Rightarrow> Some (Line count, buffer, input, w)
         | (False, w) \<Rightarrow> Some (LineErr SerialErr, buffer, input, w))
      else if (byte = 8 \<or> byte = 127) \<and> count > 0 then do {
        w \<leftarrow> print tty [8, 32, 8] w;
        readline tty input buffer (count - 1) w }
      else if 32 \<le> byte \<and> byte \<le> 126 then
        (if count < length buffer then do {
           buffer \<leftarrow> slice_set count byte buffer;
           w \<leftarrow> print tty [byte] w;
           readline tty input buffer (count + 1) w }
         else Some (LineErr BufferTooSmall, buffer, input, w))
      else readline tty input buffer count w)"

lemma readline_consumes:
  "readline tty input buffer count w = Some (r, buffer', rest, w') \<Longrightarrow>
     length rest < length input \<or> (\<exists>n. r = Waiting n) \<and> rest = []"
  by (induction tty input buffer count w rule: readline.induct)
    (auto split: if_splits prod.splits bool.splits bind_splits)

section \<open>The echo task\<close>

text \<open>\<open>str::from_utf8\<close>: well-formed UTF-8, without overlong forms and surrogates.\<close>

definition utf8_tail :: "u8 \<Rightarrow> bool" where
  "utf8_tail b \<longleftrightarrow> 0x80 \<le> b \<and> b \<le> 0xBF"

fun utf8_valid :: "bytes \<Rightarrow> bool" where
  "utf8_valid [] \<longleftrightarrow> True"
| "utf8_valid (a # bs) \<longleftrightarrow>
     (if a < 0x80 then utf8_valid bs
      else if 0xC2 \<le> a \<and> a \<le> 0xDF then
        (case bs of b # bs \<Rightarrow> utf8_tail b \<and> utf8_valid bs | _ \<Rightarrow> False)
      else if 0xE0 \<le> a \<and> a \<le> 0xEF then
        (case bs of
           b # c # bs \<Rightarrow>
             (if a = 0xE0 then 0xA0 \<le> b \<and> b \<le> 0xBF
              else if a = 0xED then 0x80 \<le> b \<and> b \<le> 0x9F else utf8_tail b)
             \<and> utf8_tail c \<and> utf8_valid bs
         | _ \<Rightarrow> False)
      else if 0xF0 \<le> a \<and> a \<le> 0xF4 then
        (case bs of
           b # c # d # bs \<Rightarrow>
             (if a = 0xF0 then 0x90 \<le> b \<and> b \<le> 0xBF
              else if a = 0xF4 then 0x80 \<le> b \<and> b \<le> 0x8F else utf8_tail b)
             \<and> utf8_tail c \<and> utf8_tail d \<and> utf8_valid bs
         | _ \<Rightarrow> False)
      else False)"

definition ascii :: "string \<Rightarrow> bytes" where
  "ascii s = map of_char s"

definition report_line :: "'w tty \<Rightarrow> line_result \<Rightarrow> bytes \<Rightarrow> 'w \<Rightarrow> 'w option" where
  "report_line tty r buffer w =
     (case r of
        Waiting _ \<Rightarrow> Some w
      | Line count \<Rightarrow> do {
          line \<leftarrow> slice_range 0 count buffer;
          if utf8_valid line then print tty (line @ [10]) w
          else print tty (ascii ''line was not utf8'') w }
      | LineErr BufferTooSmall \<Rightarrow> print tty (ascii ''line too long'') w
      | LineErr SerialErr \<Rightarrow> print tty (ascii ''serial err'') w)"

text \<open>
  The task never ends: it is followed until it waits for a byte, and what it has then is the
  buffer, the length of the line in it, the input that is left and the terminal.
\<close>

function handle_serial ::
  "'w tty \<Rightarrow> u8 option list \<Rightarrow> 'w \<Rightarrow> (bytes \<times> nat \<times> u8 option list \<times> 'w) option" where
  "handle_serial tty input w = do {
     w \<leftarrow> print tty (ascii ''> '') w;
     (r, buffer, rest, w) \<leftarrow> readline tty input (replicate 1024 0) 0 w;
     w \<leftarrow> report_line tty r buffer w;
     case r of Waiting count \<Rightarrow> Some (buffer, count, rest, w) | _ \<Rightarrow> handle_serial tty rest w }"
  by pat_completeness auto
termination
  by (relation "measure (\<lambda>(_, input, _). length input)") (auto dest: readline_consumes)

declare handle_serial.simps [simp del]

section \<open>What is typed\<close>

text \<open>Line editing, without a buffer: what the line is after each key.\<close>

definition printable :: "u8 \<Rightarrow> bool" where
  "printable b \<longleftrightarrow> 32 \<le> b \<and> b \<le> 126"

definition edit_key :: "u8 \<Rightarrow> bytes \<Rightarrow> bytes" where
  "edit_key b line =
     (if b = 8 \<or> b = 127 then butlast line else if printable b then line @ [b] else line)"

fun typed :: "nat \<Rightarrow> u8 option list \<Rightarrow> bytes \<Rightarrow> line_result \<times> bytes \<times> u8 option list" where
  "typed cap [] line = (Waiting (length line), line, [])"
| "typed cap (None # input) line = (LineErr SerialErr, line, input)"
| "typed cap (Some b # input) line =
     (if b = 10 \<or> b = 13 then (Line (length line), line, input)
      else if printable b \<and> cap \<le> length line then (LineErr BufferTooSmall, line, input)
      else typed cap input (edit_key b line))"

text \<open>What the terminal is sent back while a line is typed.\<close>

definition echo_key :: "u8 \<Rightarrow> bytes \<Rightarrow> bytes list" where
  "echo_key b line =
     (if b = 8 \<or> b = 127 then (if line = [] then [] else [[8, 32, 8]])
      else if printable b then [[b]] else [])"

fun echoed :: "nat \<Rightarrow> u8 option list \<Rightarrow> bytes \<Rightarrow> bytes list" where
  "echoed cap [] line = []"
| "echoed cap (None # input) line = []"
| "echoed cap (Some b # input) line =
     (if b = 10 \<or> b = 13 then [[10]]
      else if printable b \<and> cap \<le> length line then []
      else echo_key b line @ echoed cap input (edit_key b line))"

lemma typed_consumes:
  "typed cap input line = (r, line', rest) \<Longrightarrow>
     (if \<exists>n. r = Waiting n then rest = [] else length rest < length input)"
  by (induction cap input line rule: typed.induct) (auto split: if_splits)

text \<open>
  The dialogue of the echo task: a prompt, the echo of each line and the answer to it, until the
  input is used up in the middle of a line.
\<close>

definition answer :: "line_result \<Rightarrow> bytes \<Rightarrow> bytes" where
  "answer r line =
     (case r of
        Line _ \<Rightarrow> line @ [10]
      | LineErr BufferTooSmall \<Rightarrow> ascii ''line too long''
      | LineErr SerialErr \<Rightarrow> ascii ''serial err''
      | Waiting _ \<Rightarrow> [])"

function dialogue :: "u8 option list \<Rightarrow> bytes list \<times> bytes" where
  "dialogue input =
     (case typed 1024 input [] of
        (Waiting _, line, _) \<Rightarrow> (ascii ''> '' # echoed 1024 input [], line)
      | (r, line, rest) \<Rightarrow>
          apfst (\<lambda>ws. ascii ''> '' # echoed 1024 input [] @ answer r line # ws) (dialogue rest))"
  by pat_completeness auto
termination
  by (relation "measure length") (auto dest: typed_consumes[OF sym])

declare dialogue.simps [simp del]

section \<open>A terminal that takes its output\<close>

definition tty_accepts :: "'w tty \<Rightarrow> bool" where
  "tty_accepts tty \<longleftrightarrow> (\<forall>bs w. fst (tty_write tty bs w))"

definition tty_sends :: "'w tty \<Rightarrow> bytes list \<Rightarrow> 'w \<Rightarrow> 'w" where
  "tty_sends tty ws w = fold (\<lambda>bs w. snd (tty_write tty bs w)) ws w"

lemma tty_sends_simps [simp]:
  "tty_sends tty [] w = w"
  "tty_sends tty (bs # ws) w = tty_sends tty ws (snd (tty_write tty bs w))"
  "tty_sends tty (us @ ws) w = tty_sends tty ws (tty_sends tty us w)"
  by (simp_all add: tty_sends_def)

lemma tty_writes:
  assumes "tty_accepts tty"
  shows "print tty bs w = Some (snd (tty_write tty bs w))"
    and "(case tty_write tty bs w of (True, w) \<Rightarrow> f w | (False, w) \<Rightarrow> g w) = f (snd (tty_write tty bs w))"
  using assms by (simp_all add: tty_accepts_def print_def split_def)

text \<open>How \<open>readline\<close> relates to the keys typed: the buffer holds the line.\<close>

definition line_in :: "bytes \<Rightarrow> bytes \<Rightarrow> bool" where
  "line_in line buffer \<longleftrightarrow> length line \<le> length buffer \<and> take (length line) buffer = line"

lemma line_in_butlast: "line_in line buffer \<Longrightarrow> line_in (butlast line) buffer"
  by (auto simp: line_in_def butlast_conv_take) (metis take_take min.absorb1 diff_le_self)

lemma line_in_snoc:
  assumes "line_in line buffer" and "length line < length buffer"
  shows "line_in (line @ [b]) (buffer[length line := b])"
  using assms by (simp add: line_in_def take_Suc_conv_app_nth)

lemma printable_keys:
  assumes "printable b"
  shows "b \<noteq> 10" "b \<noteq> 13" "b \<noteq> 8" "b \<noteq> 127" "32 \<le> b" "b \<le> 126"
proof -
  have "\<not> printable 10" "\<not> printable 13" "\<not> printable 8" "\<not> printable 127"
    by (simp_all add: printable_def)
  with assms show "b \<noteq> 10" "b \<noteq> 13" "b \<noteq> 8" "b \<noteq> 127" by metis+
  show "32 \<le> b" "b \<le> 126" using assms by (simp_all add: printable_def)
qed

lemma readline_typed:
  assumes "tty_accepts tty" and "line_in line buffer" and "cap = length buffer"
  shows "\<exists>buffer'. readline tty input buffer (length line) w
      = Some (fst (typed cap input line), buffer', snd (snd (typed cap input line)),
          tty_sends tty (echoed cap input line) w)
    \<and> length buffer' = cap \<and> line_in (fst (snd (typed cap input line))) buffer'"
  using assms(2,3)
proof (induction cap input line arbitrary: buffer w rule: typed.induct)
  case (3 cap b input line)
  note IH = "3.IH" and prems = "3.prems" and out = tty_writes[OF assms(1)]
  consider (enter) "b = 10 \<or> b = 13" | (erase) "b = 8 \<or> b = 127" "line \<noteq> []"
    | (full) "printable b" "cap \<le> length line" | (key) "printable b" "length line < cap"
    | (other) "\<not> printable b" "b \<noteq> 10" "b \<noteq> 13" "b = 8 \<or> b = 127 \<longrightarrow> line = []"
    by fastforce
  then show ?case
  proof cases
    case enter
    then show ?thesis using prems by (auto simp: out)
  next
    case erase
    have np: "\<not> printable b" "b \<noteq> 10" "b \<noteq> 13" using erase(1) by (auto simp: printable_def)
    have "line_in (butlast line) buffer" by (rule line_in_butlast[OF prems(1)])
    then show ?thesis
      using IH[of buffer "snd (tty_write tty [8, 32, 8] w)"] np erase prems(2)
      by (auto simp: edit_key_def echo_key_def out)
  next
    case full
    have "readline tty (Some b # input) buffer (length line) w
        = Some (LineErr BufferTooSmall, buffer, input, w)"
      using full(2) prems(2) by (simp only: readline.simps printable_keys[OF full(1)] simp_thms if_True if_False) simp
    moreover have "typed cap (Some b # input) line = (LineErr BufferTooSmall, line, input)"
      "echoed cap (Some b # input) line = []"
      using full printable_keys[OF full(1)] by simp_all
    ultimately show ?thesis using prems by simp
  next
    case key
    note k = printable_keys[OF key(1)]
    have "line_in (line @ [b]) (buffer[length line := b])" using line_in_snoc[OF prems(1)] key(2) prems(2) by simp
    then show ?thesis
      using IH[of "buffer[length line := b]" "snd (tty_write tty [b] w)"] k key prems(2)
      by (auto simp: edit_key_def echo_key_def slice_set_def out)
  next
    case other
    then have "\<not> (32 \<le> b \<and> b \<le> 126)" by (simp add: printable_def)
    with other IH[of buffer w] prems show ?thesis by (auto simp: edit_key_def echo_key_def)
  qed
qed (auto simp: line_in_def)

lemma edit_key_printable: "list_all printable line \<Longrightarrow> list_all printable (edit_key b line)"
  by (simp add: edit_key_def butlast_conv_take list_all_iff) (meson in_set_takeD)

lemma typed_printable:
  "list_all printable line \<Longrightarrow> list_all printable (fst (snd (typed cap input line)))"
proof (induction cap input line rule: typed.induct)
  case (3 cap b input line)
  show ?case
    by (simp only: typed.simps) (simp add: "3.IH" "3.prems" edit_key_printable)
qed simp_all

lemma utf8_printable: "list_all printable bs \<Longrightarrow> utf8_valid bs"
proof (induction bs)
  case (Cons b bs)
  then have "b \<le> 126" by (simp add: printable_def)
  then have "b < 0x80" by (rule le_less_trans) simp
  with Cons show ?case by simp
qed simp

lemma typed_length:
  "fst (typed cap input line) = Line n \<or> fst (typed cap input line) = Waiting n
     \<Longrightarrow> n = length (fst (snd (typed cap input line)))"
  by (induction cap input line rule: typed.induct) (auto split: if_splits)

text \<open>The answer to a line is the line itself: what was typed is always valid UTF-8.\<close>

lemma report_line_answers:
  assumes "tty_accepts tty" and "typed 1024 input [] = (r, line, rest)" and "line_in line buffer"
    and "\<nexists>n. r = Waiting n"
  shows "report_line tty r buffer w = Some (tty_sends tty [answer r line] w)"
proof (cases r)
  case (Line n)
  have "n = length line" using typed_length[of 1024 input "[]" n] assms(2) Line by simp
  then have "slice_range 0 n buffer = Some line" using assms(3) by (simp add: slice_range_def line_in_def)
  moreover have "utf8_valid line"
    using typed_printable[of "[]" 1024 input] assms(2) by (simp add: utf8_printable)
  ultimately show ?thesis using Line by (simp add: report_line_def answer_def tty_writes[OF assms(1)])
next
  case (LineErr e)
  then show ?thesis by (cases e) (simp_all add: report_line_def answer_def tty_writes[OF assms(1)])
qed (use assms(4) in simp)

text \<open>One round of the loop.\<close>

lemma handle_serial_round:
  assumes "tty_accepts tty" and t: "typed 1024 input [] = (r, line, rest)"
  shows "\<exists>buffer. length buffer = 1024 \<and> take (length line) buffer = line \<and> handle_serial tty input w =
    (case r of
       Waiting n \<Rightarrow> Some (buffer, length line, rest, tty_sends tty (ascii ''> '' # echoed 1024 input []) w)
     | _ \<Rightarrow> handle_serial tty rest
         (tty_sends tty (ascii ''> '' # echoed 1024 input [] @ [answer r line]) w))"
proof -
  let ?v = "snd (tty_write tty (ascii ''> '') w)"
  have "line_in [] (replicate 1024 0)" by (simp add: line_in_def)
  from readline_typed[OF assms(1) this, of 1024 input ?v] t obtain buffer where
    r: "readline tty input (replicate 1024 0) 0 ?v
      = Some (r, buffer, rest, tty_sends tty (echoed 1024 input []) ?v)"
    and b: "length buffer = 1024" "line_in line buffer" by auto
  have h: "handle_serial tty input w = do {
      w \<leftarrow> report_line tty r buffer (tty_sends tty (echoed 1024 input []) ?v);
      case r of Waiting count \<Rightarrow> Some (buffer, count, rest, w) | _ \<Rightarrow> handle_serial tty rest w }"
    by (subst handle_serial.simps) (simp add: tty_writes[OF assms(1)] r)
  show ?thesis
  proof (cases "\<exists>n. r = Waiting n")
    case True
    then obtain n where n: "r = Waiting n" by blast
    then have "n = length line" using typed_length[of 1024 input "[]" n] t by simp
    with n b h show ?thesis by (auto simp: report_line_def line_in_def)
  next
    case False
    with b h report_line_answers[OF assms b(2)] show ?thesis
      by (auto simp: line_in_def split: line_result.split)
  qed
qed

lemma handle_serial_dialogue:
  assumes "tty_accepts tty"
  shows "case dialogue input of (writes, line) \<Rightarrow>
    \<exists>buffer. handle_serial tty input w = Some (buffer, length line, [], tty_sends tty writes w)
      \<and> length buffer = 1024 \<and> take (length line) buffer = line"
proof (induction "length input" arbitrary: input w rule: less_induct)
  case less
  obtain r line rest where t: "typed 1024 input [] = (r, line, rest)" by (rule prod_cases3)
  obtain buffer where round: "length buffer = 1024" "take (length line) buffer = line"
    "handle_serial tty input w =
    (case r of
       Waiting n \<Rightarrow> Some (buffer, length line, rest, tty_sends tty (ascii ''> '' # echoed 1024 input []) w)
     | _ \<Rightarrow> handle_serial tty rest
         (tty_sends tty (ascii ''> '' # echoed 1024 input [] @ [answer r line]) w))"
    using handle_serial_round[OF assms t] by blast
  show ?case
  proof (cases "\<exists>n. r = Waiting n")
    case True
    moreover from this have "rest = []" using typed_consumes[OF t] by simp
    ultimately show ?thesis using round t by (subst dialogue.simps) auto
  next
    case False
    then have "length rest < length input" using typed_consumes[OF t] by (simp split: if_splits)
    note IH = less[OF this]
    have "dialogue input
        = apfst (\<lambda>ws. ascii ''> '' # echoed 1024 input [] @ answer r line # ws) (dialogue rest)"
      using False t by (subst dialogue.simps) (auto split: line_result.split)
    moreover have "handle_serial tty input w = handle_serial tty rest
        (tty_sends tty (ascii ''> '' # echoed 1024 input [] @ [answer r line]) w)"
      using False round(3) by (simp split: line_result.splits)
    ultimately show ?thesis
      using IH[of "tty_sends tty (ascii ''> '' # echoed 1024 input [] @ [answer r line]) w"]
      by (auto split: prod.splits)
  qed
qed

text \<open>A terminal that records what it is sent.\<close>

definition log_tty :: "bytes tty" where
  "log_tty = \<lparr> tty_write = \<lambda>bs w. (True, w @ bs) \<rparr>"

lemma log_tty_accepts: "tty_accepts log_tty"
  by (simp add: tty_accepts_def log_tty_def)

section \<open>Properties\<close>

text \<open>C32: \<open>readline\<close> is line editing. On a terminal that accepts its output it never panics and
  never writes outside the buffer; its result, and how much input it takes, are those of editing
  the keys typed, with an error at the first printable key the buffer has no room for, and the
  buffer starts with the edited line, which is printable ASCII and so always valid UTF-8.\<close>

theorem readline_is_line_editing:
  assumes "tty_accepts tty"
  shows "case typed (length buffer) input [] of (r, line, rest) \<Rightarrow>
    \<exists>buffer' w'. readline tty input buffer 0 w = Some (r, buffer', rest, w')
      \<and> length buffer' = length buffer \<and> length line \<le> length buffer
      \<and> take (length line) buffer' = line \<and> list_all printable line \<and> utf8_valid line"
proof -
  have "line_in [] buffer" by (simp add: line_in_def)
  from readline_typed[OF assms this refl, of input w] typed_printable[of "[]" "length buffer" input]
  show ?thesis by (auto simp: line_in_def utf8_printable split: prod.split)
qed

theorem readline_is_line_editing_witness:
  "\<exists>buffer' w'. readline log_tty (map Some [104, 111, 127, 105, 13, 120]) (replicate 8 0) 0 []
      = Some (Line 2, buffer', [Some 120], w') \<and> take 2 buffer' = [104, 105]"
proof -
  let ?keys = "map Some [104, 111, 127, 105, 13, 120 :: u8]"
  have e: "typed (length (replicate 8 (0 :: u8))) ?keys [] = (Line 2, [104, 105], [Some 120])"
    by code_simp
  obtain buffer' w' where "readline log_tty ?keys (replicate 8 0) 0 []
      = Some (Line 2, buffer', [Some 120], w')" "take (length [104, 105 :: u8]) buffer' = [104, 105]"
    using readline_is_line_editing[OF log_tty_accepts, where buffer = "replicate 8 0" and w = "[]"
        and input = ?keys, unfolded e prod.case] by blast
  moreover have "length [104, 105 :: u8] = 2" by simp
  ultimately show ?thesis by metis
qed

text \<open>C33: the echo task serves all its input. Whatever is typed, on a terminal that accepts its
  output it never panics, takes every item of the input and ends up waiting, with the unfinished
  line in its buffer. What it has written is exactly the dialogue: a prompt, the echo of every key
  that the editing of the line takes, and for each line the line itself, or the message for the
  error that ended it.\<close>

theorem handle_serial_serves_input:
  assumes "tty_accepts tty"
  shows "case dialogue input of (writes, line) \<Rightarrow>
    \<exists>buffer. handle_serial tty input w = Some (buffer, length line, [], tty_sends tty writes w)
      \<and> length buffer = 1024 \<and> take (length line) buffer = line"
  by (rule handle_serial_dialogue[OF assms])

theorem handle_serial_serves_input_witness:
  "\<exists>buffer. handle_serial log_tty (map Some [104, 111, 127, 105, 13, 33]) []
      = Some (buffer, 1, [], ascii ''> ho'' @ [8, 32, 8] @ ascii ''i'' @ [10] @ ascii ''hi'' @ [10] @ ascii ''> !'')
    \<and> take 1 buffer = ascii ''!''"
proof -
  let ?keys = "map Some [104, 111, 127, 105, 13, 33 :: u8]"
  have t: "typed 1024 ?keys [] = (Line 2, [104, 105], [Some 33])" "typed 1024 [Some 33] [] = (Waiting 1, [33], [])"
    and e: "echoed 1024 ?keys [] = [[104], [111], [8, 32, 8], [105], [10]]" "echoed 1024 [Some 33] [] = [[33]]"
    by code_simp+
  have d: "dialogue ?keys = ([ascii ''> '', [104], [111], [8, 32, 8], [105], [10],
      answer (Line 2) [104, 105], ascii ''> '', [33]], [33])"
    by (subst dialogue.simps, subst t(1), simp only: prod.case line_result.case e)
      (subst dialogue.simps, simp only: t(2) e prod.case line_result.case apfst_conv append.simps)
  have "tty_sends log_tty [ascii ''> '', [104], [111], [8, 32, 8], [105], [10],
      answer (Line 2) [104, 105], ascii ''> '', [33]] []
    = ascii ''> ho'' @ [8, 32, 8] @ ascii ''i'' @ [10] @ ascii ''hi'' @ [10] @ ascii ''> !''"
    by (simp add: log_tty_def answer_def) code_simp
  with handle_serial_serves_input[OF log_tty_accepts, of ?keys "[]", unfolded d]
  show ?thesis by (auto simp: ascii_def simp del: tty_sends_simps)
qed

end
