(* ===== verification/Interrupt_Mutex.thy ===== *)
theory Interrupt_Mutex
  imports Main
begin

text \<open>
  The mutex that masks interrupts (\<open>kernel/src/mutex.rs\<close>) on the one processor the kernel uses:
  taking it saves and clears the interrupt flag before it takes the spin lock inside, dropping
  its guard releases the lock before it restores the flag. A spin lock that is already held spins
  for ever on a single processor, which is \<^const>\<open>None\<close>. The kernel also takes plain spin locks, for the
  page allocator and the network interface; the histories below have both.
\<close>

section \<open>Locking\<close>

record 'l machine =
  interrupts :: bool
  locked :: "'l \<Rightarrow> bool"

definition spin_lock :: "'l \<Rightarrow> 'l machine \<Rightarrow> 'l machine option" where
  "spin_lock l m = (if locked m l then None else Some (m\<lparr>locked := (locked m)(l := True)\<rparr>))"

definition mutex_lock :: "'l \<Rightarrow> 'l machine \<Rightarrow> (bool \<times> 'l machine) option" where
  "mutex_lock l m =
     (let saved_int = interrupts m;
          m = (if saved_int then m\<lparr>interrupts := False\<rparr> else m)
      in map_option (\<lambda>m. (saved_int, m)) (spin_lock l m))"

definition spin_unlock :: "'l \<Rightarrow> 'l machine \<Rightarrow> 'l machine" where
  "spin_unlock l m = m\<lparr>locked := (locked m)(l := False)\<rparr>"

definition guard_drop :: "'l \<Rightarrow> bool \<Rightarrow> 'l machine \<Rightarrow> 'l machine" where
  "guard_drop l saved_int m =
     (let m = spin_unlock l m
      in if saved_int then m\<lparr>interrupts := True\<rparr> else m)"

section \<open>Guards alive\<close>

text \<open>
  The machines a program reaches, with the guards of interrupt mutexes that are alive, the last
  taken first, and the plain spin locks it holds. Scopes drop guards in the reverse order of taking
  them; nothing in the types keeps a program from dropping them in any order.
\<close>

datatype drop_order = Nested | AnyOrder

inductive guarded ::
  "drop_order \<Rightarrow> 'l machine \<Rightarrow> 'l machine \<Rightarrow> ('l \<times> bool) list \<Rightarrow> 'l list \<Rightarrow> bool" for order m0 where
  none: "guarded order m0 m0 [] []"
| lock: "\<lbrakk>guarded order m0 m gs ps; mutex_lock l m = Some (saved, m')\<rbrakk>
    \<Longrightarrow> guarded order m0 m' ((l, saved) # gs) ps"
| drop: "\<lbrakk>guarded order m0 m (hs @ (l, saved) # gs) ps; order = Nested \<longrightarrow> hs = []\<rbrakk>
    \<Longrightarrow> guarded order m0 (guard_drop l saved m) (hs @ gs) ps"
| spin: "\<lbrakk>guarded order m0 m gs ps; spin_lock l m = Some m'\<rbrakk> \<Longrightarrow> guarded order m0 m' gs (l # ps)"
| unspin: "guarded order m0 m gs (ps @ l # qs) \<Longrightarrow> guarded order m0 (spin_unlock l m) gs (ps @ qs)"

lemma lock_drop:
  assumes "mutex_lock l m = Some (saved, m')"
  shows "guard_drop l saved m' = m" and "\<not> interrupts m'" and "\<not> locked m l"
    and "locked m' = (locked m)(l := True)" and "saved = interrupts m"
  using assms
  by (auto simp: mutex_lock_def guard_drop_def spin_lock_def spin_unlock_def Let_def fun_eq_iff
      split: if_splits)

lemma spin_locked:
  assumes "spin_lock l m = Some m'"
  shows "\<not> locked m l" and "locked m' = (locked m)(l := True)" and "interrupts m' = interrupts m"
  using assms by (auto simp: spin_lock_def split: if_splits)

lemma guard_dropped:
  "locked (guard_drop l saved m) = (locked m)(l := False)"
  "interrupts (guard_drop l saved m) \<longleftrightarrow> interrupts m \<or> saved"
  by (simp_all add: guard_drop_def spin_unlock_def Let_def)

text \<open>Exactly the locks with a guard and the spin locks taken are held, each of them once.\<close>

lemma guarded_locks:
  assumes "guarded order m0 m gs ps" and "\<forall>l. \<not> locked m0 l"
  shows "(\<forall>l. locked m l \<longleftrightarrow> l \<in> fst ` set gs \<union> set ps) \<and> distinct (map fst gs @ ps)"
  using assms(1)
proof induction
  case none
  then show ?case using assms(2) by simp
next
  case (lock m gs ps l saved m')
  then show ?case using lock_drop(3,4)[OF lock.hyps(2)] by auto
next
  case (drop m hs l saved gs ps)
  then show ?case by (auto simp: guard_dropped)
next
  case (spin m gs ps l m')
  then show ?case using spin_locked(1,2)[OF spin.hyps(2)] by auto
next
  case (unspin m gs ps l qs)
  then show ?case by (auto simp: spin_unlock_def)
qed

text \<open>The flag is clear exactly while a guard is alive that found it set; there is at most one.\<close>

lemma guarded_flag:
  assumes "guarded order m0 m gs ps"
  shows "(interrupts m \<longleftrightarrow> interrupts m0 \<and> filter snd gs = []) \<and> length (filter snd gs) \<le> 1
    \<and> (filter snd gs \<noteq> [] \<longrightarrow> interrupts m0)"
  using assms
proof induction
  case (lock m gs ps l saved m')
  then show ?case using lock_drop(2,5)[OF lock.hyps(2)] by auto
next
  case (drop m hs l saved gs ps)
  then show ?case by (auto simp: guard_dropped)
next
  case (spin m gs ps l m')
  then show ?case using spin_locked(3)[OF spin.hyps(2)] by simp
qed (simp_all add: spin_unlock_def)

text \<open>With nested scopes that guard is the outermost one.\<close>

lemma guarded_nested:
  assumes "guarded order m0 m gs ps" and "order = Nested"
  shows "gs \<noteq> [] \<longrightarrow> \<not> interrupts m \<and> snd (last gs) = interrupts m0 \<and> filter snd (butlast gs) = []"
  using assms(1)
proof induction
  case (lock m gs ps l saved m')
  then show ?case
    using lock_drop(2,5)[OF lock.hyps(2)] guarded_flag[OF lock.hyps(1)] by (cases gs) auto
next
  case (drop m hs l saved gs ps)
  then show ?case using assms(2) by (cases gs) (auto simp: guard_dropped split: if_splits)
next
  case (spin m gs ps l m')
  then show ?case using spin_locked(3)[OF spin.hyps(2)] by simp
qed (simp_all add: spin_unlock_def)

definition idle_machine :: "nat machine" where
  "idle_machine = \<lparr> interrupts = True, locked = \<lambda>_. False \<rparr>"

text \<open>
  Guards that are dropped in the order they were taken: the flag is set again while the second
  lock is held, and an interrupt handler that takes that lock spins for ever.
\<close>

lemma crossed_drops_expose_lock:
  "\<exists>m. guarded AnyOrder idle_machine m [(2, False)] [] \<and> interrupts m
    \<and> mutex_lock 2 (m\<lparr>interrupts := False\<rparr>) = None"
proof -
  let ?m1 = "\<lparr> interrupts = False, locked = (\<lambda>_. False)(1 := True) \<rparr>"
  let ?m2 = "\<lparr> interrupts = False, locked = (\<lambda>_. False)(1 := True, 2 := True) \<rparr>"
  have "guarded AnyOrder idle_machine ?m1 [(1, True)] []"
    by (rule guarded.lock[OF guarded.none]) (simp add: mutex_lock_def spin_lock_def idle_machine_def)
  then have "guarded AnyOrder idle_machine ?m2 ([(2, False)] @ (1, True) # []) []"
    unfolding append.simps by (rule guarded.lock) (simp add: mutex_lock_def spin_lock_def)
  then have "guarded AnyOrder idle_machine (guard_drop 1 True ?m2) ([(2, False)] @ []) []"
    by (rule guarded.drop) simp
  then show ?thesis
    by (intro exI[of _ "guard_drop 1 True ?m2"])
      (simp add: guard_drop_def spin_unlock_def mutex_lock_def spin_lock_def)
qed

section \<open>Properties\<close>



end
