(* ===== verification/Faults.thy ===== *)
theory Faults
  imports Addresses Vga Serial_Line Interrupt_Mutex
begin

text \<open>
  What the kernel does when something goes wrong: the panic handler (\<open>panic\<close> in
  \<open>kernel/src/main.rs\<close>), the exception handlers (\<open>kernel/src/interrupts.rs\<close>) and the two ways they
  report, the console (\<open>_print\<close> in \<open>kernel/src/vga.rs\<close>) and the serial line (\<open>print\<close> in
  \<open>kernel/src/serial.rs\<close>), each behind its lock. A handler can run while the code it interrupted
  holds either lock, and a report can itself panic, so here a panic and a spin lock that is never
  released are outcomes with a state, not the absence of a result.
\<close>

section \<open>Printing under a lock\<close>

text \<open>
  The two statics \<open>WRITER\<close> and \<open>SERIAL_TTY\<close>, and what they guard. Both are made on first use;
  making the first cannot fail. For the second, which opens the serial port, the model keeps
  whether it is made and, as a lock of its own, that it is being made: whoever needs it then waits.
\<close>

datatype console_lock = WRITER | SERIAL_TTY | SERIAL_ONCE

record 'w consoles =
  locks :: "console_lock machine"
  vga :: writer
  tty_made :: bool
  serial :: 'w

text \<open>The serial port is a terminal that has to be opened.\<close>

record 'w serial_port = "'w tty" +
  new_port :: "'w \<Rightarrow> bool \<times> 'w"

text \<open>A panic is named by the static whose use it comes from.\<close>

datatype failure = Spin console_lock | Panic console_lock

text \<open>\<open>WRITER\<close> as it is initialized over the cells of the screen.\<close>

definition writer_init :: "screen_char list list \<Rightarrow> writer" where
  "writer_init cells = writer_new (color_code_new LightBlue Black) cells"

text \<open>
  \<open>_print\<close>. Nothing unwinds, so a panic while the guard is alive leaves the lock taken; a spin
  lock that is held spins with interrupts off.
\<close>

definition vga_print :: "bytes \<Rightarrow> 'w consoles \<Rightarrow> (failure \<times> 'w consoles) + 'w consoles" where
  "vga_print bs s =
     (case mutex_lock WRITER (locks s) of
        None \<Rightarrow> Inl (Spin WRITER, s\<lparr>locks := (locks s)\<lparr>interrupts := False\<rparr>\<rparr>)
      | Some (saved, m) \<Rightarrow>
          (case write_str bs (vga s) of
             None \<Rightarrow> Inl (Panic WRITER, s\<lparr>locks := m\<rparr>)
           | Some v \<Rightarrow> Inr (s\<lparr>locks := guard_drop WRITER saved m, vga := v\<rparr>)))"

definition vga_println :: "bytes \<Rightarrow> 'w consoles \<Rightarrow> (failure \<times> 'w consoles) + 'w consoles" where
  "vga_println bs s = vga_print (bs @ [10]) s"

text \<open>
  Using \<open>SERIAL_TTY\<close>: the first use opens the port, and panics when that fails. Nothing unwinds, so
  it then counts as being made for ever.
\<close>

definition serial_tty :: "'w serial_port \<Rightarrow> 'w consoles \<Rightarrow> (failure \<times> 'w consoles) + 'w consoles" where
  "serial_tty port s =
     (if tty_made s then Inr s
      else (case spin_lock SERIAL_ONCE (locks s) of
          None \<Rightarrow> Inl (Spin SERIAL_ONCE, s)
        | Some m \<Rightarrow>
            (case new_port port (serial s) of
               (False, w) \<Rightarrow> Inl (Panic SERIAL_ONCE, s\<lparr>locks := m, serial := w\<rparr>)
             | (True, w) \<Rightarrow>
                 Inr (s\<lparr>locks := spin_unlock SERIAL_ONCE m, tty_made := True, serial := w\<rparr>))))"

text \<open>\<open>serial::print\<close>: the \<open>unwrap\<close> panics before the guard is dropped.\<close>

definition serial_print ::
  "'w serial_port \<Rightarrow> bytes \<Rightarrow> 'w consoles \<Rightarrow> (failure \<times> 'w consoles) + 'w consoles" where
  "serial_print port bs s =
     (case serial_tty port s of
        Inl f \<Rightarrow> Inl f
      | Inr s \<Rightarrow>
         (case mutex_lock SERIAL_TTY (locks s) of
            None \<Rightarrow> Inl (Spin SERIAL_TTY, s\<lparr>locks := (locks s)\<lparr>interrupts := False\<rparr>\<rparr>)
          | Some (saved, m) \<Rightarrow>
              (case tty_write port bs (serial s) of
                 (False, w) \<Rightarrow> Inl (Panic SERIAL_TTY, s\<lparr>locks := m, serial := w\<rparr>)
               | (True, w) \<Rightarrow> Inr (s\<lparr>locks := guard_drop SERIAL_TTY saved m, serial := w\<rparr>))))"

lemma mutex_lock_free: "\<not> locked m l \<Longrightarrow> \<exists>saved m'. mutex_lock l m = Some (saved, m')"
  by (auto simp: mutex_lock_def spin_lock_def Let_def)

lemma mutex_lock_held: "locked m l \<Longrightarrow> mutex_lock l m = None"
  by (simp add: mutex_lock_def spin_lock_def Let_def)

lemma vga_print_cases:
  shows "vga_print bs s = Inl (Panic l, s') \<Longrightarrow>
      l = WRITER \<and> locked (locks s') = (locked (locks s))(WRITER := True) \<and> \<not> locked (locks s) WRITER"
    and "vga_print bs s = Inr s' \<Longrightarrow> locks s' = locks s \<and> \<not> locked (locks s) WRITER"
  by (auto simp: vga_print_def lock_drop split: option.splits)

lemma spin_unlock_lock: "spin_lock l m = Some m' \<Longrightarrow> spin_unlock l m' = m"
  by (cases m) (auto simp: spin_lock_def spin_unlock_def fun_eq_iff split: if_splits)

lemma serial_tty_cases:
  shows "serial_tty port s = Inl (Panic l, s') \<Longrightarrow> l = SERIAL_ONCE \<and> \<not> locked (locks s) SERIAL_ONCE
      \<and> locked (locks s') = (locked (locks s))(SERIAL_ONCE := True)"
    and "serial_tty port s = Inr s' \<Longrightarrow> locks s' = locks s \<and> tty_made s' \<and> vga s' = vga s"
  by (auto simp: serial_tty_def spin_unlock_lock spin_locked
      split: option.splits prod.splits bool.splits if_splits)

lemma serial_print_cases:
  shows "serial_print port bs s = Inl (Panic l, s') \<Longrightarrow>
      l \<noteq> WRITER \<and> locked (locks s') = (locked (locks s))(l := True) \<and> \<not> locked (locks s) l"
    and "serial_print port bs s = Inr s' \<Longrightarrow> locks s' = locks s \<and> \<not> locked (locks s) SERIAL_TTY"
  by (auto simp: serial_print_def lock_drop dest: serial_tty_cases
      split: sum.splits option.splits prod.splits bool.splits)

section \<open>The panic handler\<close>

text \<open>
  How the kernel can stop: in the \<open>loop {}\<close> of the panic handler, halted by the page fault
  handler, or on a lock that is never released.
\<close>

datatype stop = LoopsForever | HaltsForever | SpinsOn console_lock

text \<open>
  The panic handler does not return. A panic inside it starts it again, with the message of that
  panic; each such panic keeps a lock, so there are at most three. The texts of those messages, by
  the lock that was held, are the compiler's and are parameters.
\<close>

definition free_locks :: "'w consoles \<Rightarrow> nat" where
  "free_locks s =
     (if locked (locks s) WRITER then 0 else 1) + (if locked (locks s) SERIAL_TTY then 0 else 1)
     + (if locked (locks s) SERIAL_ONCE then 0 else 1)"

lemma free_locks_less:
  "locked (locks s') = (locked (locks s))(l := True) \<Longrightarrow> \<not> locked (locks s) l \<Longrightarrow> free_locks s' < free_locks s"
  by (cases l) (simp_all add: free_locks_def)

lemma free_locks_same: "locks s' = locks s \<Longrightarrow> free_locks s' = free_locks s"
  by (simp add: free_locks_def)

function panic :: "'w serial_port \<Rightarrow> (console_lock \<Rightarrow> bytes) \<Rightarrow> bytes \<Rightarrow> 'w consoles
     \<Rightarrow> stop \<times> 'w consoles" where
  "panic tty msg info s =
     (case vga_println info s of
        Inl (Spin l, s) \<Rightarrow> (SpinsOn l, s)
      | Inl (Panic l, s) \<Rightarrow> panic tty msg (msg l) s
      | Inr s \<Rightarrow>
          (case serial_print tty (ascii ''PANIC: '' @ info @ [10]) s of
             Inl (Spin l, s) \<Rightarrow> (SpinsOn l, s)
           | Inl (Panic l, s) \<Rightarrow> panic tty msg (msg l) s
           | Inr s \<Rightarrow> (LoopsForever, s)))"
  by pat_completeness auto
termination
  by (relation "measure (\<lambda>(_, _, _, s). free_locks s)")
    (auto simp: vga_println_def dest!: vga_print_cases serial_print_cases
      dest: free_locks_less free_locks_same)

declare panic.simps [simp del]

section \<open>The exception handlers\<close>

text \<open>
  Printing a line from a handler, where the failures of the print end the run. The texts of a
  stack frame, an address and a page fault's error code are what the x86-64 crate formats.
\<close>

definition report ::
  "'w serial_port \<Rightarrow> (console_lock \<Rightarrow> bytes) \<Rightarrow> bytes \<Rightarrow> 'w consoles \<Rightarrow> (stop \<times> 'w consoles) + 'w consoles" where
  "report tty msg bs s =
     (case vga_println bs s of
        Inl (Spin l, s) \<Rightarrow> Inl (SpinsOn l, s)
      | Inl (Panic l, s) \<Rightarrow> Inl (panic tty msg (msg l) s)
      | Inr s \<Rightarrow> Inr s)"

fun report_lines ::
  "'w serial_port \<Rightarrow> (console_lock \<Rightarrow> bytes) \<Rightarrow> bytes list \<Rightarrow> 'w consoles
     \<Rightarrow> (stop \<times> 'w consoles) + 'w consoles" where
  "report_lines tty msg [] s = Inr s"
| "report_lines tty msg (bs # rest) s =
     (case report tty msg bs s of Inl r \<Rightarrow> Inl r | Inr s \<Rightarrow> report_lines tty msg rest s)"

definition breakpoint_handler ::
  "'w serial_port \<Rightarrow> (console_lock \<Rightarrow> bytes) \<Rightarrow> bytes \<Rightarrow> 'w consoles \<Rightarrow> (stop \<times> 'w consoles) + 'w consoles" where
  "breakpoint_handler tty msg stack_frame s =
     report tty msg (ascii ''EXCEPTION: BREAKPOINT'' @ [10] @ stack_frame) s"

text \<open>\<open>panic!\<close> puts the place it stands at before its message.\<close>

definition double_fault_handler ::
  "'w serial_port \<Rightarrow> (console_lock \<Rightarrow> bytes) \<Rightarrow> bytes \<Rightarrow> bytes \<Rightarrow> 'w consoles \<Rightarrow> stop \<times> 'w consoles" where
  "double_fault_handler tty msg place stack_frame s =
     panic tty msg (place @ ascii ''EXCEPTION: DOUBLE FAULT'' @ [10] @ stack_frame) s"

definition page_fault_handler ::
  "'w serial_port \<Rightarrow> (console_lock \<Rightarrow> bytes) \<Rightarrow> bytes \<Rightarrow> bytes \<Rightarrow> bytes \<Rightarrow> 'w consoles \<Rightarrow> stop \<times> 'w consoles" where
  "page_fault_handler tty msg cr2 error_code stack_frame s =
     (case report_lines tty msg
        [ascii ''EXCEPTION: PAGE FAULT'', ascii ''Accessed Address: '' @ cr2,
         ascii ''Error Code: '' @ error_code, stack_frame] s of
        Inl r \<Rightarrow> r
      | Inr s \<Rightarrow> (HaltsForever, s))"

text \<open>The \<open>{:#x}\<close> of a number: \<open>0x\<close> and its digits.\<close>

fun hex_digits :: "nat \<Rightarrow> string" where
  "hex_digits n = (if n < 16 then [hex_digit n] else hex_digits (n div 16) @ [hex_digit (n mod 16)])"

declare hex_digits.simps [simp del]

definition gp_fault_handler ::
  "'w serial_port \<Rightarrow> (console_lock \<Rightarrow> bytes) \<Rightarrow> bytes \<Rightarrow> bytes \<Rightarrow> u64 \<Rightarrow> 'w consoles \<Rightarrow> stop \<times> 'w consoles" where
  "gp_fault_handler tty msg place frame error_code s =
     panic tty msg (place @ ascii (''GENERAL PROTECTION FAULT (Error Code: 0x'' @
       hex_digits (unat error_code) @ ''):'') @ [10] @ frame) s"

section \<open>What is on the screen\<close>

text \<open>The screen afterwards is the screen before with a text written to it, as a ring of cells.\<close>

definition displays :: "writer \<Rightarrow> bytes \<Rightarrow> writer \<Rightarrow> bool" where
  "displays v bs v' \<longleftrightarrow> color_code v' = color_code v
     \<and> shows_ring v' (fold (ring_byte (color_code v)) bs (cells_of v, cursor v))"

lemma displays_ok: "displays v bs v' \<Longrightarrow> writer_ok v'"
  by (simp add: displays_def shows_ring_def)

lemma write_str_displays:
  assumes "writer_ok v"
  shows "\<exists>v'. write_str bs v = Some v' \<and> displays v bs v'"
proof -
  have "shows_ring v (cells_of v, cursor v)" using assms by (simp add: shows_ring_def)
  from write_str_ring[OF this, of bs] show ?thesis by (auto simp: displays_def)
qed

lemma write_str_append: "write_str (xs @ ys) v = Option.bind (write_str xs v) (write_str ys)"
  by (induction xs v rule: write_str.induct) (auto split: bind_splits)

lemma vga_println_free:
  assumes "writer_ok (vga s)" and "\<not> locked (locks s) WRITER"
  shows "\<exists>v. vga_println bs s = Inr (s\<lparr>vga := v\<rparr>) \<and> write_str (bs @ [10]) (vga s) = Some v
    \<and> displays (vga s) (bs @ [10]) v"
proof -
  obtain saved m where m: "mutex_lock WRITER (locks s) = Some (saved, m)"
    using mutex_lock_free[OF assms(2)] by blast
  obtain v where "write_str (bs @ [10]) (vga s) = Some v" "displays (vga s) (bs @ [10]) v"
    using write_str_displays[OF assms(1)] by blast
  with m lock_drop(1)[OF m] show ?thesis by (simp add: vga_println_def vga_print_def)
qed

lemma vga_println_held:
  "locked (locks s) WRITER \<Longrightarrow>
     vga_println bs s = Inl (Spin WRITER, s\<lparr>locks := (locks s)\<lparr>interrupts := False\<rparr>\<rparr>)"
  by (simp add: vga_println_def vga_print_def mutex_lock_held)

text \<open>The port, if it can be opened, and what is known of it afterwards.\<close>

definition opened :: "'w serial_port \<Rightarrow> 'w consoles \<Rightarrow> bool \<times> 'w" where
  "opened port s = (if tty_made s then (True, serial s) else new_port port (serial s))"

lemma opened_vga [simp]: "opened port (s\<lparr>vga := v\<rparr>) = opened port s"
  by (simp add: opened_def)

lemma serial_tty_opened:
  assumes "tty_made s \<or> \<not> locked (locks s) SERIAL_ONCE"
  shows "opened port s = (True, w) \<Longrightarrow> serial_tty port s = Inr (s\<lparr>tty_made := True, serial := w\<rparr>)"
    and "opened port s = (False, w) \<Longrightarrow> \<exists>m. serial_tty port s = Inl (Panic SERIAL_ONCE, s\<lparr>locks := m, serial := w\<rparr>)
      \<and> locked m = (locked (locks s))(SERIAL_ONCE := True)"
proof -
  have "\<exists>m. tty_made s \<or> spin_lock SERIAL_ONCE (locks s) = Some m"
    using assms by (auto simp: spin_lock_def)
  then obtain m where m: "tty_made s \<or> spin_lock SERIAL_ONCE (locks s) = Some m" by blast
  then show "opened port s = (True, w) \<Longrightarrow> serial_tty port s = Inr (s\<lparr>tty_made := True, serial := w\<rparr>)"
    by (cases "tty_made s") (simp_all add: opened_def serial_tty_def spin_unlock_lock)
  show "opened port s = (False, w) \<Longrightarrow> \<exists>m. serial_tty port s = Inl (Panic SERIAL_ONCE, s\<lparr>locks := m, serial := w\<rparr>)
      \<and> locked m = (locked (locks s))(SERIAL_ONCE := True)"
    using m by (cases "tty_made s") (auto simp: opened_def serial_tty_def spin_locked)
qed

lemma serial_print_making:
  "\<not> tty_made s \<Longrightarrow> locked (locks s) SERIAL_ONCE \<Longrightarrow> serial_print port bs s = Inl (Spin SERIAL_ONCE, s)"
  by (simp add: serial_print_def serial_tty_def spin_lock_def)

lemma serial_print_opened:
  assumes "tty_made s \<or> \<not> locked (locks s) SERIAL_ONCE" and "opened port s = (True, v)"
  shows "locked (locks s) SERIAL_TTY \<Longrightarrow> serial_print port bs s = Inl (Spin SERIAL_TTY,
      s\<lparr>locks := (locks s)\<lparr>interrupts := False\<rparr>, tty_made := True, serial := v\<rparr>)"
    and "\<not> locked (locks s) SERIAL_TTY \<Longrightarrow> tty_write port bs v = (True, w) \<Longrightarrow>
      serial_print port bs s = Inr (s\<lparr>tty_made := True, serial := w\<rparr>)"
    and "\<not> locked (locks s) SERIAL_TTY \<Longrightarrow> tty_write port bs v = (False, w) \<Longrightarrow>
      \<exists>m. serial_print port bs s = Inl (Panic SERIAL_TTY, s\<lparr>locks := m, tty_made := True, serial := w\<rparr>)
        \<and> locked m = (locked (locks s))(SERIAL_TTY := True)"
proof -
  note made = serial_tty_opened(1)[OF assms]
  show "locked (locks s) SERIAL_TTY \<Longrightarrow> serial_print port bs s = Inl (Spin SERIAL_TTY,
      s\<lparr>locks := (locks s)\<lparr>interrupts := False\<rparr>, tty_made := True, serial := v\<rparr>)"
    by (simp add: serial_print_def made mutex_lock_held)
  assume "\<not> locked (locks s) SERIAL_TTY"
  from mutex_lock_free[OF this] obtain saved m where
    m: "mutex_lock SERIAL_TTY (locks s) = Some (saved, m)" by blast
  show "tty_write port bs v = (True, w) \<Longrightarrow> serial_print port bs s = Inr (s\<lparr>tty_made := True, serial := w\<rparr>)"
    using m lock_drop(1)[OF m] by (simp add: serial_print_def made)
  show "tty_write port bs v = (False, w) \<Longrightarrow>
      \<exists>m. serial_print port bs s = Inl (Panic SERIAL_TTY, s\<lparr>locks := m, tty_made := True, serial := w\<rparr>)
        \<and> locked m = (locked (locks s))(SERIAL_TTY := True)"
    using m lock_drop(4)[OF m] by (intro exI[of _ m]) (simp add: serial_print_def made)
qed

text \<open>A handler that is entered with the console's lock held stops at its first print.\<close>

lemma panic_writer_held:
  "locked (locks s) WRITER \<Longrightarrow>
     panic tty msg info s = (SpinsOn WRITER, s\<lparr>locks := (locks s)\<lparr>interrupts := False\<rparr>\<rparr>)"
  by (simp add: panic.simps vga_println_held)

text \<open>A panic inside the handler, from the serial line, shows its message and waits for that line.\<close>

lemma panic_after_panic:
  assumes "writer_ok (vga s)" and "\<not> locked (locks s) WRITER" and "tty_made s = (l = SERIAL_TTY)"
    and "locked (locks s) l" and "l \<noteq> WRITER"
  shows "\<exists>v s'. panic tty msg info s = (SpinsOn l, s') \<and> vga s' = v \<and> serial s' = serial s
    \<and> write_str (info @ [10]) (vga s) = Some v"
proof -
  obtain v where v: "vga_println info s = Inr (s\<lparr>vga := v\<rparr>)" "write_str (info @ [10]) (vga s) = Some v"
    using vga_println_free[OF assms(1,2), of info] by blast
  have "\<exists>s'. serial_print tty (ascii ''PANIC: '' @ info @ [10]) (s\<lparr>vga := v\<rparr>) = Inl (Spin l, s')
      \<and> vga s' = v \<and> serial s' = serial s"
    using assms(3-5) serial_print_making[of "s\<lparr>vga := v\<rparr>" tty]
      serial_print_opened(1)[of "s\<lparr>vga := v\<rparr>" tty "serial s"]
    by (cases l) (auto simp: opened_def)
  then show ?thesis using v by (auto simp: panic.simps)
qed

text \<open>The handler once the message is on the screen.\<close>

lemma panic_shown:
  assumes "writer_ok (vga s)" and "\<not> locked (locks s) WRITER"
  obtains v where "displays (vga s) (info @ [10]) v" and "write_str (info @ [10]) (vga s) = Some v"
    and "writer_ok v"
    and "panic tty msg info s = (case serial_print tty (ascii ''PANIC: '' @ info @ [10]) (s\<lparr>vga := v\<rparr>) of
        Inl (Spin l, s) \<Rightarrow> (SpinsOn l, s)
      | Inl (Panic l, s) \<Rightarrow> panic tty msg (msg l) s
      | Inr s \<Rightarrow> (LoopsForever, s))"
proof -
  obtain v where v: "vga_println info s = Inr (s\<lparr>vga := v\<rparr>)" "write_str (info @ [10]) (vga s) = Some v"
    "displays (vga s) (info @ [10]) v"
    using vga_println_free[OF assms, of info] by blast
  show thesis by (rule that[OF v(3,2) displays_ok[OF v(3)]]) (subst panic.simps, simp add: v(1))
qed

text \<open>A panic of the serial line inside the handler: both messages are on the screen.\<close>

lemma panic_twice:
  assumes "writer_ok (vga s)" and "displays (vga s) (info @ [10]) v"
    and "write_str (info @ [10]) (vga s) = Some v" and "\<not> locked m WRITER" and "locked m l" and "l \<noteq> WRITER"
  shows "case panic tty msg (msg l) (s\<lparr>vga := v, locks := m, tty_made := (l = SERIAL_TTY), serial := w\<rparr>) of
    (stop, s') \<Rightarrow> stop = SpinsOn l \<and> serial s' = w
      \<and> displays (vga s) (info @ [10] @ msg l @ [10]) (vga s')"
proof -
  obtain v' s' where p: "panic tty msg (msg l) (s\<lparr>vga := v, locks := m, tty_made := (l = SERIAL_TTY), serial := w\<rparr>)
      = (SpinsOn l, s')" "vga s' = v'" "serial s' = w" "write_str (msg l @ [10]) v = Some v'"
    using panic_after_panic[of "s\<lparr>vga := v, locks := m, tty_made := (l = SERIAL_TTY), serial := w\<rparr>" l tty msg "msg l"]
      displays_ok[OF assms(2)] assms(4-6) by auto
  have "displays (vga s) (info @ [10] @ msg l @ [10]) v'"
    using write_str_displays[OF assms(1), of "(info @ [10]) @ msg l @ [10]"] assms(3) p(4)
    unfolding write_str_append[of "info @ [10]"] by auto
  with p show ?thesis by simp
qed

text \<open>The three ways of the serial line: being made, not to be had, and open.\<close>

lemma panic_waits_for_tty:
  assumes "writer_ok (vga s)" and "\<not> locked (locks s) WRITER"
    and "\<not> tty_made s" and "locked (locks s) SERIAL_ONCE"
  shows "case panic port msg info s of (stop, s') \<Rightarrow>
    stop = SpinsOn SERIAL_ONCE \<and> displays (vga s) (info @ [10]) (vga s') \<and> serial s' = serial s"
proof -
  obtain v where "displays (vga s) (info @ [10]) v"
    and p: "panic port msg info s = (case serial_print port (ascii ''PANIC: '' @ info @ [10]) (s\<lparr>vga := v\<rparr>) of
        Inl (Spin l, s) \<Rightarrow> (SpinsOn l, s) | Inl (Panic l, s) \<Rightarrow> panic port msg (msg l) s
      | Inr s \<Rightarrow> (LoopsForever, s))"
    by (rule panic_shown[OF assms(1,2)])
  with assms(3,4) show ?thesis by (simp add: p serial_print_making)
qed

lemma panic_without_tty:
  assumes "writer_ok (vga s)" and "\<not> locked (locks s) WRITER"
    and "tty_made s \<or> \<not> locked (locks s) SERIAL_ONCE" and o: "opened port s = (False, w)"
  shows "case panic port msg info s of (stop, s') \<Rightarrow> stop = SpinsOn SERIAL_ONCE \<and> serial s' = w
    \<and> displays (vga s) (info @ [10] @ msg SERIAL_ONCE @ [10]) (vga s')"
proof -
  obtain v where v: "displays (vga s) (info @ [10]) v" "write_str (info @ [10]) (vga s) = Some v"
    and p: "panic port msg info s = (case serial_print port (ascii ''PANIC: '' @ info @ [10]) (s\<lparr>vga := v\<rparr>) of
        Inl (Spin l, s) \<Rightarrow> (SpinsOn l, s) | Inl (Panic l, s) \<Rightarrow> panic port msg (msg l) s
      | Inr s \<Rightarrow> (LoopsForever, s))"
    by (rule panic_shown[OF assms(1,2)])
  have unmade: "\<not> tty_made s" using o by (auto simp: opened_def split: if_splits)
  have "opened port (s\<lparr>vga := v\<rparr>) = (False, w)" using o by simp
  then obtain m where m: "serial_tty port (s\<lparr>vga := v\<rparr>)
      = Inl (Panic SERIAL_ONCE, s\<lparr>vga := v, locks := m, serial := w\<rparr>)"
    "locked m = (locked (locks s))(SERIAL_ONCE := True)"
    using serial_tty_opened(2)[of "s\<lparr>vga := v\<rparr>" port w] assms(3) by auto
  have "s\<lparr>vga := v, locks := m, serial := w\<rparr>
      = s\<lparr>vga := v, locks := m, tty_made := (SERIAL_ONCE = SERIAL_TTY), serial := w\<rparr>"
    using unmade by (cases s) simp
  with panic_twice[OF assms(1) v, where m = m and l = SERIAL_ONCE and tty = port and msg = msg and w = w]
    assms(2) m show ?thesis by (simp add: p serial_print_def)
qed

lemma panic_with_tty:
  assumes "writer_ok (vga s)" and "\<not> locked (locks s) WRITER"
    and "tty_made s \<or> \<not> locked (locks s) SERIAL_ONCE" and o: "opened port s = (True, w)"
  shows "case panic port msg info s of (stop, s') \<Rightarrow>
    (if locked (locks s) SERIAL_TTY then
       stop = SpinsOn SERIAL_TTY \<and> displays (vga s) (info @ [10]) (vga s') \<and> serial s' = w
     else (case tty_write port (ascii ''PANIC: '' @ info @ [10]) w of
         (True, w) \<Rightarrow> stop = LoopsForever \<and> displays (vga s) (info @ [10]) (vga s') \<and> serial s' = w
           \<and> locks s' = locks s
       | (False, w) \<Rightarrow> stop = SpinsOn SERIAL_TTY \<and> serial s' = w
           \<and> displays (vga s) (info @ [10] @ msg SERIAL_TTY @ [10]) (vga s')))"
proof -
  obtain v where v: "displays (vga s) (info @ [10]) v" "write_str (info @ [10]) (vga s) = Some v"
    and p: "panic port msg info s = (case serial_print port (ascii ''PANIC: '' @ info @ [10]) (s\<lparr>vga := v\<rparr>) of
        Inl (Spin l, s) \<Rightarrow> (SpinsOn l, s) | Inl (Panic l, s) \<Rightarrow> panic port msg (msg l) s
      | Inr s \<Rightarrow> (LoopsForever, s))"
    by (rule panic_shown[OF assms(1,2)])
  have "opened port (s\<lparr>vga := v\<rparr>) = (True, w)" using o by simp
  note made = serial_print_opened[OF _ this, of "ascii ''PANIC: '' @ info @ [10]"]
  obtain sent u where u: "tty_write port (ascii ''PANIC: '' @ info @ [10]) w = (sent, u)" by fastforce
  consider (held) "locked (locks s) SERIAL_TTY" | (sent) "\<not> locked (locks s) SERIAL_TTY" sent
    | (refused) "\<not> locked (locks s) SERIAL_TTY" "\<not> sent" by blast
  then show ?thesis
  proof cases
    case held
    with made(1) v(1) assms(3) show ?thesis by (simp add: p)
  next
    case sent
    with made(2)[of u] v(1) u assms(3) show ?thesis by (simp add: p)
  next
    case refused
    then obtain m where m: "locked m = (locked (locks s))(SERIAL_TTY := True)"
      "serial_print port (ascii ''PANIC: '' @ info @ [10]) (s\<lparr>vga := v\<rparr>)
        = Inl (Panic SERIAL_TTY, s\<lparr>vga := v, locks := m, tty_made := True, serial := u\<rparr>)"
      using made(3)[of u] u assms(3) by auto
    with panic_twice[OF assms(1) v, where m = m and l = SERIAL_TTY and tty = port and msg = msg and w = u]
      assms(2) u refused show ?thesis by (simp add: p)
  qed
qed

text \<open>Exceptions: a breakpoint returns with the locks as they were, a page fault stops.\<close>

lemma report_lines_free:
  assumes "writer_ok (vga s)" and "\<not> locked (locks s) WRITER"
  shows "\<exists>v. report_lines tty msg ls s = Inr (s\<lparr>vga := v\<rparr>)
    \<and> write_str (concat (map (\<lambda>l. l @ [10]) ls)) (vga s) = Some v"
  using assms
proof (induction ls arbitrary: s)
  case (Cons l ls)
  obtain v where v: "vga_println l s = Inr (s\<lparr>vga := v\<rparr>)" "write_str (l @ [10]) (vga s) = Some v"
    "writer_ok v"
    using vga_println_free[OF Cons.prems, of l] displays_ok by blast
  with Cons.IH[of "s\<lparr>vga := v\<rparr>"] Cons.prems(2) obtain v' where
    "report_lines tty msg ls (s\<lparr>vga := v\<rparr>) = Inr (s\<lparr>vga := v'\<rparr>)"
    "write_str (concat (map (\<lambda>l. l @ [10]) ls)) v = Some v'"
    by auto
  moreover have "write_str ((l @ [10]) @ concat (map (\<lambda>l. l @ [10]) ls)) (vga s) = Some v'"
    unfolding write_str_append[of "l @ [10]"] using v(2) calculation(2) by simp
  ultimately show ?case using v(1) by (simp add: report_def)
qed simp

lemma breakpoint_returns:
  assumes "writer_ok (vga s)" and "\<not> locked (locks s) WRITER"
  shows "\<exists>v. breakpoint_handler tty msg frame s = Inr (s\<lparr>vga := v\<rparr>)
    \<and> displays (vga s) (ascii ''EXCEPTION: BREAKPOINT'' @ [10] @ frame @ [10]) v"
  using vga_println_free[OF assms, of "ascii ''EXCEPTION: BREAKPOINT'' @ [10] @ frame"]
  by (auto simp: breakpoint_handler_def report_def)

lemma page_fault_halts:
  assumes "writer_ok (vga s)" and "\<not> locked (locks s) WRITER"
  shows "\<exists>v. page_fault_handler tty msg cr2 code frame s = (HaltsForever, s\<lparr>vga := v\<rparr>)
    \<and> displays (vga s) (ascii ''EXCEPTION: PAGE FAULT'' @ [10] @ ascii ''Accessed Address: '' @ cr2
        @ [10] @ ascii ''Error Code: '' @ code @ [10] @ frame @ [10]) v"
proof -
  let ?ls = "[ascii ''EXCEPTION: PAGE FAULT'', ascii ''Accessed Address: '' @ cr2,
    ascii ''Error Code: '' @ code, frame]"
  obtain v where v: "report_lines tty msg ?ls s = Inr (s\<lparr>vga := v\<rparr>)"
    "write_str (concat (map (\<lambda>l. l @ [10]) ?ls)) (vga s) = Some v"
    using report_lines_free[OF assms] by blast
  obtain v' where "write_str (concat (map (\<lambda>l. l @ [10]) ?ls)) (vga s) = Some v'"
    "displays (vga s) (concat (map (\<lambda>l. l @ [10]) ?ls)) v'"
    using write_str_displays[OF assms(1)] by blast
  with v(2) have "displays (vga s) (concat (map (\<lambda>l. l @ [10]) ?ls)) v" by simp
  moreover have "concat (map (\<lambda>l. l @ [10]) ?ls) = ascii ''EXCEPTION: PAGE FAULT'' @ [10]
      @ ascii ''Accessed Address: '' @ cr2 @ [10] @ ascii ''Error Code: '' @ code @ [10] @ frame @ [10]"
    by simp
  ultimately show ?thesis using v(1) by (simp only: page_fault_handler_def sum.case) blast
qed

section \<open>Properties\<close>

text \<open>C35: A panic is reported and stops the kernel. The handler always comes to rest. If the
  console's lock is held, it spins there and reports nothing. Otherwise the message is on the screen
  whatever happens to the serial line. The line is opened by its first use: while that is under way
  the handler waits for it, and if it fails the handler panics again, shows that message too and
  waits for the opening that never ends. With the line open and its lock held the handler spins on
  the lock; with the line refusing the text it panics again, shows that message too and spins on
  the lock it took itself; otherwise the message is sent and the handler loops, with the locks as
  they were.\<close>

theorem panic_is_reported:
  assumes "writer_ok (vga s)"
  shows "case panic port msg info s of (stop, s') \<Rightarrow>
    (if locked (locks s) WRITER then stop = SpinsOn WRITER \<and> vga s' = vga s \<and> serial s' = serial s
     else if \<not> tty_made s \<and> locked (locks s) SERIAL_ONCE then
       stop = SpinsOn SERIAL_ONCE \<and> displays (vga s) (info @ [10]) (vga s') \<and> serial s' = serial s
     else (case opened port s of
         (False, w) \<Rightarrow> stop = SpinsOn SERIAL_ONCE \<and> serial s' = w
           \<and> displays (vga s) (info @ [10] @ msg SERIAL_ONCE @ [10]) (vga s')
       | (True, w) \<Rightarrow>
           (if locked (locks s) SERIAL_TTY then
              stop = SpinsOn SERIAL_TTY \<and> displays (vga s) (info @ [10]) (vga s') \<and> serial s' = w
            else (case tty_write port (ascii ''PANIC: '' @ info @ [10]) w of
                (True, w) \<Rightarrow> stop = LoopsForever \<and> displays (vga s) (info @ [10]) (vga s') \<and> serial s' = w
                  \<and> locks s' = locks s
              | (False, w) \<Rightarrow> stop = SpinsOn SERIAL_TTY \<and> serial s' = w
                  \<and> displays (vga s) (info @ [10] @ msg SERIAL_TTY @ [10]) (vga s')))))"
proof (cases "locked (locks s) WRITER")
  case True
  then show ?thesis by (simp add: panic_writer_held)
next
  case free: False
  obtain ok w where ok: "opened port s = (ok, w)" by fastforce
  show ?thesis
  proof (cases "\<not> tty_made s \<and> locked (locks s) SERIAL_ONCE")
    case True
    then show ?thesis using free panic_waits_for_tty[OF assms free] by auto
  next
    case ready: False
    then show ?thesis
      using free ok panic_without_tty[OF assms free, where port = port and w = w and msg = msg and info = info]
        panic_with_tty[OF assms free, where port = port and w = w and msg = msg and info = info]
      by (cases ok) auto
  qed
qed

theorem panic_is_reported_witness:
  "\<exists>s'. panic \<lparr> tty_write = tty_write log_tty, new_port = \<lambda>w. (True, w) \<rparr> (\<lambda>_. []) [79, 79, 77]
      \<lparr> locks = \<lparr> interrupts = True, locked = \<lambda>_. False \<rparr>,
        vga = writer_init (replicate 25 (replicate 80 \<lparr> ascii_character = 0, cell_color = 0 \<rparr>)),
        tty_made = False, serial = [] \<rparr> = (LoopsForever, s')
    \<and> serial s' = ascii ''PANIC: '' @ [79, 79, 77, 10]
    \<and> cells_of (vga s') 2 = \<lparr> ascii_character = 77, cell_color = 9 \<rparr>"
proof -
  let ?port = "\<lparr> tty_write = tty_write log_tty, new_port = \<lambda>w. (True, w) \<rparr>"
  let ?v = "writer_init (replicate 25 (replicate 80 \<lparr> ascii_character = 0, cell_color = 0 \<rparr>))"
  let ?s = "\<lparr> locks = \<lparr> interrupts = True, locked = \<lambda>_. False \<rparr>, vga = ?v, tty_made = False, serial = [] \<rparr>"
  have "writer_ok (vga ?s)" by (simp add: writer_ok_def writer_init_def writer_new_def list_all_iff)
  from panic_is_reported[OF this, where port = ?port and msg = "\<lambda>_. []" and info = "[79, 79, 77]"] show ?thesis
    by (cases "panic ?port (\<lambda>_. []) [79, 79, 77] ?s")
      (auto simp: log_tty_def opened_def displays_def shows_ring_def ring_byte_def writer_init_def
        writer_new_def cursor_def color_code_new_def dest!: spec[of _ 2])
qed

end
