(* ===== verification/Test_Base.thy ===== *)
theory Test_Base
  imports Bytes
begin

text \<open>
  The unit tests of the protocol crate, as predicates on the model, start here: what the tests
  assert with, and the tests of the field readers (\<open>net/src/utils.rs\<close>). A test is a Boolean that
  is true when every assertion of the test's body holds and nothing in it panics; the theories
  \<open>Test_Ipv4\<close>, \<open>Test_Udp\<close>, \<open>Test_Arp\<close>, \<open>Test_Ethernet\<close> and \<open>Test_Dhcp\<close> hold the tests of the other
  modules. That they all evaluate to true says that the definitions agree with the code on every
  input its authors tried, the captured messages included.
\<close>

named_theorems test_simps
  \<open>the definitions of tests and of their fixtures\<close>

section \<open>Assertions\<close>

text \<open>\<open>r.expect(..)\<close> followed by assertions on the value, and \<open>assert_eq!(r.err(), Some(e))\<close>.\<close>

definition holds :: "('e + 'a) option \<Rightarrow> ('a \<Rightarrow> bool) \<Rightarrow> bool" where
  "holds r P \<longleftrightarrow> (case r of Some (Inr x) \<Rightarrow> P x | _ \<Rightarrow> False)"

definition fails :: "('e + 'a) option \<Rightarrow> 'e \<Rightarrow> bool" where
  "fails r e \<longleftrightarrow> (case r of Some (Inl e') \<Rightarrow> e' = e | _ \<Rightarrow> False)"

text \<open>Assertions on a value that was computed without a panic.\<close>

definition yields :: "'a option \<Rightarrow> ('a \<Rightarrow> bool) \<Rightarrow> bool" where
  "yields r P \<longleftrightarrow> (case r of Some x \<Rightarrow> P x | None \<Rightarrow> False)"

lemma holds_iff: "holds r P \<longleftrightarrow> (\<exists>x. r = Some (Inr x) \<and> P x)"
  by (auto simp: holds_def split: option.split sum.split)

lemma fails_iff: "fails r e \<longleftrightarrow> r = Some (Inl e)"
  by (auto simp: fails_def split: option.split sum.split)

lemma yields_iff: "yields r P \<longleftrightarrow> (\<exists>x. r = Some x \<and> P x)"
  by (simp add: yields_def split: option.split)

text \<open>The lengths that have to be multiples of four.\<close>

lemma four_dvd [test_simps]:
  "4 dvd Suc (Suc (Suc (Suc 0)))" "\<not> 4 dvd Suc (Suc (Suc (Suc (Suc (Suc 0)))))"
  "4 dvd Suc (Suc (Suc (Suc (Suc (Suc (Suc (Suc 0)))))))"
  by presburger+

lemmas [test_simps] = holds_def fails_def yields_def replicate_numeral

section \<open>Field readers\<close>

text \<open>A signed integer is the word of its bits.\<close>

definition serializes_correct_endian :: bool where
  [test_simps]: "serializes_correct_endian \<longleftrightarrow>
     from_le_slice [123, 231] = Some (from_le_bytes [123, 231] :: u16)
     \<and> from_be_slice [123, 231] = Some (from_be_bytes [123, 231] :: u16)
     \<and> from_ne_slice [123, 231] = Some (from_le_bytes [123, 231] :: u16)"

definition native_matches_target_endian :: bool where
  [test_simps]: "native_matches_target_endian \<longleftrightarrow> from_ne_slice [0x12, 0x34, 0x56, 0x78] = Some (0x78563412 :: u32)"

definition native_all_widths :: bool where
  [test_simps]: "native_all_widths \<longleftrightarrow>
     (let arr = replicate 8 0xFF in
      from_ne_slice [0xAB] = Some (0xAB :: u8) \<and> from_ne_slice [0xFF] = Some (- 1 :: u8)
      \<and> from_ne_slice (take 2 arr) = Some (0xFFFF :: u16)
      \<and> from_ne_slice (take 4 arr) = Some (0xFFFFFFFF :: u32)
      \<and> from_ne_slice (take 8 arr) = Some (0xFFFFFFFFFFFFFFFF :: u64)
      \<and> from_ne_slice (take 2 arr) = Some (- 1 :: u16)
      \<and> from_ne_slice (take 4 arr) = Some (- 1 :: u32)
      \<and> from_ne_slice (take 8 arr) = Some (- 1 :: u64))"

definition native_roundtrips_through_bytes :: bool where
  [test_simps]: "native_roundtrips_through_bytes \<longleftrightarrow>
     from_ne_slice (to_le_bytes (0x0123456789ABCDEF :: u64)) = Some (0x0123456789ABCDEF :: u64)
     \<and> from_ne_slice (to_le_bytes (- 0x12345678 :: u32)) = Some (- 0x12345678 :: u32)"

definition native_reads_subslice :: bool where
  [test_simps]: "native_reads_subslice \<longleftrightarrow>
     slice_range 2 4 [0xDE, 0xAD, 0x12, 0x34, 0xBE, 0xEF] \<bind> from_ne_slice
       = Some (from_le_bytes [0x12, 0x34] :: u16)"

definition native_panics_on_short_slice :: bool where
  [test_simps]: "native_panics_on_short_slice \<longleftrightarrow> (from_ne_slice [0x01, 0x02] :: u32 option) = None"

definition native_panics_on_long_slice :: bool where
  [test_simps]: "native_panics_on_long_slice \<longleftrightarrow> (from_ne_slice [0x01, 0x02, 0x03, 0x04, 0x05] :: u32 option) = None"

definition utils_tests :: "bool list" where
  [test_simps]: "utils_tests =
     [serializes_correct_endian, native_matches_target_endian, native_all_widths,
      native_roundtrips_through_bytes, native_reads_subslice, native_panics_on_short_slice,
      native_panics_on_long_slice]"

lemma utils_tests_pass: "list_all id utils_tests"
  by (simp add: test_simps from_ne_slice_def from_le_slice_def from_le_bytes_def to_le_bytes_def
      upt_conv_Cons eval_simps)

end
