(* ===== verification/Test_Ipv4.thy ===== *)
theory Test_Ipv4
  imports Test_Base Ipv4
begin

text \<open>
  The unit tests of \<open>net/src/ipv4.rs\<close>: the checksum on published examples, and the parser on a
  valid packet, on packets with one defect each, and on padded packets.
\<close>

section \<open>The checksum\<close>

definition test_internet_checksum :: bool where
  [test_simps]: "test_internet_checksum \<longleftrightarrow>
     internet_checksum [[0x00, 0x01, 0xf2, 0x03, 0xf4, 0xf5, 0xf6, 0xf7]] = Some 0x220d
     \<and> internet_checksum [[0x00, 0x01, 0xf2, 0x03, 0xf4, 0xf5, 0xf6, 0xf7, 0x22, 0x0d]] = Some 0
     \<and> internet_checksum [[0x00, 0x01, 0xf2, 0x03, 0xf4, 0xf5, 0xf6]] = Some 0x2304
     \<and> internet_checksum [[0xe3, 0x4f, 0x23, 0x96, 0x44, 0x27, 0x99, 0xf3]] = Some 0x1aff
     \<and> internet_checksum [[0xff, 0xff, 0xff, 0xff, 0xff, 0xff, 0x02, 0x00]] = Some 0xfdff
     \<and> internet_checksum [[]] = Some 0xffff"

section \<open>Packets\<close>

definition test_ipv4_parse_and_serialize :: bool where
  [test_simps]: "test_ipv4_parse_and_serialize \<longleftrightarrow>
     holds (ipv4_from_packet get_valid_packet) (\<lambda>packet.
       version_ihl packet = 0x45 \<and> dscp_ecn packet = 0x00 \<and> total_length packet = 24
       \<and> ip_id packet = 0x1234 \<and> dont_fragment packet \<and> \<not> more_fragments packet
       \<and> frag_offset packet = 0 \<and> ttl packet = 64 \<and> protocol packet = UDP
       \<and> ip_checksum packet = 0x5cf7 \<and> ip_source packet = Ipv4Addr 192 168 1 1
       \<and> ip_dest packet = Ipv4Addr 10 0 0 1 \<and> length (ip_options packet) = 0
       \<and> ip_data packet = [0xde, 0xad, 0xbe, 0xef]
       \<and> ipv4_serialize packet = Some get_valid_packet)"

definition options_packet :: bytes where
  [test_simps]: "options_packet =
     [0x46, 0x00, 0x00, 0x1c,
      0x12, 0x34, 0x40, 0x00,
      0x40, 0x11, 0x59, 0xf1,
      0xc0, 0xa8, 0x01, 0x01,
      0x0a, 0x00, 0x00, 0x01,
      0x01, 0x01, 0x01, 0x01,
      0xde, 0xad, 0xbe, 0xef]"

definition test_ipv4_with_options :: bool where
  [test_simps]: "test_ipv4_with_options \<longleftrightarrow>
     holds (ipv4_from_packet options_packet) (\<lambda>packet.
       ip_options packet = [0x01, 0x01, 0x01, 0x01] \<and> ip_data packet = [0xde, 0xad, 0xbe, 0xef]
       \<and> ipv4_serialize packet = Some options_packet)"

definition test_ipv4_fragmented :: bool where
  [test_simps]: "test_ipv4_fragmented \<longleftrightarrow>
     holds (ipv4_from_packet (get_valid_packet[6 := 0x20, 10 := 0x7c, 11 := 0xf7])) (\<lambda>packet.
       more_fragments packet \<and> \<not> dont_fragment packet \<and> frag_offset packet = 0)"

text \<open>\<open>clamp(20, len)\<close> panics when the buffer is shorter than 20 bytes.\<close>

definition fix_header_checksum :: "bytes \<Rightarrow> bytes option" where
  [test_simps]: "fix_header_checksum packet = do {
     b0 \<leftarrow> slice_get 0 packet;
     let header_len = min (max (unat (b0 AND 0xf) * 4) 20) (length packet);
     if length packet < 20 then None else do {
       packet \<leftarrow> copy_range 10 12 [0x0, 0x0] packet;
       header \<leftarrow> slice_range 0 header_len packet;
       checksum \<leftarrow> internet_checksum [header];
       copy_range 10 12 (to_be_bytes checksum) packet } }"

text \<open>The parser's verdict on a packet after its checksum is made right.\<close>

definition rejected :: "bytes \<Rightarrow> ipv4_error \<Rightarrow> bool" where
  [test_simps]: "rejected data e \<longleftrightarrow> fails (fix_header_checksum data \<bind> ipv4_from_packet) e"

definition test_ipv4_invalid_version :: bool where
  [test_simps]: "test_ipv4_invalid_version \<longleftrightarrow>
     list_all (\<lambda>version. rejected (get_valid_packet[0 := push_bit 4 version OR 0x5]) VersionMismatch)
       [0x0, 0x5, 0x6, 0xf]"

definition test_ipv4_ihl_below_minimum :: bool where
  [test_simps]: "test_ipv4_ihl_below_minimum \<longleftrightarrow>
     list_all (\<lambda>ihl. rejected (get_valid_packet[0 := 0x40 OR ihl]) IHLMismatch) [0x0, 0x1, 0x4]"

definition test_ipv4_header_exceeds_buffer :: bool where
  [test_simps]: "test_ipv4_header_exceeds_buffer \<longleftrightarrow>
     rejected (get_valid_packet[0 := 0x4f]) HeaderLengthMismatch"

definition test_ipv4_length_exceeds_buffer :: bool where
  [test_simps]: "test_ipv4_length_exceeds_buffer \<longleftrightarrow>
     rejected (get_valid_packet[2 := 0x00, 3 := 0xFF]) TotalLengthMismatch"

definition test_ipv4_length_below_header :: bool where
  [test_simps]: "test_ipv4_length_below_header \<longleftrightarrow>
     rejected (get_valid_packet[0 := 0x46, 3 := 0x14]) TotalLengthMismatch"

definition test_ipv4_evil_bit :: bool where
  [test_simps]: "test_ipv4_evil_bit \<longleftrightarrow>
     rejected (get_valid_packet[6 := get_valid_packet ! 6 OR 0x80]) EvilBitSet"

definition test_ipv4_bad_checksum :: bool where
  [test_simps]: "test_ipv4_bad_checksum \<longleftrightarrow>
     fails (ipv4_from_packet (get_valid_packet[11 := 0x00])) IncorrectChecksum"

definition test_ipv4_corrupt_header_field :: bool where
  [test_simps]: "test_ipv4_corrupt_header_field \<longleftrightarrow>
     fails (ipv4_from_packet (get_valid_packet[8 := 0x01])) IncorrectChecksum"

definition test_ipv4_too_short :: bool where
  [test_simps]: "test_ipv4_too_short \<longleftrightarrow>
     list_all (\<lambda>len. fails (slice_range 0 len get_valid_packet \<bind> ipv4_from_packet) LengthOutOfRange)
       [0, 1, 15, 19]"

definition test_ipv4_ignores_trailing_bytes :: bool where
  [test_simps]: "test_ipv4_ignores_trailing_bytes \<longleftrightarrow>
     holds (ipv4_from_packet (get_valid_packet @ replicate 20 0x00)) (\<lambda>packet.
       total_length packet = 24 \<and> ip_data packet = [0xde, 0xad, 0xbe, 0xef])"

definition ipv4_tests :: "bool list" where
  "ipv4_tests =
     [test_internet_checksum, test_ipv4_parse_and_serialize, test_ipv4_with_options,
      test_ipv4_fragmented, test_ipv4_invalid_version, test_ipv4_ihl_below_minimum,
      test_ipv4_header_exceeds_buffer, test_ipv4_length_exceeds_buffer,
      test_ipv4_length_below_header, test_ipv4_evil_bit, test_ipv4_bad_checksum,
      test_ipv4_corrupt_header_field, test_ipv4_too_short, test_ipv4_ignores_trailing_bytes]"

lemmas [test_simps] = get_valid_packet_def

lemma ipv4_tests_valid:
  "test_internet_checksum" "test_ipv4_parse_and_serialize" "test_ipv4_with_options"
  "test_ipv4_fragmented" "test_ipv4_ignores_trailing_bytes"
  by (simp_all add: test_simps eval_simps)

lemma ipv4_tests_defects:
  "test_ipv4_invalid_version" "test_ipv4_ihl_below_minimum" "test_ipv4_header_exceeds_buffer"
  "test_ipv4_length_exceeds_buffer" "test_ipv4_length_below_header" "test_ipv4_evil_bit"
  "test_ipv4_bad_checksum" "test_ipv4_corrupt_header_field" "test_ipv4_too_short"
  by (simp_all add: test_simps eval_simps)

lemma ipv4_tests_pass: "list_all id ipv4_tests"
  by (simp add: ipv4_tests_def ipv4_tests_valid ipv4_tests_defects)

end
