(* ===== verification/Test_Udp.thy ===== *)
theory Test_Udp
  imports Test_Ipv4 Udp
begin

text \<open>
  The unit tests of \<open>net/src/udp.rs\<close>: known-good datagrams in IPv4 packets, datagrams with one
  defect each, the constructor and the serializer at their limits.
\<close>

section \<open>Fixtures\<close>

definition PAYLOAD :: bytes where
  [test_simps]: "PAYLOAD = [0xde, 0xad, 0xbe, 0xef]"

definition VALID_UDP_EMPTY :: bytes where
  [test_simps]: "VALID_UDP_EMPTY = [0x12, 0x34, 0x56, 0x78, 0x00, 0x08, 0xcb, 0x87]"

definition ipv4_wrap_with_options :: "ipv4_addr \<Rightarrow> ipv4_addr \<Rightarrow> bytes \<Rightarrow> bytes \<Rightarrow> bytes option" where
  [test_simps]: "ipv4_wrap_with_options source dest options udp =
     (let header_len = 20 + length options in
      ipv4_serialize
        \<lparr> version_ihl = 0x40 OR of_nat (header_len div 4), dscp_ecn = 0x00,
          total_length = of_nat (header_len + length udp), ip_id = 0x1234, frag_offset = 0,
          dont_fragment = True, more_fragments = False, ttl = 64, protocol = UDP, ip_checksum = 0,
          ip_source = source, ip_dest = dest, ip_options = options, ip_data = udp \<rparr>)"

definition ipv4_wrap :: "ipv4_addr \<Rightarrow> ipv4_addr \<Rightarrow> bytes \<Rightarrow> bytes option" where
  [test_simps]: "ipv4_wrap source dest udp = ipv4_wrap_with_options source dest [] udp"

definition fill_checksum :: "bytes \<Rightarrow> ipv4_addr \<Rightarrow> ipv4_addr \<Rightarrow> bytes option" where
  [test_simps]: "fill_checksum datagram source dest = do {
     datagram \<leftarrow> copy_range 6 8 [0x0, 0x0] datagram;
     declared_len \<leftarrow> read_u16 4 6 datagram;
     checksum \<leftarrow> internet_checksum
       [octets source, octets dest, [0x0, 0x11], to_be_bytes declared_len, datagram];
     copy_range 6 8 (to_be_bytes checksum) datagram }"

definition build_udp :: "ipv4_addr \<Rightarrow> ipv4_addr \<Rightarrow> u16 \<Rightarrow> u16 \<Rightarrow> bytes \<Rightarrow> bytes option" where
  [test_simps]: "build_udp source dest sport dport payload =
     (let datagram = to_be_bytes sport @ to_be_bytes dport
        @ to_be_bytes (of_nat (8 + length payload) :: u16) @ [0x0, 0x0] @ payload
      in fill_checksum datagram source dest)"

text \<open>The datagram the tests with a defect start from, and a datagram parsed out of its packet.\<close>

definition datagram :: "bytes option" where
  "datagram = build_udp SRC DST 0x1234 0x5678 PAYLOAD"

definition parse_in :: "bytes option \<Rightarrow> (udp_error + udp_packet) option" where
  "parse_in packet = do {
     bytes \<leftarrow> packet;
     parsed \<leftarrow> ipv4_from_packet bytes;
     case parsed of Inr ip \<Rightarrow> udp_from_packet ip | Inl _ \<Rightarrow> None }"

definition parse_wrapped :: "bytes option \<Rightarrow> (udp_error + udp_packet) option" where
  [test_simps]: "parse_wrapped udp = parse_in (udp \<bind> ipv4_wrap SRC DST)"

definition packet_of :: "u16 \<Rightarrow> u16 \<Rightarrow> u16 \<Rightarrow> u16 \<Rightarrow> bytes \<Rightarrow> udp_packet" where
  [test_simps]: "packet_of sport dport len checksum payload =
     \<lparr> source_port = sport, dest_port = dport, datagram_length = len, udp_checksum = checksum,
       udp_data = payload \<rparr>"

lemmas [test_simps] = SRC_def DST_def VALID_UDP_def

lemma datagram_value [test_simps]: "datagram = Some VALID_UDP"
  by (simp add: datagram_def test_simps eval_simps)

text \<open>Wrapping a datagram and parsing the packet again gives the datagram to the UDP parser.\<close>

lemma parse_in_serialize [test_simps]:
  assumes "ipv4_wf p"
  shows "parse_in (ipv4_serialize p) = udp_from_packet p"
proof -
  obtain c where c: "ipv4_serialize p = Some (ipv4_header p c @ ip_data p)"
    "\<forall>pad. ipv4_from_packet (ipv4_header p c @ ip_data p @ pad) = Some (Inr (p\<lparr>ip_checksum := c\<rparr>))"
    using ipv4_serialize_wf[OF assms] by metis
  have "udp_from_packet (p\<lparr>ip_checksum := c\<rparr>) = udp_from_packet p"
    by (cases p) (simp only: udp_from_packet_def ipv4_packet.simps)
  with c(1) c(2)[rule_format, of "[]"] show ?thesis by (simp add: parse_in_def)
qed

lemmas [test_simps] = ipv4_wf_def protocol_canonical_def protocol_of_u8_def

section \<open>Parsing\<close>

definition test_udp_builder_matches_capture :: bool where
  [test_simps]: "test_udp_builder_matches_capture \<longleftrightarrow>
     build_udp SRC DST 0x1234 0x5678 PAYLOAD = Some VALID_UDP
     \<and> build_udp SRC DST 0x1234 0x5678 [] = Some VALID_UDP_EMPTY"

definition test_udp_parse_valid :: bool where
  [test_simps]: "test_udp_parse_valid \<longleftrightarrow>
     holds (parse_in (ipv4_wrap SRC DST VALID_UDP)) (\<lambda>packet.
       source_port packet = 0x1234 \<and> dest_port packet = 0x5678 \<and> datagram_length packet = 12
       \<and> udp_checksum packet = 0x2de2 \<and> udp_data packet = PAYLOAD)"

definition test_udp_parse_empty_payload :: bool where
  [test_simps]: "test_udp_parse_empty_payload \<longleftrightarrow>
     holds (parse_in (ipv4_wrap SRC DST VALID_UDP_EMPTY)) (\<lambda>packet.
       datagram_length packet = 8 \<and> udp_data packet = [])"

definition test_udp_parse_ignores_ipv4_options :: bool where
  [test_simps]: "test_udp_parse_ignores_ipv4_options \<longleftrightarrow>
     holds (parse_in (ipv4_wrap_with_options SRC DST [0x01, 0x01, 0x01, 0x01] VALID_UDP)) (\<lambda>packet.
       datagram_length packet = 12 \<and> udp_data packet = PAYLOAD)"

definition test_udp_parse_accepts_zero_checksum :: bool where
  [test_simps]: "test_udp_parse_accepts_zero_checksum \<longleftrightarrow>
     holds (parse_wrapped (datagram \<bind> copy_range 6 8 [0x0, 0x0])) (\<lambda>packet.
       udp_checksum packet = 0 \<and> udp_data packet = PAYLOAD)"

definition test_udp_parse_rejects_corrupt_payload :: bool where
  [test_simps]: "test_udp_parse_rejects_corrupt_payload \<longleftrightarrow>
     fails (parse_wrapped (do { d \<leftarrow> datagram; b \<leftarrow> slice_get 8 d; slice_set 8 (b XOR 0xff) d }))
       udp_error.IncorrectChecksum"

definition test_udp_parse_rejects_corrupt_checksum_field :: bool where
  [test_simps]: "test_udp_parse_rejects_corrupt_checksum_field \<longleftrightarrow>
     fails (parse_wrapped (do { d \<leftarrow> datagram; b \<leftarrow> slice_get 7 d; slice_set 7 (b XOR 0x01) d }))
       udp_error.IncorrectChecksum"

definition test_udp_parse_rejects_wrong_pseudo_header :: bool where
  [test_simps]: "test_udp_parse_rejects_wrong_pseudo_header \<longleftrightarrow>
     fails (parse_wrapped (build_udp SRC (Ipv4Addr 10 0 0 2) 0x1234 0x5678 PAYLOAD))
       udp_error.IncorrectChecksum"

definition test_udp_parse_rejects_length_over_datagram :: bool where
  [test_simps]: "test_udp_parse_rejects_length_over_datagram \<longleftrightarrow>
     fails (parse_wrapped (do {
         d \<leftarrow> datagram;
         d \<leftarrow> copy_range 4 6 (to_be_bytes (20 :: u16)) d;
         fill_checksum d SRC DST })) LengthMismatch"

definition test_udp_parse_rejects_length_under_datagram :: bool where
  [test_simps]: "test_udp_parse_rejects_length_under_datagram \<longleftrightarrow>
     fails (parse_wrapped (do {
         d \<leftarrow> datagram;
         d \<leftarrow> copy_range 4 6 (to_be_bytes (10 :: u16)) d;
         fill_checksum d SRC DST })) LengthMismatch"

definition test_udp_parse_rejects_length_below_header :: bool where
  [test_simps]: "test_udp_parse_rejects_length_below_header \<longleftrightarrow>
     fails (parse_wrapped (do {
         d \<leftarrow> datagram;
         d \<leftarrow> copy_range 4 6 (to_be_bytes (4 :: u16)) d;
         fill_checksum d SRC DST })) LengthMismatch"

definition test_udp_parse_checks_length_before_checksum :: bool where
  [test_simps]: "test_udp_parse_checks_length_before_checksum \<longleftrightarrow>
     fails (parse_wrapped (do {
         d \<leftarrow> datagram;
         d \<leftarrow> copy_range 4 6 (to_be_bytes (20 :: u16)) d;
         b \<leftarrow> slice_get 8 d;
         slice_set 8 (b XOR 0xff) d })) LengthMismatch"

definition test_udp_parse_rejects_truncated_header :: bool where
  [test_simps]: "test_udp_parse_rejects_truncated_header \<longleftrightarrow>
     list_all (\<lambda>len. fails (parse_wrapped (slice_range 0 len VALID_UDP)) udp_error.LengthOutOfRange)
       [1, 4, 7]"

definition test_udp_parse_rejects_truncated_header_with_ipv4_options :: bool where
  [test_simps]: "test_udp_parse_rejects_truncated_header_with_ipv4_options \<longleftrightarrow>
     list_all (\<lambda>len. fails (parse_in (slice_range 0 len VALID_UDP
         \<bind> ipv4_wrap_with_options SRC DST (replicate 4 0x01))) udp_error.LengthOutOfRange)
       [1, 4, 7]"

definition test_udp_parse_rejects_empty_ip_payload :: bool where
  [test_simps]: "test_udp_parse_rejects_empty_ip_payload \<longleftrightarrow>
     fails (parse_in (ipv4_wrap SRC DST [])) udp_error.LengthOutOfRange"

section \<open>The constructor\<close>

definition test_udp_new_sets_header_fields :: bool where
  [test_simps]: "test_udp_new_sets_header_fields \<longleftrightarrow>
     holds (Some (udp_new 0x1234 0x5678 PAYLOAD)) (\<lambda>packet.
       source_port packet = 0x1234 \<and> dest_port packet = 0x5678 \<and> udp_data packet = PAYLOAD
       \<and> datagram_length packet = 12 \<and> udp_checksum packet = 0)"

definition test_udp_new_empty_payload :: bool where
  [test_simps]: "test_udp_new_empty_payload \<longleftrightarrow>
     holds (Some (udp_new 0x1234 0x5678 [])) (\<lambda>packet.
       datagram_length packet = 8 \<and> udp_data packet = [])"

definition test_udp_new_max_payload :: bool where
  "test_udp_new_max_payload \<longleftrightarrow>
     holds (Some (udp_new 0x1234 0x5678 (replicate MAX_UDP_PAYLOAD 0x41))) (\<lambda>packet.
       datagram_length packet = 0xFFFF)"

definition test_udp_new_rejects_oversized_payload :: bool where
  "test_udp_new_rejects_oversized_payload \<longleftrightarrow>
     fails (Some (udp_new 0x1234 0x5678 (replicate (MAX_UDP_PAYLOAD + 1) 0x41)))
       udp_error.LengthOutOfRange"

definition test_udp_new_rejects_payload_overflowing_length_field :: bool where
  "test_udp_new_rejects_payload_overflowing_length_field \<longleftrightarrow>
     fails (Some (udp_new 0x1234 0x5678 (replicate (0xFFFF + 1) 0x41))) udp_error.LengthOutOfRange"

definition test_udp_new_serializes_to_capture :: bool where
  [test_simps]: "test_udp_new_serializes_to_capture \<longleftrightarrow>
     holds (Some (udp_new 0x1234 0x5678 PAYLOAD)) (\<lambda>packet.
       udp_serialize_ipv4 packet SRC DST = Some (Inr VALID_UDP))
     \<and> holds (Some (udp_new 0x1234 0x5678 [])) (\<lambda>empty.
       udp_serialize_ipv4 empty SRC DST = Some (Inr VALID_UDP_EMPTY))"

definition test_udp_new_round_trip :: bool where
  [test_simps]: "test_udp_new_round_trip \<longleftrightarrow>
     holds (Some (udp_new 0xabcd 0x0035 PAYLOAD)) (\<lambda>packet.
       holds (udp_serialize_ipv4 packet SRC DST) (\<lambda>d.
         holds (parse_wrapped (Some d)) (\<lambda>parsed.
           source_port parsed = 0xabcd \<and> dest_port parsed = 0x0035 \<and> udp_data parsed = PAYLOAD
           \<and> datagram_length parsed = datagram_length packet)))"

section \<open>Serializing\<close>

definition test_udp_serialize_matches_capture :: bool where
  [test_simps]: "test_udp_serialize_matches_capture \<longleftrightarrow>
     holds (udp_serialize_ipv4 (packet_of 0x1234 0x5678 12 0x2de2 PAYLOAD) SRC DST) (\<lambda>serialized.
       serialized = VALID_UDP)"

definition test_udp_serialize_empty_payload :: bool where
  [test_simps]: "test_udp_serialize_empty_payload \<longleftrightarrow>
     holds (udp_serialize_ipv4 (packet_of 0x1234 0x5678 8 0xcb87 []) SRC DST) (\<lambda>serialized.
       serialized = VALID_UDP_EMPTY)"

definition test_udp_serialize_checksum_verifies :: bool where
  [test_simps]: "test_udp_serialize_checksum_verifies \<longleftrightarrow>
     holds (udp_serialize_ipv4 (packet_of 0xabcd 0x0035 0 0 PAYLOAD) SRC DST) (\<lambda>serialized.
       yields (read_u16 4 6 serialized) (\<lambda>declared_len.
         unat declared_len = length serialized
         \<and> internet_checksum [octets SRC, octets DST, [0x0, 0x11], to_be_bytes declared_len, serialized]
             = Some 0))"

definition test_udp_serialize_zero_checksum_sent_as_all_ones :: bool where
  [test_simps]: "test_udp_serialize_zero_checksum_sent_as_all_ones \<longleftrightarrow>
     holds (udp_serialize_ipv4 (packet_of 0x1234 0x5678 10 0 [0xcb, 0x83]) SRC DST) (\<lambda>serialized.
       slice_range 6 8 serialized = Some [0xff, 0xff])"

definition test_udp_serialize_round_trip :: bool where
  [test_simps]: "test_udp_serialize_round_trip \<longleftrightarrow>
     holds (udp_serialize_ipv4 (packet_of 0xabcd 0x0035 0 0 PAYLOAD) SRC DST) (\<lambda>d.
       holds (parse_wrapped (Some d)) (\<lambda>parsed.
         source_port parsed = 0xabcd \<and> dest_port parsed = 0x0035 \<and> udp_data parsed = PAYLOAD))"

definition test_udp_serialize_max_payload :: bool where
  "test_udp_serialize_max_payload \<longleftrightarrow>
     holds (udp_serialize_ipv4 (packet_of 0x1234 0x5678 0 0 (replicate MAX_UDP_PAYLOAD 0x41)) SRC DST)
       (\<lambda>serialized. length serialized = 0xFFFF \<and> read_u16 4 6 serialized = Some 0xFFFF)"

definition test_udp_serialize_rejects_oversized_payload :: bool where
  "test_udp_serialize_rejects_oversized_payload \<longleftrightarrow>
     fails (udp_serialize_ipv4 (packet_of 0x1234 0x5678 0 0 (replicate (MAX_UDP_PAYLOAD + 1) 0x41))
       SRC DST) udp_error.LengthOutOfRange"

definition test_udp_serialize_rejects_payload_overflowing_length_field :: bool where
  "test_udp_serialize_rejects_payload_overflowing_length_field \<longleftrightarrow>
     fails (udp_serialize_ipv4 (packet_of 0x1234 0x5678 0 0 (replicate (0xFFFF + 1) 0x41)) SRC DST)
       udp_error.LengthOutOfRange"

section \<open>The suite\<close>

definition udp_tests :: "bool list" where
  "udp_tests =
     [test_udp_builder_matches_capture, test_udp_parse_valid, test_udp_parse_empty_payload,
      test_udp_parse_ignores_ipv4_options, test_udp_parse_accepts_zero_checksum,
      test_udp_parse_rejects_corrupt_payload, test_udp_parse_rejects_corrupt_checksum_field,
      test_udp_parse_rejects_wrong_pseudo_header, test_udp_parse_rejects_length_over_datagram,
      test_udp_parse_rejects_length_under_datagram, test_udp_parse_rejects_length_below_header,
      test_udp_parse_checks_length_before_checksum, test_udp_parse_rejects_truncated_header,
      test_udp_parse_rejects_truncated_header_with_ipv4_options,
      test_udp_parse_rejects_empty_ip_payload, test_udp_new_sets_header_fields,
      test_udp_new_empty_payload, test_udp_new_max_payload, test_udp_new_rejects_oversized_payload,
      test_udp_new_rejects_payload_overflowing_length_field, test_udp_new_serializes_to_capture,
      test_udp_new_round_trip, test_udp_serialize_matches_capture, test_udp_serialize_empty_payload,
      test_udp_serialize_checksum_verifies, test_udp_serialize_zero_checksum_sent_as_all_ones,
      test_udp_serialize_round_trip, test_udp_serialize_max_payload,
      test_udp_serialize_rejects_oversized_payload,
      test_udp_serialize_rejects_payload_overflowing_length_field]"

lemma udp_tests_parsing:
  "test_udp_builder_matches_capture" "test_udp_parse_valid" "test_udp_parse_empty_payload"
  "test_udp_parse_ignores_ipv4_options" "test_udp_parse_accepts_zero_checksum"
  "test_udp_parse_rejects_corrupt_payload" "test_udp_parse_rejects_corrupt_checksum_field"
  "test_udp_parse_rejects_wrong_pseudo_header" "test_udp_parse_rejects_length_over_datagram"
  "test_udp_parse_rejects_length_under_datagram" "test_udp_parse_rejects_length_below_header"
  "test_udp_parse_checks_length_before_checksum" "test_udp_parse_rejects_truncated_header"
  "test_udp_parse_rejects_truncated_header_with_ipv4_options"
  "test_udp_parse_rejects_empty_ip_payload"
  by (simp_all add: test_simps eval_simps del: ipv4_serialize_def)

lemma udp_tests_serializing:
  "test_udp_new_sets_header_fields" "test_udp_new_empty_payload"
  "test_udp_new_serializes_to_capture" "test_udp_new_round_trip"
  "test_udp_serialize_matches_capture" "test_udp_serialize_empty_payload"
  "test_udp_serialize_checksum_verifies" "test_udp_serialize_zero_checksum_sent_as_all_ones"
  "test_udp_serialize_round_trip"
  by (simp_all add: test_simps eval_simps del: ipv4_serialize_def)

text \<open>Payloads too long to be written out.\<close>

lemma udp_tests_limits:
  "test_udp_new_max_payload" "test_udp_new_rejects_oversized_payload"
  "test_udp_new_rejects_payload_overflowing_length_field"
  "test_udp_serialize_rejects_oversized_payload"
  "test_udp_serialize_rejects_payload_overflowing_length_field"
  by (simp_all add: test_udp_new_max_payload_def test_udp_new_rejects_oversized_payload_def
      test_udp_new_rejects_payload_overflowing_length_field_def
      test_udp_serialize_rejects_oversized_payload_def
      test_udp_serialize_rejects_payload_overflowing_length_field_def holds_def fails_def packet_of_def
      eval_simps)

lemma udp_tests_longest: "test_udp_serialize_max_payload"
proof -
  let ?p = "packet_of 0x1234 0x5678 0 0 (replicate MAX_UDP_PAYLOAD 0x41)"
  have "length (udp_data ?p) \<le> MAX_UDP_PAYLOAD" by (simp add: packet_of_def)
  then obtain c where "udp_serialize_ipv4 ?p SRC DST = Some (Inr
      (udp_header (source_port ?p) (dest_port ?p) (of_nat (8 + length (udp_data ?p))) c @ udp_data ?p))"
    using udp_serialize_layout[of ?p SRC DST] by metis
  then show ?thesis
    by (simp add: test_udp_serialize_max_payload_def holds_def udp_header_reads packet_of_def
        MAX_UDP_PAYLOAD_def)
qed

lemma udp_tests_pass: "list_all id udp_tests"
  by (simp add: udp_tests_def udp_tests_parsing udp_tests_serializing udp_tests_limits udp_tests_longest)

end
