(* ===== verification/Test_Arp.thy ===== *)
theory Test_Arp
  imports Test_Base Arp Arp_Cache
begin

text \<open>
  The unit tests of \<open>net/src/arp.rs\<close>: the cache and the packets. A test of the cache threads it
  through its calls; the results are checked as they come.
\<close>

section \<open>Fixtures\<close>

definition test_mac :: "u8 \<Rightarrow> mac_address" where
  [test_simps]: "test_mac octet = MacAddress 0x02 0x00 0x00 0x00 0x00 octet"

definition test_ip :: "u8 \<Rightarrow> ipv4_addr" where
  "test_ip octet = Ipv4Addr 192 168 1 octet"

definition test_frame :: "u8 \<Rightarrow> bytes" where
  [test_simps]: "test_frame marker = [marker, marker, marker, marker]"

text \<open>Addresses compare as their last octets.\<close>

lemma test_ip_order [test_simps]:
  "test_ip a = test_ip b \<longleftrightarrow> a = b" "test_ip a < test_ip b \<longleftrightarrow> a < b"
proof -
  have u: "unat (u32_of_addr (test_ip c)) = 0xC0A80100 + unat c" for c
    by (simp add: test_ip_def u32_of_addr_def unat_from_be_bytes be_value_def)
  show "test_ip a = test_ip b \<longleftrightarrow> a = b" by (simp add: test_ip_def)
  show "test_ip a < test_ip b \<longleftrightarrow> a < b"
    using u[of a] u[of b] by (simp add: less_ipv4_addr_def word_less_nat_alt)
qed

section \<open>The cache\<close>

definition test_arp_cache_resolves :: bool where
  [test_simps]: "test_arp_cache_resolves \<longleftrightarrow>
     (let cache = arp_cache_new; (drained, cache') = arp_insert (test_ip 1) (test_mac 1) cache in
      arp_lookup cache (test_ip 1) = None \<and> \<not> arp_contains cache (test_ip 1)
      \<and> drained = []
      \<and> arp_lookup cache' (test_ip 1) = Some (test_mac 1) \<and> arp_contains cache' (test_ip 1))"

definition test_arp_cache_pending_address_is_not_resolved :: bool where
  [test_simps]: "test_arp_cache_pending_address_is_not_resolved \<longleftrightarrow>
     (let (q, cache) = arp_queue_pending (test_ip 1) (test_frame 0xaa) arp_cache_new in
      q = RequestNeeded \<and> arp_lookup cache (test_ip 1) = None \<and> \<not> arp_contains cache (test_ip 1)
      \<and> pending_len cache (test_ip 1) = 1)"

definition test_arp_cache_requests_once_per_address :: bool where
  [test_simps]: "test_arp_cache_requests_once_per_address \<longleftrightarrow>
     (let (q1, cache) = arp_queue_pending (test_ip 1) (test_frame 0xaa) arp_cache_new;
          (q2, cache) = arp_queue_pending (test_ip 1) (test_frame 0xbb) cache;
          (q3, cache) = arp_queue_pending (test_ip 1) (test_frame 0xcc) cache
      in q1 = RequestNeeded \<and> q2 = AlreadyPending \<and> q3 = AlreadyPending
         \<and> pending_len cache (test_ip 1) = 3 \<and> pending_addresses cache = 1)"

definition test_arp_cache_insert_drains_pending_in_order :: bool where
  [test_simps]: "test_arp_cache_insert_drains_pending_in_order \<longleftrightarrow>
     (let (_, cache) = arp_queue_pending (test_ip 1) (test_frame 0xaa) arp_cache_new;
          (_, cache) = arp_queue_pending (test_ip 1) (test_frame 0xbb) cache;
          (drained, cache) = arp_insert (test_ip 1) (test_mac 1) cache
      in drained = [test_frame 0xaa, test_frame 0xbb] \<and> arp_lookup cache (test_ip 1) = Some (test_mac 1)
         \<and> pending_len cache (test_ip 1) = 0 \<and> pending_addresses cache = 0)"

definition test_arp_cache_drains_only_once :: bool where
  [test_simps]: "test_arp_cache_drains_only_once \<longleftrightarrow>
     (let (_, cache) = arp_queue_pending (test_ip 1) (test_frame 0xaa) arp_cache_new;
          (drained, cache) = arp_insert (test_ip 1) (test_mac 1) cache;
          (again, cache) = arp_insert (test_ip 1) (test_mac 2) cache
      in drained = [test_frame 0xaa] \<and> again = [] \<and> arp_lookup cache (test_ip 1) = Some (test_mac 2))"

definition test_arp_cache_drains_only_the_resolved_address :: bool where
  [test_simps]: "test_arp_cache_drains_only_the_resolved_address \<longleftrightarrow>
     (let (_, cache) = arp_queue_pending (test_ip 1) (test_frame 0xaa) arp_cache_new;
          (_, cache) = arp_queue_pending (test_ip 2) (test_frame 0xbb) cache;
          (drained, cache) = arp_insert (test_ip 1) (test_mac 1) cache
      in drained = [test_frame 0xaa] \<and> pending_len cache (test_ip 2) = 1 \<and> arp_lookup cache (test_ip 2) = None)"

text \<open>The loops of the tests of the bounds, with the results they assert.\<close>

definition queue_all :: "(ipv4_addr \<times> bytes) list \<Rightarrow> arp_cache \<Rightarrow> queued list \<times> arp_cache" where
  [test_simps]: "queue_all calls cache =
     fold (\<lambda>(a, f) (qs, c). case arp_queue_pending a f c of (q, c) \<Rightarrow> (qs @ [q], c)) calls ([], cache)"

definition insert_all :: "(ipv4_addr \<times> mac_address) list \<Rightarrow> arp_cache \<Rightarrow> bytes list \<times> arp_cache" where
  [test_simps]: "insert_all calls cache =
     fold (\<lambda>(a, m) (ds, c). case arp_insert a m c of (d, c) \<Rightarrow> (ds @ d, c)) calls ([], cache)"

definition test_arp_cache_bounds_frames_per_address :: bool where
  [test_simps]: "test_arp_cache_bounds_frames_per_address \<longleftrightarrow>
     (let (_, cache) = arp_queue_pending (test_ip 1) (test_frame 0) arp_cache_new;
          (qs, cache) = queue_all
            (map (\<lambda>marker. (test_ip 1, test_frame (of_nat marker))) [1..<MAX_PENDING_PER_ADDRESS]) cache;
          (q, cache') = arp_queue_pending (test_ip 1) (test_frame 0xff) cache
      in list_all (\<lambda>q. q = AlreadyPending) qs
         \<and> pending_len cache (test_ip 1) = MAX_PENDING_PER_ADDRESS
         \<and> q = Dropped \<and> pending_len cache' (test_ip 1) = MAX_PENDING_PER_ADDRESS)"

definition test_arp_cache_bounds_pending_addresses :: bool where
  [test_simps]: "test_arp_cache_bounds_pending_addresses \<longleftrightarrow>
     (let (qs, cache) = queue_all
            (map (\<lambda>n. (test_ip (of_nat n), test_frame (of_nat n))) [0..<MAX_PENDING_ADDRESSES])
            arp_cache_new;
          overflow = test_ip (of_nat MAX_PENDING_ADDRESSES);
          (q, cache') = arp_queue_pending overflow (test_frame 0xff) cache
      in list_all (\<lambda>q. q = RequestNeeded) qs \<and> pending_addresses cache = MAX_PENDING_ADDRESSES
         \<and> q = Dropped \<and> pending_addresses cache' = MAX_PENDING_ADDRESSES
         \<and> pending_len cache' overflow = 0)"

definition test_arp_cache_resolved_entries_do_not_fill_the_table :: bool where
  [test_simps]: "test_arp_cache_resolved_entries_do_not_fill_the_table \<longleftrightarrow>
     (let (drained, cache) = insert_all
            (map (\<lambda>n. (test_ip (of_nat n), test_mac (of_nat n))) [0..<MAX_PENDING_ADDRESSES * 2])
            arp_cache_new;
          (q, _) = arp_queue_pending (test_ip 0xff) (test_frame 0xaa) cache
      in drained = [] \<and> pending_addresses cache = 0 \<and> q = RequestNeeded)"

definition test_arp_cache_queue_on_resolved_address_is_dropped :: bool where
  [test_simps]: "test_arp_cache_queue_on_resolved_address_is_dropped \<longleftrightarrow>
     (let (drained, cache) = arp_insert (test_ip 1) (test_mac 1) arp_cache_new;
          (q, cache) = arp_queue_pending (test_ip 1) (test_frame 0xaa) cache
      in drained = [] \<and> q = Dropped \<and> arp_lookup cache (test_ip 1) = Some (test_mac 1))"

definition test_arp_cache_remove_discards_pending :: bool where
  [test_simps]: "test_arp_cache_remove_discards_pending \<longleftrightarrow>
     (let (_, cache) = arp_queue_pending (test_ip 1) (test_frame 0xaa) arp_cache_new;
          cache = arp_remove (test_ip 1) cache;
          (q, _) = arp_queue_pending (test_ip 1) (test_frame 0xbb) cache
      in pending_addresses cache = 0 \<and> pending_len cache (test_ip 1) = 0 \<and> q = RequestNeeded)"

section \<open>Packets\<close>

definition test_arp_operation_from :: bool where
  [test_simps]: "test_arp_operation_from \<longleftrightarrow>
     operation_try_from 1 = Inr Request \<and> operation_try_from 2 = Inr Reply
     \<and> operation_try_from 0 = Inl () \<and> operation_try_from 5 = Inl ()"

definition test_arp_serialization :: bool where
  [test_simps]: "test_arp_serialization \<longleftrightarrow>
     (case operation_try_from 1 of
        Inr op \<Rightarrow>
          (let packet = \<lparr> hardware_type = 1, protocol_type = 0x0800, hardware_len = 6, proto_len = 4,
             operation = op, sender_mac = MacAddress 0x11 0x22 0x33 0x44 0x55 0x66,
             sender_addr = Ipv4Addr 192 168 1 10, target_mac = MacAddress 0 0 0 0 0 0,
             target_addr = Ipv4Addr 192 168 1 20 \<rparr>
           in arp_serialize packet = Some VALID_ARP_REQUEST
              \<and> (arp_serialize packet \<bind> arp_from_slice) = Some (Inr packet))
      | Inl _ \<Rightarrow> False)"

definition test_arp_deserialization_success :: bool where
  [test_simps]: "test_arp_deserialization_success \<longleftrightarrow>
     holds (arp_from_slice VALID_ARP_REQUEST) (\<lambda>packet.
       hardware_type packet = 1 \<and> protocol_type packet = 0x0800 \<and> hardware_len packet = 6
       \<and> proto_len packet = 4
       \<and> mac_addr (sender_mac packet) = [0x11, 0x22, 0x33, 0x44, 0x55, 0x66]
       \<and> octets (sender_addr packet) = [192, 168, 1, 10]
       \<and> mac_addr (target_mac packet) = [0x00, 0x00, 0x00, 0x00, 0x00, 0x00]
       \<and> octets (target_addr packet) = [192, 168, 1, 20]
       \<and> arp_serialize packet = Some VALID_ARP_REQUEST)"

definition test_arp_deserialization_rejects_unsupported_hardware_type :: bool where
  [test_simps]: "test_arp_deserialization_rejects_unsupported_hardware_type \<longleftrightarrow>
     fails (arp_from_slice (VALID_ARP_REQUEST[1 := 0x02])) IncorrectFormat"

definition test_arp_deserialization_rejects_unsupported_protocol :: bool where
  [test_simps]: "test_arp_deserialization_rejects_unsupported_protocol \<longleftrightarrow>
     fails (arp_from_slice (VALID_ARP_REQUEST[2 := 0x86, 3 := 0xDD])) IncorrectFormat"

definition test_arp_deserialization_rejects_invalid_lengths :: bool where
  [test_simps]: "test_arp_deserialization_rejects_invalid_lengths \<longleftrightarrow>
     fails (arp_from_slice (VALID_ARP_REQUEST[4 := 8])) IncorrectFormat
     \<and> fails (arp_from_slice (VALID_ARP_REQUEST[5 := 6])) IncorrectFormat"

definition test_arp_deserialization_rejects_unknown_operation :: bool where
  [test_simps]: "test_arp_deserialization_rejects_unknown_operation \<longleftrightarrow>
     list_all (\<lambda>opcode :: u16. fails (copy_range 6 8 (to_be_bytes opcode) VALID_ARP_REQUEST
       \<bind> arp_from_slice) BadOperation) [0, 3, 4, 0xffff]"

definition test_arp_deserialization_short_buffer :: bool where
  [test_simps]: "test_arp_deserialization_short_buffer \<longleftrightarrow>
     list_all (\<lambda>len. fails (slice_range 0 len VALID_ARP_REQUEST \<bind> arp_from_slice)
       arp_error.LengthOutOfRange) [0, 8, 20, 27]"

definition test_arp_deserialization_ignores_trailing_bytes :: bool where
  [test_simps]: "test_arp_deserialization_ignores_trailing_bytes \<longleftrightarrow>
     holds (copy_range 0 28 VALID_ARP_REQUEST (replicate 60 0) \<bind> arp_from_slice) (\<lambda>packet.
       arp_serialize packet = Some VALID_ARP_REQUEST)"

section \<open>The suite\<close>

definition arp_tests :: "bool list" where
  "arp_tests =
     [test_arp_cache_resolves, test_arp_cache_pending_address_is_not_resolved,
      test_arp_cache_requests_once_per_address, test_arp_cache_insert_drains_pending_in_order,
      test_arp_cache_drains_only_once, test_arp_cache_drains_only_the_resolved_address,
      test_arp_cache_bounds_frames_per_address, test_arp_cache_bounds_pending_addresses,
      test_arp_cache_resolved_entries_do_not_fill_the_table,
      test_arp_cache_queue_on_resolved_address_is_dropped, test_arp_cache_remove_discards_pending,
      test_arp_operation_from, test_arp_serialization, test_arp_deserialization_success,
      test_arp_deserialization_rejects_unsupported_hardware_type,
      test_arp_deserialization_rejects_unsupported_protocol,
      test_arp_deserialization_rejects_invalid_lengths,
      test_arp_deserialization_rejects_unknown_operation, test_arp_deserialization_short_buffer,
      test_arp_deserialization_ignores_trailing_bytes]"

lemmas [test_simps] = VALID_ARP_REQUEST_def

lemma arp_tests_cache:
  "test_arp_cache_resolves" "test_arp_cache_pending_address_is_not_resolved"
  "test_arp_cache_requests_once_per_address" "test_arp_cache_insert_drains_pending_in_order"
  "test_arp_cache_drains_only_once" "test_arp_cache_drains_only_the_resolved_address"
  "test_arp_cache_bounds_frames_per_address" "test_arp_cache_bounds_pending_addresses"
  "test_arp_cache_resolved_entries_do_not_fill_the_table"
  "test_arp_cache_queue_on_resolved_address_is_dropped" "test_arp_cache_remove_discards_pending"
  by (simp_all add: test_simps arp_cache_new_def arp_contains_def upt_conv_Cons eval_simps)

lemma arp_tests_packets:
  "test_arp_operation_from" "test_arp_serialization" "test_arp_deserialization_success"
  "test_arp_deserialization_rejects_unsupported_hardware_type"
  "test_arp_deserialization_rejects_unsupported_protocol"
  "test_arp_deserialization_rejects_invalid_lengths"
  "test_arp_deserialization_rejects_unknown_operation" "test_arp_deserialization_short_buffer"
  "test_arp_deserialization_ignores_trailing_bytes"
  by (simp_all add: test_simps eval_simps)

lemma arp_tests_pass: "list_all id arp_tests"
  by (simp add: arp_tests_def arp_tests_cache arp_tests_packets)

end
