(* ===== verification/Test_Ethernet.thy ===== *)
theory Test_Ethernet
  imports Test_Base Ethernet
begin

text \<open>The unit tests of \<open>net/src/ethernet.rs\<close>: frames around ARP and IPv4 packets.\<close>

section \<open>Fixtures\<close>

definition SRC_MAC :: mac_address where
  [test_simps]: "SRC_MAC = MacAddress 0x11 0x22 0x33 0x44 0x55 0x66"

definition FRAME_PAYLOAD :: bytes where
  [test_simps]: "FRAME_PAYLOAD = [0xde, 0xad, 0xbe, 0xef]"

definition eth_frame :: "u16 \<Rightarrow> bytes \<Rightarrow> bytes" where
  [test_simps]: "eth_frame ethertype payload =
     mac_addr mac_broadcast @ mac_addr SRC_MAC @ to_be_bytes ethertype @ payload"

definition arp_request :: arp_packet where
  [test_simps]: "arp_request =
     \<lparr> hardware_type = 1, protocol_type = 0x0800, hardware_len = 6, proto_len = 4,
       operation = Request, sender_mac = SRC_MAC, sender_addr = Ipv4Addr 192 168 1 10,
       target_mac = MacAddress 0 0 0 0 0 0, target_addr = Ipv4Addr 192 168 1 20 \<rparr>"

definition ipv4_packet_bytes :: "bytes \<Rightarrow> bytes option" where
  [test_simps]: "ipv4_packet_bytes payload = ipv4_serialize
     \<lparr> version_ihl = 0x45, dscp_ecn = 0x00, total_length = of_nat (20 + length payload), ip_id = 0x1234,
       frag_offset = 0, dont_fragment = True, more_fragments = False, ttl = 64, protocol = UDP,
       ip_checksum = 0, ip_source = Ipv4Addr 192 168 1 1, ip_dest = Ipv4Addr 10 0 0 1,
       ip_options = [], ip_data = payload \<rparr>"

section \<open>Frames\<close>

definition test_ethernet_parses_arp :: bool where
  [test_simps]: "test_ethernet_parses_arp \<longleftrightarrow>
     holds (do { arp \<leftarrow> arp_serialize arp_request; ethernet_new (eth_frame 0x0806 arp) }) (\<lambda>f.
       case f of FrameArp parsed \<Rightarrow> parsed = arp_request | _ \<Rightarrow> False)"

definition test_ethernet_parses_ipv4 :: bool where
  [test_simps]: "test_ethernet_parses_ipv4 \<longleftrightarrow>
     holds (do { ip \<leftarrow> ipv4_packet_bytes FRAME_PAYLOAD; ethernet_new (eth_frame 0x0800 ip) }) (\<lambda>f.
       case f of
         FrameIpv4 packet \<Rightarrow> protocol packet = UDP \<and> ip_source packet = Ipv4Addr 192 168 1 1
           \<and> ip_data packet = FRAME_PAYLOAD
       | _ \<Rightarrow> False)"

definition test_ethernet_unknown_ethertype :: bool where
  [test_simps]: "test_ethernet_unknown_ethertype \<longleftrightarrow>
     holds (ethernet_new (eth_frame 0x86dd FRAME_PAYLOAD)) (\<lambda>f.
       case f of FrameUnknown ethertype data \<Rightarrow> ethertype = 0x86dd | _ \<Rightarrow> False)"

definition test_ethernet_propagates_arp_error :: bool where
  [test_simps]: "test_ethernet_propagates_arp_error \<longleftrightarrow>
     fails (do {
         arp \<leftarrow> arp_serialize arp_request;
         arp \<leftarrow> copy_range 6 8 (to_be_bytes (9 :: u16)) arp;
         ethernet_new (eth_frame 0x0806 arp) }) (ArpErr BadOperation)"

definition test_ethernet_propagates_arp_length_error :: bool where
  [test_simps]: "test_ethernet_propagates_arp_length_error \<longleftrightarrow>
     fails (do {
         arp \<leftarrow> arp_serialize arp_request;
         arp \<leftarrow> slice_range 0 20 arp;
         ethernet_new (eth_frame 0x0806 arp) }) (ArpErr arp_error.LengthOutOfRange)"

definition test_ethernet_propagates_ipv4_error :: bool where
  [test_simps]: "test_ethernet_propagates_ipv4_error \<longleftrightarrow>
     fails (do {
         packet \<leftarrow> ipv4_packet_bytes FRAME_PAYLOAD;
         packet \<leftarrow> slice_set 0 0x55 packet;
         ethernet_new (eth_frame 0x0800 packet) }) (Ipv4Err VersionMismatch)"

definition test_ethernet_propagates_ipv4_length_error :: bool where
  [test_simps]: "test_ethernet_propagates_ipv4_length_error \<longleftrightarrow>
     fails (do {
         packet \<leftarrow> ipv4_packet_bytes FRAME_PAYLOAD;
         packet \<leftarrow> slice_range 0 16 packet;
         ethernet_new (eth_frame 0x0800 packet) }) (Ipv4Err ipv4_error.LengthOutOfRange)"

definition test_ethernet_rejects_truncated_frame :: bool where
  [test_simps]: "test_ethernet_rejects_truncated_frame \<longleftrightarrow>
     list_all (\<lambda>len. fails (do {
         packet \<leftarrow> ipv4_packet_bytes FRAME_PAYLOAD;
         bytes \<leftarrow> slice_range 0 len (eth_frame 0x0800 packet);
         ethernet_new bytes }) TooShort) [0, 12, 13]"

definition test_mac_addr_display :: bool where
  [test_simps]: "test_mac_addr_display \<longleftrightarrow>
     mac_display (MacAddress 0x01 0x02 0x03 0x04 0x05 0x06) = ''01:02:03:04:05:06''"

section \<open>The suite\<close>

definition ethernet_tests :: "bool list" where
  "ethernet_tests =
     [test_ethernet_parses_arp, test_ethernet_parses_ipv4, test_ethernet_unknown_ethertype,
      test_ethernet_propagates_arp_error, test_ethernet_propagates_arp_length_error,
      test_ethernet_propagates_ipv4_error, test_ethernet_propagates_ipv4_length_error,
      test_ethernet_rejects_truncated_frame, test_mac_addr_display]"

lemmas [test_simps] = mac_broadcast_def

lemma ethernet_tests_frames:
  "test_ethernet_parses_arp" "test_ethernet_parses_ipv4" "test_ethernet_unknown_ethertype"
  "test_ethernet_propagates_arp_error" "test_ethernet_propagates_arp_length_error"
  "test_ethernet_propagates_ipv4_error" "test_ethernet_propagates_ipv4_length_error"
  "test_ethernet_rejects_truncated_frame"
  by (simp_all add: test_simps eval_simps)

lemma ethernet_tests_display: "test_mac_addr_display"
  by code_simp

lemma ethernet_tests_pass: "list_all id ethernet_tests"
  by (simp add: ethernet_tests_def ethernet_tests_frames ethernet_tests_display)

end
