(* ===== verification/Test_Dhcp.thy ===== *)
theory Test_Dhcp
  imports Test_Base Dhcp
begin

text \<open>
  The unit tests of \<open>net/src/dhcp.rs\<close>: the messages the client builds, compared with a discover
  that was captured off the wire, and its reading of the captured offer, of variants of its
  options and of replies with one defect each.
\<close>

section \<open>Fixtures\<close>

definition OFFER_OPTIONS :: bytes where
  [test_simps]: "OFFER_OPTIONS =
     [53, 1, 2,
      54, 4, 10, 0, 2, 2,
      1, 4, 255, 255, 255, 0,
      3, 4, 10, 0, 2, 2,
      6, 4, 10, 0, 2, 3,
      51, 4, 0, 1, 0x51, 0x80,
      255]"

definition offer_with :: "bytes \<Rightarrow> bytes" where
  "offer_with options = take FIXED_LEN OFFER @ options"

definition parse_offer :: "bytes \<Rightarrow> (dhcp_error + dhcp_binding) option" where
  [test_simps]: "parse_offer msg = from_offer msg CAPTURE_XID CLIENT_MAC"

definition parse_ack :: "bytes \<Rightarrow> (dhcp_error + dhcp_binding) option" where
  [test_simps]: "parse_ack msg = from_ack msg CAPTURE_XID CLIENT_MAC"

section \<open>Messages of the client\<close>

definition test_build_discover_matches_capture :: bool where
  [test_simps]: "test_build_discover_matches_capture \<longleftrightarrow>
     build_discover CLIENT_MAC CAPTURE_XID = Some DISCOVER"

definition test_build_discover_is_padded_to_bootp_minimum :: bool where
  [test_simps]: "test_build_discover_is_padded_to_bootp_minimum \<longleftrightarrow>
     yields (build_discover CLIENT_MAC CAPTURE_XID) (\<lambda>msg.
       length msg = MESSAGE_LEN \<and> slice_get (FIXED_LEN + 7) msg = Some OPT_END
       \<and> yields (slice_from (FIXED_LEN + 8) msg) (list_all (\<lambda>byte. byte = 0)))"

definition test_build_discover_carries_xid_and_mac :: bool where
  [test_simps]: "test_build_discover_carries_xid_and_mac \<longleftrightarrow>
     yields (build_discover CLIENT_MAC 0x01234567) (\<lambda>msg.
       read_u32 4 8 msg = Some 0x01234567 \<and> slice_range 28 34 msg = Some (mac_addr CLIENT_MAC)
       \<and> slice_range 34 44 msg = Some (replicate 10 0))"

definition test_build_discover_requests_broadcast_reply :: bool where
  [test_simps]: "test_build_discover_requests_broadcast_reply \<longleftrightarrow>
     yields (build_discover CLIENT_MAC CAPTURE_XID) (\<lambda>msg. read_u16 10 12 msg = Some FLAG_BROADCAST)"

definition test_build_request_options :: bool where
  [test_simps]: "test_build_request_options \<longleftrightarrow>
     yields (build_request CLIENT_MAC CAPTURE_XID CAPTURE_BINDING) (\<lambda>msg.
       slice_range FIXED_LEN (FIXED_LEN + 20) msg = Some
         [53, 1, 3, 50, 4, 10, 0, 2, 15, 54, 4, 10, 0, 2, 2, 55, 2, 1, 3, 255]
       \<and> yields (slice_from (FIXED_LEN + 20) msg) (list_all (\<lambda>byte. byte = 0)))"

definition test_build_request_shares_the_discover_header :: bool where
  [test_simps]: "test_build_request_shares_the_discover_header \<longleftrightarrow>
     yields (build_request CLIENT_MAC CAPTURE_XID CAPTURE_BINDING) (\<lambda>request.
       slice_range 0 FIXED_LEN request = slice_range 0 FIXED_LEN DISCOVER)"

definition test_build_request_leaves_ciaddr_unset :: bool where
  [test_simps]: "test_build_request_leaves_ciaddr_unset \<longleftrightarrow>
     yields (build_request CLIENT_MAC CAPTURE_XID CAPTURE_BINDING) (\<lambda>msg.
       slice_range 12 16 msg = Some (replicate 4 0) \<and> slice_range 16 20 msg = Some (replicate 4 0))"

definition test_build_request_names_the_offer_it_accepts :: bool where
  [test_simps]: "test_build_request_names_the_offer_it_accepts \<longleftrightarrow>
     (let other = \<lparr> client_addr = Ipv4Addr 192 168 1 50, subnet_mask = Ipv4Addr 255 255 0 0,
           gateway = Ipv4Addr 192 168 1 1, server_id = Ipv4Addr 192 168 1 254 \<rparr>
      in yields (build_request CLIENT_MAC CAPTURE_XID other) (\<lambda>msg.
        slice_range (FIXED_LEN + 3) (FIXED_LEN + 5) msg = Some [OPT_REQUESTED_ADDR, 4]
        \<and> slice_range (FIXED_LEN + 5) (FIXED_LEN + 9) msg = Some (octets (client_addr other))
        \<and> slice_range (FIXED_LEN + 9) (FIXED_LEN + 11) msg = Some [OPT_SERVER_ID, 4]
        \<and> slice_range (FIXED_LEN + 11) (FIXED_LEN + 15) msg = Some (octets (server_id other))))"

definition test_build_request_is_not_a_reply :: bool where
  [test_simps]: "test_build_request_is_not_a_reply \<longleftrightarrow>
     yields (build_request CLIENT_MAC CAPTURE_XID CAPTURE_BINDING) (\<lambda>msg. fails (parse_ack msg) NotAReply)"

definition test_discover_parses_as_its_own_message_type :: bool where
  [test_simps]: "test_discover_parses_as_its_own_message_type \<longleftrightarrow>
     yields (build_discover CLIENT_MAC CAPTURE_XID) (\<lambda>msg. fails (parse_offer msg) NotAReply)"

section \<open>The captured exchange\<close>

definition test_parse_offer_from_capture :: bool where
  [test_simps]: "test_parse_offer_from_capture \<longleftrightarrow>
     holds (parse_offer OFFER) (\<lambda>offer. offer = CAPTURE_BINDING)"

definition test_parse_ack :: bool where
  [test_simps]: "test_parse_ack \<longleftrightarrow>
     holds (parse_ack ack_from_capture) (\<lambda>ack. ack = CAPTURE_BINDING)"

definition test_ack_and_offer_are_not_interchangeable :: bool where
  [test_simps]: "test_ack_and_offer_are_not_interchangeable \<longleftrightarrow>
     fails (parse_ack OFFER) WrongMessageType \<and> fails (parse_offer ack_from_capture) WrongMessageType"

definition test_ack_is_checked_like_an_offer :: bool where
  [test_simps]: "test_ack_is_checked_like_an_offer \<longleftrightarrow>
     fails (parse_ack (ack_from_capture[4 := ack_from_capture ! 4 XOR 0xff])) XidMismatch
     \<and> fails (parse_ack (ack_from_capture[33 := ack_from_capture ! 33 XOR 0xff])) ClientMacMismatch"

definition test_binding_round_trips_through_a_request :: bool where
  [test_simps]: "test_binding_round_trips_through_a_request \<longleftrightarrow>
     holds (parse_offer OFFER) (\<lambda>offer.
       yields (build_request CLIENT_MAC CAPTURE_XID offer) (\<lambda>request.
         read_u32 4 8 request = Some CAPTURE_XID
         \<and> slice_range (FIXED_LEN + 5) (FIXED_LEN + 9) request = Some (octets (client_addr offer))
         \<and> slice_range (FIXED_LEN + 11) (FIXED_LEN + 15) request = Some (octets (server_id offer))))"

section \<open>Variants of the offer\<close>

definition test_offer_ignores_padding_after_end :: bool where
  [test_simps]: "test_offer_ignores_padding_after_end \<longleftrightarrow>
     parse_offer (OFFER @ replicate (548 - length OFFER) 0) = parse_offer OFFER"

definition test_offer_ignores_junk_after_end :: bool where
  [test_simps]: "test_offer_ignores_junk_after_end \<longleftrightarrow>
     parse_offer (OFFER @ [3, 4, 192, 168]) = parse_offer OFFER"

definition test_offer_accepts_end_as_last_byte :: bool where
  [test_simps]: "test_offer_accepts_end_as_last_byte \<longleftrightarrow>
     (let msg = offer_with OFFER_OPTIONS in msg \<noteq> [] \<and> last msg = OPT_END \<and> parse_offer msg = parse_offer OFFER)"

definition test_offer_skips_pad_options :: bool where
  [test_simps]: "test_offer_skips_pad_options \<longleftrightarrow>
     parse_offer (offer_with ([OPT_PAD, OPT_PAD] @ [53, 1, 2, OPT_PAD] @ [54, 4, 10, 0, 2, 2, OPT_PAD]
       @ [1, 4, 255, 255, 255, 0, OPT_PAD] @ [3, 4, 10, 0, 2, 2, 255])) = parse_offer OFFER"

definition test_offer_skips_unknown_options :: bool where
  [test_simps]: "test_offer_skips_unknown_options \<longleftrightarrow>
     parse_offer (offer_with
       [53, 1, 2, 54, 4, 10, 0, 2, 2, 1, 4, 255, 255, 255, 0, 3, 4, 10, 0, 2, 2, 255]) = parse_offer OFFER"

definition test_offer_skips_zero_length_option :: bool where
  [test_simps]: "test_offer_skips_zero_length_option \<longleftrightarrow>
     parse_offer (offer_with ([116, 0] @ OFFER_OPTIONS)) = parse_offer OFFER"

definition test_offer_takes_first_router :: bool where
  [test_simps]: "test_offer_takes_first_router \<longleftrightarrow>
     holds (parse_offer (offer_with
       [53, 1, 2, 54, 4, 10, 0, 2, 2, 1, 4, 255, 255, 255, 0, 3, 8, 10, 0, 2, 2, 10, 0, 2, 9, 255]))
       (\<lambda>offer. gateway offer = Ipv4Addr 10 0 2 2)"

section \<open>Defects of the header\<close>

definition test_offer_rejects_short_message :: bool where
  [test_simps]: "test_offer_rejects_short_message \<longleftrightarrow>
     yields (slice_range 0 (FIXED_LEN - 1) OFFER) (\<lambda>msg. fails (parse_offer msg) TooShort)
     \<and> fails (parse_offer []) TooShort"

definition test_offer_rejects_header_without_options :: bool where
  [test_simps]: "test_offer_rejects_header_without_options \<longleftrightarrow>
     yields (slice_range 0 FIXED_LEN OFFER) (\<lambda>msg. fails (parse_offer msg) InvalidTLV)"

definition test_offer_rejects_request_op :: bool where
  [test_simps]: "test_offer_rejects_request_op \<longleftrightarrow>
     fails (parse_offer (OFFER[0 := OP_BOOT_REQUEST])) NotAReply"

definition test_offer_rejects_non_ethernet_hardware :: bool where
  [test_simps]: "test_offer_rejects_non_ethernet_hardware \<longleftrightarrow>
     list_all (\<lambda>(index, byte). fails (parse_offer (OFFER[index := byte])) NotAReply) [(1, 6), (2, 16)]"

definition test_offer_rejects_bad_magic_cookie :: bool where
  [test_simps]: "test_offer_rejects_bad_magic_cookie \<longleftrightarrow>
     fails (parse_offer (OFFER[239 := OFFER ! 239 XOR 0xff])) BadMagicCookie"

definition test_offer_rejects_other_exchange :: bool where
  [test_simps]: "test_offer_rejects_other_exchange \<longleftrightarrow>
     fails (parse_offer (OFFER[4 := OFFER ! 4 XOR 0xff])) XidMismatch"

definition test_offer_rejects_other_client :: bool where
  [test_simps]: "test_offer_rejects_other_client \<longleftrightarrow>
     fails (parse_offer (OFFER[33 := OFFER ! 33 XOR 0xff])) ClientMacMismatch"

definition test_offer_rejects_dirty_hardware_address_padding :: bool where
  [test_simps]: "test_offer_rejects_dirty_hardware_address_padding \<longleftrightarrow>
     fails (parse_offer (OFFER[34 := 0x01])) ClientMacMismatch"

definition test_offer_rejects_unspecified_address :: bool where
  [test_simps]: "test_offer_rejects_unspecified_address \<longleftrightarrow>
     yields (copy_range 16 20 (octets addr_unspecified) OFFER) (\<lambda>msg. fails (parse_offer msg) MissingData)"

definition test_offer_checks_identity_before_contents :: bool where
  [test_simps]: "test_offer_checks_identity_before_contents \<longleftrightarrow>
     fails (parse_offer (OFFER[4 := OFFER ! 4 XOR 0xff, FIXED_LEN := 3])) XidMismatch"

section \<open>Defects of the options\<close>

definition test_offer_rejects_wrong_message_type :: bool where
  [test_simps]: "test_offer_rejects_wrong_message_type \<longleftrightarrow>
     list_all (\<lambda>message_type. fails (parse_offer (offer_with
         (OFFER_OPTIONS[2 := u8_of_message_type message_type]))) WrongMessageType)
       [Discover, DhcpRequest, Ack, Nak]"

definition test_offer_rejects_missing_message_type :: bool where
  [test_simps]: "test_offer_rejects_missing_message_type \<longleftrightarrow>
     fails (parse_offer (offer_with [1, 4, 255, 255, 255, 0, 3, 4, 10, 0, 2, 2, 255])) WrongMessageType"

definition test_offer_rejects_unknown_message_type :: bool where
  [test_simps]: "test_offer_rejects_unknown_message_type \<longleftrightarrow>
     fails (parse_offer (offer_with (OFFER_OPTIONS[2 := 9]))) InvalidTLV"

definition test_offer_rejects_missing_subnet_mask :: bool where
  [test_simps]: "test_offer_rejects_missing_subnet_mask \<longleftrightarrow>
     fails (parse_offer (offer_with [53, 1, 2, 54, 4, 10, 0, 2, 2, 3, 4, 10, 0, 2, 2, 255])) MissingData"

definition test_offer_rejects_missing_router :: bool where
  [test_simps]: "test_offer_rejects_missing_router \<longleftrightarrow>
     fails (parse_offer (offer_with [53, 1, 2, 54, 4, 10, 0, 2, 2, 1, 4, 255, 255, 255, 0, 255]))
       MissingData"

definition test_offer_rejects_missing_server_id :: bool where
  [test_simps]: "test_offer_rejects_missing_server_id \<longleftrightarrow>
     fails (parse_offer (offer_with [53, 1, 2, 1, 4, 255, 255, 255, 0, 3, 4, 10, 0, 2, 2, 255])) MissingData"

definition test_offer_rejects_bad_server_id_length :: bool where
  [test_simps]: "test_offer_rejects_bad_server_id_length \<longleftrightarrow>
     fails (parse_offer (offer_with
       [53, 1, 2, 54, 3, 10, 0, 2, 1, 4, 255, 255, 255, 0, 3, 4, 10, 0, 2, 2, 255])) InvalidTLV"

definition test_offer_rejects_missing_end :: bool where
  [test_simps]: "test_offer_rejects_missing_end \<longleftrightarrow>
     fails (parse_offer (offer_with (butlast OFFER_OPTIONS))) InvalidTLV"

definition test_offer_rejects_option_running_past_the_message :: bool where
  [test_simps]: "test_offer_rejects_option_running_past_the_message \<longleftrightarrow>
     fails (parse_offer (offer_with [53, 1, 2, 1, 4, 255, 255, 255, 0, 3, 8, 10, 0, 2, 2, 255])) InvalidTLV"

definition test_offer_rejects_tag_without_length :: bool where
  [test_simps]: "test_offer_rejects_tag_without_length \<longleftrightarrow>
     fails (parse_offer (offer_with (butlast OFFER_OPTIONS @ [3]))) InvalidTLV"

definition test_offer_rejects_bad_option_lengths :: bool where
  [test_simps]: "test_offer_rejects_bad_option_lengths \<longleftrightarrow>
     list_all (\<lambda>options. fails (parse_offer (offer_with options)) InvalidTLV)
       [[53, 0, 1, 4, 255, 255, 255, 0, 3, 4, 10, 0, 2, 2, 255],
        [53, 2, 2, 2, 1, 4, 255, 255, 255, 0, 3, 4, 10, 0, 2, 2, 255],
        [53, 1, 2, 1, 0, 3, 4, 10, 0, 2, 2, 255],
        [53, 1, 2, 1, 3, 255, 255, 255, 3, 4, 10, 0, 2, 2, 255],
        [53, 1, 2, 1, 4, 255, 255, 255, 0, 3, 0, 255],
        [53, 1, 2, 1, 4, 255, 255, 255, 0, 3, 6, 10, 0, 2, 2, 10, 0, 255]]"

definition test_message_type_round_trip :: bool where
  [test_simps]: "test_message_type_round_trip \<longleftrightarrow>
     list_all (\<lambda>message_type.
       message_type_try_from (u8_of_message_type message_type) = Inr message_type)
       [Discover, Offer, DhcpRequest, Decline, Ack, Nak, Release, Inform]
     \<and> message_type_try_from 0 = Inl () \<and> message_type_try_from 9 = Inl ()"

section \<open>The suite\<close>

definition dhcp_tests :: "bool list" where
  "dhcp_tests =
     [test_build_discover_matches_capture, test_build_discover_is_padded_to_bootp_minimum,
      test_build_discover_carries_xid_and_mac, test_build_discover_requests_broadcast_reply,
      test_build_request_options, test_build_request_shares_the_discover_header,
      test_build_request_leaves_ciaddr_unset, test_build_request_names_the_offer_it_accepts,
      test_build_request_is_not_a_reply, test_discover_parses_as_its_own_message_type,
      test_parse_offer_from_capture, test_parse_ack, test_ack_and_offer_are_not_interchangeable,
      test_ack_is_checked_like_an_offer, test_binding_round_trips_through_a_request,
      test_offer_ignores_padding_after_end, test_offer_ignores_junk_after_end,
      test_offer_accepts_end_as_last_byte, test_offer_skips_pad_options,
      test_offer_skips_unknown_options, test_offer_skips_zero_length_option,
      test_offer_takes_first_router, test_offer_rejects_short_message,
      test_offer_rejects_header_without_options, test_offer_rejects_request_op,
      test_offer_rejects_non_ethernet_hardware, test_offer_rejects_bad_magic_cookie,
      test_offer_rejects_other_exchange, test_offer_rejects_other_client,
      test_offer_rejects_dirty_hardware_address_padding, test_offer_rejects_unspecified_address,
      test_offer_checks_identity_before_contents, test_offer_rejects_wrong_message_type,
      test_offer_rejects_missing_message_type, test_offer_rejects_unknown_message_type,
      test_offer_rejects_missing_subnet_mask, test_offer_rejects_missing_router,
      test_offer_rejects_missing_server_id, test_offer_rejects_bad_server_id_length,
      test_offer_rejects_missing_end, test_offer_rejects_option_running_past_the_message,
      test_offer_rejects_tag_without_length, test_offer_rejects_bad_option_lengths,
      test_message_type_round_trip]"

section \<open>Evaluation\<close>

text \<open>The captured offer in parts, and the reading of its header with other options behind it.\<close>

lemma offer_parts:
  "OFFER = ([2, 1, 6, 0, 0xbc, 0xb0, 0xed, 0x7d] @ replicate 8 0 @ [10, 0, 2, 15, 10, 0, 2, 2]
     @ replicate 4 0 @ [0x52, 0x54, 0x00, 0x12, 0x34, 0x56] @ replicate 202 0
     @ [0x63, 0x82, 0x53, 0x63]) @ OFFER_OPTIONS"
  by (simp add: OFFER_def OFFER_OPTIONS_def replicate_numeral)

lemma offer_with_parts:
  "offer_with options = ([2, 1, 6, 0, 0xbc, 0xb0, 0xed, 0x7d] @ replicate 8 0
     @ [10, 0, 2, 15, 10, 0, 2, 2] @ replicate 4 0 @ [0x52, 0x54, 0x00, 0x12, 0x34, 0x56]
     @ replicate 202 0 @ [0x63, 0x82, 0x53, 0x63]) @ options"
  unfolding offer_with_def offer_parts by (simp add: FIXED_LEN_def)

lemma offer_is_offer_with: "OFFER = offer_with OFFER_OPTIONS"
  by (simp only: offer_parts offer_with_parts)

lemma offer_with_fields:
  "length (offer_with options) = 240 + length options"
  "field 0 3 (offer_with options) = [2, 1, 6]"
  "field 236 240 (offer_with options) = MAGIC_COOKIE"
  "field 4 8 (offer_with options) = to_be_bytes CAPTURE_XID"
  "field 28 44 (offer_with options) = mac_addr CLIENT_MAC @ replicate 10 0"
  "field 16 20 (offer_with options) = [10, 0, 2, 15]"
  "drop 240 (offer_with options) = options"
  by (simp_all add: offer_with_parts field_def MAGIC_COOKIE_def CAPTURE_XID_def CLIENT_MAC_def
      to_be_bytes_u32)

lemma offer_with_read:
  "from_message (offer_with options) CAPTURE_XID CLIENT_MAC expected =
     Some (case parse_rest options options_default of
       None \<Rightarrow> Inl InvalidTLV
     | Some opts \<Rightarrow> binding_of (offer_with []) opts expected)"
proof -
  have "binding_of (offer_with options) = binding_of (offer_with [])"
    by (intro ext) (simp only: binding_of_def offer_with_fields)
  then show ?thesis by (simp add: from_message_total from_message_ref_def offer_with_fields split: option.split)
qed

lemma capture_as_offer_with:
  "OFFER = offer_with OFFER_OPTIONS" "offer_with options @ rest = offer_with (options @ rest)"
  "ack_from_capture = offer_with (OFFER_OPTIONS[2 := 5])" "length OFFER = 274"
proof -
  show "OFFER = offer_with OFFER_OPTIONS" by (rule offer_is_offer_with)
  show l: "length OFFER = 274" by (simp add: OFFER_def)
  have "ack_from_capture = (offer_with OFFER_OPTIONS)[242 := 5]"
    by (simp add: ack_from_capture_def FIXED_LEN_def flip: offer_is_offer_with)
  also have "\<dots> = offer_with (OFFER_OPTIONS[2 := 5])"
    using l by (simp add: offer_with_def list_update_append FIXED_LEN_def)
  finally show "ack_from_capture = offer_with (OFFER_OPTIONS[2 := 5])" .
qed (simp add: offer_with_def)

lemma offer_with_last: "options \<noteq> [] \<Longrightarrow> offer_with options \<noteq> [] \<and> last (offer_with options) = last options"
  by (simp add: offer_with_def)

lemmas options_eval =
  test_simps from_offer_def from_ack_def offer_with_read option_effect_def options_default_def
  binding_of_def offer_with_fields CAPTURE_BINDING_def eval_simps message_type_try_from_def

lemma dhcp_tests_options:
  "test_offer_rejects_wrong_message_type" "test_offer_rejects_missing_message_type"
  "test_offer_rejects_unknown_message_type" "test_offer_rejects_missing_subnet_mask"
  "test_offer_rejects_missing_router" "test_offer_rejects_missing_server_id"
  "test_offer_rejects_bad_server_id_length" "test_offer_rejects_missing_end"
  "test_offer_rejects_option_running_past_the_message" "test_offer_rejects_tag_without_length"
  "test_offer_rejects_bad_option_lengths" "test_message_type_round_trip"
  by (simp_all add: options_eval)

lemma dhcp_tests_variants:
  "test_offer_ignores_padding_after_end" "test_offer_ignores_junk_after_end"
  "test_offer_accepts_end_as_last_byte" "test_offer_skips_pad_options"
  "test_offer_skips_unknown_options" "test_offer_skips_zero_length_option"
  "test_offer_takes_first_router"
  by (simp_all add: options_eval capture_as_offer_with offer_with_last)

lemma dhcp_tests_capture:
  "test_parse_offer_from_capture" "test_parse_ack" "test_ack_and_offer_are_not_interchangeable"
  by (simp_all add: options_eval capture_as_offer_with)

lemma dhcp_tests_header:
  "test_ack_is_checked_like_an_offer" "test_offer_rejects_request_op"
  "test_offer_rejects_non_ethernet_hardware" "test_offer_rejects_bad_magic_cookie"
  "test_offer_rejects_other_exchange" "test_offer_rejects_other_client"
  "test_offer_rejects_dirty_hardware_address_padding" "test_offer_checks_identity_before_contents"
  by (simp_all add: test_simps from_offer_def from_ack_def from_message_total from_message_ref_def field_def
      OFFER_def CAPTURE_XID_def CLIENT_MAC_def eval_simps ack_from_capture_def)

lemma dhcp_tests_build:
  "test_build_discover_is_padded_to_bootp_minimum" "test_build_discover_carries_xid_and_mac"
  "test_build_discover_requests_broadcast_reply" "test_build_request_options"
  "test_build_request_shares_the_discover_header" "test_build_request_leaves_ciaddr_unset"
  "test_build_request_names_the_offer_it_accepts"
  by (simp_all add: test_simps build_discover_layout build_request_layout request_header_def discover_items_def
      request_items_def CAPTURE_XID_def CLIENT_MAC_def CAPTURE_BINDING_def eval_simps DISCOVER_def)

lemma dhcp_tests_sent:
  "test_build_discover_matches_capture" "test_build_request_is_not_a_reply"
  "test_discover_parses_as_its_own_message_type"
proof -
  show "test_build_discover_matches_capture"
    by (simp add: test_build_discover_matches_capture_def build_discover_matches_capture)
  show "test_build_request_is_not_a_reply" "test_discover_parses_as_its_own_message_type"
    by (simp_all add: test_simps build_discover_layout build_request_layout from_offer_def from_ack_def
        from_message_total from_message_ref_def field_def request_header_def)
qed

lemma dhcp_tests_binding: "test_binding_round_trips_through_a_request"
  unfolding test_binding_round_trips_through_a_request_def parse_offer_def from_offer_capture
  by (simp add: test_simps build_request_layout request_header_def request_items_def CAPTURE_XID_def
      CLIENT_MAC_def CAPTURE_BINDING_def eval_simps)

lemma dhcp_tests_truncated:
  "test_offer_rejects_short_message" "test_offer_rejects_header_without_options"
proof -
  show "test_offer_rejects_short_message"
    by (simp add: test_simps slice_range_def FIXED_LEN_def capture_as_offer_with(4) from_offer_def
        from_message_total from_message_ref_def)
  have "slice_range 0 FIXED_LEN OFFER = Some (offer_with [])"
    by (simp add: slice_range_def FIXED_LEN_def capture_as_offer_with(4) offer_with_def)
  then show "test_offer_rejects_header_without_options"
    unfolding test_offer_rejects_header_without_options_def by (simp add: options_eval)
qed

lemma dhcp_tests_unspecified: "test_offer_rejects_unspecified_address"
  by (simp add: test_simps from_offer_def from_message_total from_message_ref_def field_def OFFER_def
      CAPTURE_XID_def CLIENT_MAC_def option_effect_def options_default_def binding_of_def
      message_type_try_from_def eval_simps)

lemma dhcp_tests_pass: "list_all id dhcp_tests"
  by (simp add: dhcp_tests_def dhcp_tests_build dhcp_tests_sent dhcp_tests_capture dhcp_tests_binding
      dhcp_tests_variants dhcp_tests_header dhcp_tests_truncated dhcp_tests_unspecified dhcp_tests_options)

end
