(* ===== verification/Spec2Isabelle.thy ===== *)
theory Spec2Isabelle
  imports Traffic Dhcp_Client Boot Key_Erasure Executor_Loop Faults Test_Udp Test_Arp Test_Ethernet Test_Dhcp
begin

text \<open>
  A verification of the conc-os kernel: a single-core x86-64 kernel with an asynchronous executor,
  a VirtIO network card, a serial console, and a small network stack that obtains an address by
  DHCP and answers ARP and echo requests.

  \<^bold>\<open>Parts and how they interact.\<close> The boot code (\<open>kernel/src/main.rs\<close>) sets up the page
  allocator and the heap, reads the ACPI tables, programs the APICs and the timer, brings up the
  network card and the entropy source, and spawns three tasks on the executor: the echo task of the
  serial console, the network task, and a task that reports the time. Interrupt handlers only put
  bytes or events into a bounded queue and wake the task that waits for them; the tasks do the
  work. The parsers and builders of the protocols are a crate of their own (\<open>net/src\<close>), used by
  the network interface (\<open>kernel/src/network/handler.rs\<close>).

  \<^bold>\<open>Conventions.\<close> Machine integers are words of their width, \<open>usize\<close> is \<^typ>\<open>nat\<close>. A panic is
  \<^const>\<open>None\<close> of an option and \<open>Result\<close> is a sum type with the error on the left; the checked
  arithmetic, slicing and indexing of Rust (overflow panics) are the operations of \<open>Prelude\<close>.
  Mutable state is passed explicitly, a static is a field of a record. Code outside the
  repository - drivers, queues, ciphers, registers, ports - is a record of functions over an
  abstract world, an argument of the definitions that call it; what its documentation promises is
  a predicate on that record (\<^const>\<open>fifo\<close>, \<^const>\<open>waker_slot\<close>, \<^const>\<open>driver_sends\<close>,
  \<^const>\<open>fills_buffers\<close>, \<^const>\<open>tty_accepts\<close>, \<^const>\<open>phys_valid\<close>, \<^const>\<open>wakes_bounded\<close>,
  \<^const>\<open>timers_run\<close>), which the witnesses satisfy with concrete functions. What the start asks of the
  machine (\<^const>\<open>machine_ok\<close>) is asked only of the worlds the start passes through. Loops over data are structural or have a measure. Loops
  that depend on the outside (\<^const>\<open>handle_queue_interrupt\<close>, \<^const>\<open>run_ready_tasks\<close>,
  \<^const>\<open>drain_uart\<close>, \<^const>\<open>await_pit\<close>, \<^const>\<open>clock_poll\<close>) are partial functions whose divergence is
  \<^const>\<open>None\<close>, and their theorems say that they return. A poll of a stream takes at most four steps
  (\<^const>\<open>poll_next\<close>), and \<^const>\<open>stream_items\<close> with 101 rounds empties a queue of 100.

  \<^bold>\<open>Theories.\<close>
  \<^item> \<open>Prelude\<close>, \<open>Bytes\<close>, \<open>Btree_Map\<close>: panicking operations, big- and little-endian fields
    (\<open>net/src/utils.rs\<close>), and \<open>BTreeMap\<close> as a strictly sorted association list behind the locale
    of its laws.
  \<^item> \<open>Checksum\<close>, \<open>Addresses\<close>, \<open>Ipv4\<close>, \<open>Udp\<close>, \<open>Arp\<close>, \<open>Ethernet\<close>, \<open>Dhcp_Options\<close>, \<open>Dhcp\<close>: the
    protocol crate. Parsers never panic on any bytes and accept exactly the well-formed packets;
    serializing and parsing are inverse; the checksum is the one's complement sum.
  \<^item> \<open>Arp_Cache\<close>: the ARP cache (\<open>net/src/arp.rs\<close>) refines a specification of known addresses and
    waiting packets, with bounds and without loss.
  \<^item> \<open>Interface\<close>, \<open>Interface_Safety\<close>, \<open>Network_Task\<close>, \<open>Dhcp_Client\<close>, \<open>Traffic\<close>: the interface and
    its task (\<open>handler.rs\<close>, \<open>task/network.rs\<close>). The invariant \<^const>\<open>net_ok\<close> is kept by every received
    packet (locale \<open>total_handler\<close>); the task follows the abstract DHCP exchange \<^const>\<open>lease_step\<close>,
    takes an address only when it was acknowledged, and completes the exchange; requests are
    answered and parked packets are sent.
  \<^item> \<open>Rng\<close>, \<open>Key_Erasure\<close>, \<open>Devices\<close>, \<open>Pci\<close>: random numbers (\<open>rng.rs\<close>) with what \<open>zeroize\<close> erases of
    the locals of its functions and which copies of the seed it does not reach, configuration space (\<open>pci.rs\<close>) and the bring-up of the two VirtIO
    devices (\<open>network/device.rs\<close>, \<open>rng.rs\<close>; locale \<open>typed_probe\<close>).
  \<^item> \<open>Executor\<close>, \<open>Executor_Loop\<close>: scheduling (\<open>task/executor.rs\<close>). The endless loop of \<open>run\<close> is the
    machine \<^const>\<open>run_step\<close>, with \<open>sleep_if_idle\<close> taken apart into its instructions and an interrupt
    between any two of them (\<^const>\<open>executor_runs\<close>): it never halts on a ready task, it dispatches what
    is queued within three steps more than there are tasks, and the executor stays well-formed. A poll
    may panic, and so may waking a task when the queue is full, in a poll or in an interrupt; the
    histories that end so are \<^const>\<open>executor_stops\<close>.
  \<^item> \<open>Timers\<close>, \<open>Streams\<close>, \<open>Interrupt_Mutex\<close>: sleeping (\<open>task/time.rs\<close>, \<open>time.rs\<close>), the streams fed by
    interrupts (\<open>task/serial.rs\<close>, \<open>task/network.rs\<close>, \<open>interrupts.rs\<close>), with an interrupt between any
    two steps of a poll, and the lock that masks interrupts (\<open>mutex.rs\<close>) beside plain spin locks, with
    guards dropped in any order: what is masked then, and what only when they are nested.
  \<^item> \<open>Page_Allocator\<close>: the bitmap allocator (\<open>allocation/ppa.rs\<close>; locale \<open>frame_map\<close>), the heap
    and DMA memory (\<open>allocator.rs\<close>, \<open>virtio.rs\<close>). Search is first fit, live blocks never overlap.
  \<^item> \<open>Serial_Line\<close>, \<open>Vga\<close>: line editing and the echo task (\<open>serial.rs\<close>, \<open>main.rs\<close>), which writes exactly
    the \<^const>\<open>dialogue\<close> of its input, and the text console as a ring (\<open>vga.rs\<close>).
  \<^item> \<open>Faults\<close>: printing under the locks of the two consoles, the panic handler (\<open>main.rs\<close>) and the
    exception handlers (\<open>interrupts.rs\<close>). Here a panic and a lock that is never released are
    outcomes with a state, so that what has been reported by then can be stated; the serial port is
    opened by its first use, which may be the panic handler's.
  \<^item> \<open>Apic\<close>: the ACPI tables (\<open>acpi_handling.rs\<close>), interrupt routing (\<open>apic.rs\<close>), calibration and
    programming of the timer (\<open>time.rs\<close>).
  \<^item> \<open>Segments\<close>: the descriptor tables and the stack of a double fault (\<open>gdt.rs\<close>).
  \<^item> \<open>Boot\<close>: \<open>init\<close>, \<open>kernel_main\<close>, the interrupt table and the time task (\<open>main.rs\<close>,
    \<open>memory.rs\<close>, \<open>interrupts.rs\<close>), composed of the models above.
  \<^item> \<open>Test_Base\<close>, \<open>Test_Ipv4\<close>, \<open>Test_Udp\<close>, \<open>Test_Arp\<close>, \<open>Test_Ethernet\<close>, \<open>Test_Dhcp\<close>: the unit tests of
    \<open>net/src\<close> as predicates on the model. They all hold (\<open>unit_tests_pass\<close> below), which ties the
    definitions to the inputs and captured messages the crate itself is tested with.

  This theory holds the properties that span components: what happens from an interrupt to the
  line editor, from an interrupt to the network interface, and from the start to the first tasks.

  \<^bold>\<open>Not modelled.\<close> What the x86-64, acpi, uart and virtio crates do is a parameter: loading the
  tables into the processor, walking the page and ACPI tables, the driver's rings. A poll is one
  step of the executor's loop, so that an interrupt during it counts as coming after it; how
  interrupts fall into the polls of the streams themselves is in \<open>Streams\<close>. Text that is only
  printed to the screen is kept as a log where a property needs it and dropped elsewhere; the
  texts of stack frames and of the compiler's panic messages are parameters.
\<close>

section \<open>From the interrupt to the task\<close>

lemma wake_one:
  assumes "fifo ops 100 content" and "length (content q) < 100"
  shows "\<exists>q'. wake_tasks ops [tid] q = Some q' \<and> content q' = content q @ [tid]"
  using fifo_push(1)[OF assms, of tid] by (auto simp: wake_task_def)

text \<open>C10: keys typed reach the line. While the echo task is parked, a serial interrupt wakes it,
  once, by queueing its id with the executor; polled, the task's stream yields every byte the
  port held, in order and none twice, and parks it again; and \<open>readline\<close> over those bytes is the
  line editing they stand for.\<close>

theorem typed_keys_reach_line:
  assumes "fifo ops 100 content" and "waker_slot aw slot" and "st_queue s = Some q"
    and "slot (st_waker s) = Some tid" and "st_woken s = []"
    and "uart_holds ext w bs w'" and "bs \<noteq> []" and "length (content q) + length bs \<le> 100"
    and "fifo tops 100 tcontent" and "length (tcontent tq) < 100" and "tty_accepts tty"
  shows "\<exists>s1 s2 tq' buffer v'. com1_interrupt_handler ext ops aw w s = Some (irq_eoi ext w', s1)
    \<and> wake_tasks tops (st_woken s1) tq = Some tq' \<and> tcontent tq' = tcontent tq @ [tid]
    \<and> stream_items ops aw tid 101 s1 = Some (content q @ bs, s2)
    \<and> held content s2 = [] \<and> slot (st_waker s2) = Some tid
    \<and> (case typed 1024 (map Some (content q @ bs)) [] of (r, line, rest) \<Rightarrow>
         readline tty (map Some (content q @ bs)) (replicate 1024 0) 0 v = Some (r, buffer, rest, v')
         \<and> take (length line) buffer = line)"
proof -
  let ?s1 = "fold (add_byte ops aw) bs s" and ?in = "map Some (content q @ bs)"
  have h: "com1_interrupt_handler ext ops aw w s = Some (irq_eoi ext w', ?s1)"
    using drain_uart_holds[OF assms(6), of ops aw s] by (simp add: com1_interrupt_handler_def)
  have woken: "st_woken ?s1 = [tid]" using add_bytes_wake[OF assms(1-3,8,7)] assms(4,5) by simp
  obtain tq' where t: "wake_tasks tops [tid] tq = Some tq'" "tcontent tq' = tcontent tq @ [tid]"
    using wake_one[OF assms(9,10)] by blast
  obtain q1 where q1: "st_queue ?s1 = Some q1" "content q1 = content q @ bs"
    using add_bytes_room[OF assms(1-3,8)] by blast
  have "length (content q1) < 101" using q1(2) assms(8) by simp
  from stream_items_all[OF assms(1,2) q1(1) this, of tid] q1(2)
  obtain s2 where s2: "stream_items ops aw tid 101 ?s1 = Some (content q @ bs, s2)"
    "held content s2 = []" "slot (st_waker s2) = Some tid" by auto
  have "line_in [] (replicate 1024 0)" by (simp add: line_in_def)
  from readline_typed[OF assms(11) this, of 1024 ?in v] obtain buffer v' where
    "readline tty ?in (replicate 1024 0) 0 v
      = Some (fst (typed 1024 ?in []), buffer, snd (snd (typed 1024 ?in [])), v')"
    "line_in (fst (snd (typed 1024 ?in []))) buffer" by auto
  then show ?thesis using h woken t s2 by (auto simp: line_in_def split_def)
qed

theorem typed_keys_reach_line_witness:
  "\<exists>s1 s2 buffer v'. com1_interrupt_handler byte_port list_queue option_slot [104, 105, 13]
      (empty_stream\<lparr>st_waker := Some 0\<rparr>) = Some ([], s1) \<and> st_woken s1 = [0]
    \<and> stream_items list_queue option_slot 0 101 s1 = Some ([104, 105, 13], s2)
    \<and> readline log_tty (map Some [104, 105, 13]) (replicate 1024 0) 0 [] = Some (Line 2, buffer, [], v')
    \<and> take 2 buffer = [104, 105]"
proof -
  let ?bs = "[104, 105, 13] :: u8 list"
  have u: "uart_holds byte_port bs bs []" for bs
    by (induction bs) (auto intro!: uart_holds.intros simp: byte_port_def)
  have e: "typed 1024 (map Some ?bs) [] = (Line 2, [104, 105], [])" by code_simp
  have s: "st_queue (empty_stream\<lparr>st_waker := Some 0\<rparr>) = Some ([] :: u8 list)"
    "st_waker (empty_stream\<lparr>st_waker := Some 0\<rparr> :: (u8 list, u64 option) stream) = Some 0"
    "st_woken (empty_stream\<lparr>st_waker := Some 0\<rparr> :: (u8 list, u64 option) stream) = []"
    by (simp_all add: empty_stream_def)
  have l: "length [104, 105 :: u8] = 2" and p: "irq_eoi byte_port [] = []" by (simp_all add: byte_port_def)
  have r: "length ([] :: u8 list) + length ?bs \<le> 100" "length ([] :: u64 list) < 100" by simp_all
  obtain s1 s2 tq buffer v' where
    "com1_interrupt_handler byte_port list_queue option_slot ?bs (empty_stream\<lparr>st_waker := Some 0\<rparr>)
      = Some (irq_eoi byte_port [], s1)"
    "wake_tasks list_queue (st_woken s1) [] = Some tq" "tq = [] @ [0]"
    "stream_items list_queue option_slot 0 101 s1 = Some ([] @ ?bs, s2)"
    "readline log_tty (map Some ([] @ ?bs)) (replicate 1024 0) 0 [] = Some (Line 2, buffer, [], v')"
    "take (length [104, 105 :: u8]) buffer = [104, 105]"
    using typed_keys_reach_line[OF list_queue_fifo option_slot_ok s u list.distinct(2) r(1)
        list_queue_fifo r(2) log_tty_accepts, of "[]", unfolded append_Nil e prod.case]
    unfolding append_Nil by blast
  moreover have "st_woken s1 = [0]"
    using add_bytes_wake[OF list_queue_fifo option_slot_ok s(1) r(1)] calculation(1) s(2,3)
      drain_uart_holds[OF u[of ?bs], of list_queue option_slot "empty_stream\<lparr>st_waker := Some 0\<rparr>"]
    by (simp add: com1_interrupt_handler_def)
  ultimately show ?thesis unfolding append_Nil p l by blast
qed

text \<open>C9: received packets reach the interface. While the network task is parked, a queue
  interrupt of the card wakes it, once; polled, its stream yields that event, and serving it
  handles, in order and without a panic, every packet the driver delivers, after which the
  task is parked again.\<close>

theorem received_packets_reach_interface:
  assumes "fifo ops 100 content" and "waker_slot aw slot" and "st_queue s = Some q" and "content q = []"
    and "slot (st_waker s) = Some tid" and "st_woken s = []"
    and "ack_interrupt iext w = ((True, False), w1)"
    and "fifo tops 100 tcontent" and "length (tcontent tq) < 100"
    and "net_ok ext self v" and "delivers rx r ps r'"
  shows "\<exists>s1 s2 tq' self' v'. virtio_irq iext ops aw w s = (irq_eoi iext w1, s1)
    \<and> wake_tasks tops (st_woken s1) tq = Some tq' \<and> tcontent tq' = tcontent tq @ [tid]
    \<and> stream_items ops aw tid 2 s1 = Some ([QueueEvent], s2)
    \<and> held content s2 = [] \<and> slot (st_waker s2) = Some tid
    \<and> network_events rx ext [QueueEvent] r self v = Some (r', self', v')
    \<and> run_steps (rx_step ext) ps (self, v) = Some (self', v')
    \<and> net_ok ext self' v' \<and> config self' = fold rx_config ps (config self)"
proof -
  let ?s1 = "add_event ops aw QueueEvent s"
  have "length (content q) < 100" using assms(4) by simp
  note w = add_item_wakes[OF assms(1-3) this, of QueueEvent, folded add_event_def]
  have h: "virtio_irq iext ops aw w s = (irq_eoi iext w1, ?s1)" using assms(7) by (simp add: virtio_irq_def)
  have woken: "st_woken ?s1 = [tid]" using w(1) assms(5,6) by simp
  obtain tq' where t: "wake_tasks tops [tid] tq = Some tq'" "tcontent tq' = tcontent tq @ [tid]"
    using wake_one[OF assms(8,9)] by blast
  obtain q1 where q1: "st_queue ?s1 = Some q1" "content q1 = [QueueEvent]" using w(3) assms(4) by auto
  have "length (content q1) < 2" using q1(2) by simp
  from stream_items_all[OF assms(1,2) q1(1) this, of tid] q1(2)
  obtain s2 where s2: "stream_items ops aw tid 2 ?s1 = Some ([QueueEvent], s2)"
    "held content s2 = []" "slot (st_waker s2) = Some tid" by auto
  obtain self' v' where n: "run_steps (rx_step ext) ps (self, v) = Some (self', v')"
    "net_ok ext self' v'" "config self' = fold rx_config ps (config self)"
    using rx.run_refines[of ext "(self, v)" ps] assms(10) by auto
  have "network_events rx ext [QueueEvent] r self v = Some (r', self', v')"
    using handle_queue_interrupt_runs[OF assms(11) n(1)] by simp
  then show ?thesis using h woken t s2 n by auto
qed

theorem received_packets_reach_interface_witness:
  "\<exists>s1 s2 self' v'. virtio_irq (byte_port\<lparr>ack_interrupt := \<lambda>w. ((True, False), w)\<rparr>) list_queue
      option_slot [] (empty_stream\<lparr>st_waker := Some 1\<rparr>) = ([], s1)
    \<and> stream_items list_queue option_slot 1 2 s1 = Some ([QueueEvent], s2)
    \<and> network_events list_rx quiet_net [QueueEvent] [[1, 2, 3]] (unbound CLIENT_MAC) quiet_world
        = Some ([], self', v')"
proof -
  let ?s = "empty_stream\<lparr>st_waker := Some 1\<rparr> :: (network_event list, u64 option) stream"
  have s: "st_queue ?s = Some []" "st_waker ?s = Some 1" "st_woken ?s = []"
    by (simp_all add: empty_stream_def)
  let ?i = "byte_port\<lparr>ack_interrupt := \<lambda>w. ((True, False), w)\<rparr>"
  have a: "ack_interrupt ?i [] = ((True, False), [])" and e: "irq_eoi ?i [] = []"
    by (simp_all add: byte_port_def)
  have n: "net_ok quiet_net (unbound CLIENT_MAC) quiet_world"
    using quiet_net_ok by (simp add: net_ok_def unbound_def arp_cache_new_ok)
  have r: "length ([] :: u64 list) < 100" by simp
  show ?thesis
    using received_packets_reach_interface[OF list_queue_fifo option_slot_ok s(1) refl s(2,3) a
        list_queue_fifo r n list_rx_delivers[of "[[1, 2, 3]]"]] unfolding e by blast
qed

section \<open>From the start to the tasks\<close>

text \<open>C12: The kernel runs its tasks. When the start has succeeded, the first tasks the executor's
  loop dispatches are the serial, the network and the time task, each once and in that order, in
  its first three steps, whatever interrupts come meanwhile.\<close>

theorem kernel_runs_its_tasks:
  assumes "fifo ops 100 content" and "kernel_main ax bx io apic dev rx ops bi k 0 w = Some (ex, k', w')"
    and "executor_runs ops poll_fut (machine_start ex w') ds n m" and "3 \<le> n"
  shows "bt_entries (tasks ex) = [(0, \<lparr> task_id = 0, future = HandleSerial \<rparr>),
      (1, \<lparr> task_id = 1, future = NetworkTask \<rparr>), (2, \<lparr> task_id = 2, future = TimeTask \<rparr>)]
    \<and> (\<exists>later. ds = [0, 1, 2] @ later)"
proof -
  obtain k1 w1 where "init ax bx io apic dev rx bi k w = Some (k1, w1)"
    using assms(2) by (auto simp: kernel_main_def split: bind_splits)
  from kernel_main_spawns[OF assms(1) this] assms(2) have ex: "content (task_queue ex) = [0, 1, 2]"
    "executor_ok ex" "bt_entries (tasks ex) = [(0, \<lparr> task_id = 0, future = HandleSerial \<rparr>),
      (1, \<lparr> task_id = 1, future = NetworkTask \<rparr>), (2, \<lparr> task_id = 2, future = TimeTask \<rparr>)]"
    by (auto split: if_splits)
  have "\<exists>later. ds = content (task_queue (exec (machine_start ex w'))) @ later"
    by (rule queued_are_dispatched[OF assms(1) machine_start_ok[OF ex(2)] assms(3)])
      (use ex(1) assms(4) in \<open>simp add: machine_start_def\<close>)
  then show ?thesis using ex(1,3) by (simp add: machine_start_def)
qed

theorem kernel_runs_its_tasks_witness:
  "\<exists>ex k' w' ds m. kernel_main plain_addrs pc_boot pc_ports pc_local_apic pc_card pc_rng list_queue pc_info
      (cold (\<lambda>_. 0)) 0 pc_on = Some (ex, k', w')
    \<and> executor_runs list_queue (\<lambda>_ f w. Some (PollReady, f, [], w)) (machine_start ex w') ds 3 m
    \<and> ds = [0, 1, 2]"
proof -
  let ?poll = "\<lambda>(_ :: u64) f (w :: pc_world). Some (PollReady, f :: kernel_task, [] :: u64 list, w)"
  obtain k' w' where i: "init plain_addrs pc_boot pc_ports pc_local_apic pc_card pc_rng pc_info
      (cold (\<lambda>_. 0)) pc_on = Some (k', w')"
    using init_succeeds[OF pc_machine_ok, of pc_card pc_rng "\<lambda>_. 0"] by blast
  have up: "k_net_up k'" using init_net_up[OF i] pc_card_up by blast
  obtain ex where ex: "kernel_main plain_addrs pc_boot pc_ports pc_local_apic pc_card pc_rng list_queue
      pc_info (cold (\<lambda>_. 0)) 0 pc_on = Some (ex, k', w')" "task_queue ex = [0, 1, 2]"
    "waker_cache ex = []" "bt_entries (tasks ex) = [(0, \<lparr> task_id = 0, future = HandleSerial \<rparr>),
      (1, \<lparr> task_id = 1, future = NetworkTask \<rparr>), (2, \<lparr> task_id = 2, future = TimeTask \<rparr>)]"
    using kernel_main_spawns[OF list_queue_fifo i] up by auto
  let ?ex = "\<lparr> tasks = [(0, \<lparr> task_id = 0, future = HandleSerial \<rparr>),
      (1, \<lparr> task_id = 1, future = NetworkTask \<rparr>), (2, \<lparr> task_id = 2, future = TimeTask \<rparr>)],
    task_queue = [0, 1, 2], waker_cache = [] \<rparr> :: (u64 list, kernel_task) executor"
  have "ex = ?ex" using ex(2-4) by (cases ex) (simp add: bt_entries_def)
  moreover have "case run_machine_steps list_queue ?poll 3 (machine_start ?ex w') of
      Some (ds, _) \<Rightarrow> length ds = 3 | None \<Rightarrow> False"
    by (simp add: run_step_def run_task_def cached_waker_def machine_start_def list_queue_def numeral_3_eq_3)
  ultimately obtain ds m where "run_machine_steps list_queue ?poll 3 (machine_start ex w') = Some (ds, m)"
    "length ds = 3"
    by (auto split: option.splits)
  note r = machine_steps_run[OF this(1)] this(2)
  have "\<exists>later. ds = [0, 1, 2] @ later"
    using kernel_runs_its_tasks[OF list_queue_fifo ex(1) r(1)] by simp
  then have "ds = [0, 1, 2]" using r(2) by auto
  with ex(1) r(1) show ?thesis by blast
qed

section \<open>The test suite of the protocol crate\<close>

text \<open>Every unit test of \<open>net/src\<close> holds of the model.\<close>

lemma unit_tests_pass:
  "list_all id (utils_tests @ ipv4_tests @ udp_tests @ arp_tests @ ethernet_tests @ dhcp_tests)"
  by (simp add: utils_tests_pass ipv4_tests_pass udp_tests_pass arp_tests_pass ethernet_tests_pass
      dhcp_tests_pass)

end
